(* ===== verification/Prelude.thy ===== *)
theory Prelude
  imports Main "HOL-Library.Word" "HOL-Library.AList" "HOL-Library.Sublist"
begin

text \<open>
  Shared vocabulary of the development: the outcome of a Go call that may block or panic,
  Go's built-in map as an association list, the interface of the insertion-ordered map that
  the engine takes from a library, strings with the separator \<open>#\<close>, and decimal
  printing of integers.

  Go strings and byte slices are \<^typ>\<open>string\<close> (a list of bytes); Go's \<open>int\<close> is
  \<^typ>\<open>int\<close> where only counts are stored in it, and machine words are kept at their
  width where the code computes with them.
\<close>

section \<open>Outcomes\<close>

text \<open>
  A Go call returns, waits forever on a channel, or panics. Errors that are returned as
  values are part of the returned value, as in the source.
\<close>

datatype 'a go = Val 'a | Block | Panic

type_synonym error = string

type_synonym 'a res = "error + 'a"

primrec go_bind :: "'a go \<Rightarrow> ('a \<Rightarrow> 'b go) \<Rightarrow> 'b go" where
  "go_bind (Val a) f = f a"
| "go_bind Block f = Block"
| "go_bind Panic f = Panic"

lemma go_bind_eq_Val [simp]:
  "go_bind x f = Val b \<longleftrightarrow> (\<exists>a. x = Val a \<and> f a = Val b)"
  by (cases x) auto

lemma go_bind_eq_Panic:
  "go_bind x f = Panic \<longleftrightarrow> x = Panic \<or> (\<exists>a. x = Val a \<and> f a = Panic)"
  by (cases x) auto

section \<open>Go maps\<close>

text \<open>
  A Go map is an association list with distinct keys. The order of its entries stands for
  one iteration order; no theorem depends on it. Assigning to a key is
  \<^term>\<open>AList.update\<close>, \<open>delete\<close> is \<^term>\<open>AList.delete\<close>, \<open>len\<close> is the
  length.
\<close>

type_synonym ('k, 'v) gomap = "('k \<times> 'v) list"

abbreviation gm_keys :: "('k, 'v) gomap \<Rightarrow> 'k list" where
  "gm_keys m \<equiv> map fst m"

abbreviation gm_ok :: "('k, 'v) gomap \<Rightarrow> bool" where
  "gm_ok m \<equiv> distinct (map fst m)"

named_theorems map_lems

lemma set_keys_update [simp, map_lems]: "fst ` set (AList.update k v m) = insert k (fst ` set m)"
  using dom_update[of k v m] by simp

lemma set_keys_delete [simp, map_lems]: "fst ` set (AList.delete k m) = fst ` set m - {k}"
  by (auto simp: AList.delete_eq image_iff)

lemma gm_ok_update [simp, intro]: "gm_ok m \<Longrightarrow> gm_ok (AList.update k v m)"
  by (rule distinct_update)

lemma gm_ok_delete [simp, intro]: "gm_ok m \<Longrightarrow> gm_ok (AList.delete k m)"
  by (rule distinct_delete)

lemma length_update_new [simp]: "k \<notin> fst ` set m \<Longrightarrow> length (AList.update k v m) = Suc (length m)"
  by (induction m) auto

lemma length_update_old [simp]: "k \<in> fst ` set m \<Longrightarrow> length (AList.update k v m) = length m"
  by (induction m) auto

lemma length_update_le: "length (AList.update k v m) \<le> Suc (length m)"
  by (induction m) auto

lemma length_delete_present:
  "gm_ok m \<Longrightarrow> k \<in> fst ` set m \<Longrightarrow> Suc (length (AList.delete k m)) = length m"
  by (induction m) auto

lemma length_delete_le: "length (AList.delete k m) \<le> length m"
  by (simp add: AList.delete_eq)

lemma update_new: "k \<notin> fst ` set m \<Longrightarrow> AList.update k v m = m @ [(k, v)]"
  by (induction m) auto

lemma map_of_None_iff [map_lems]: "map_of m k = None \<longleftrightarrow> k \<notin> fst ` set m"
  by (induction m) auto

lemma set_update_distinct:
  "gm_ok m \<Longrightarrow> set (AList.update k v m) = insert (k, v) {e \<in> set m. fst e \<noteq> k}"
proof (induction m)
  case (Cons e m)
  then show ?case
    by (cases e) (force simp: image_iff)
qed simp

lemma set_delete_eq [simp]: "set (AList.delete k m) = {e \<in> set m. fst e \<noteq> k}"
  by (auto simp: AList.delete_eq)


lemma map_of_in_keys: "map_of m k = Some v \<Longrightarrow> k \<in> fst ` set m"
  by (force dest: map_of_SomeD)

lemma map_of_update_delete [simp]:
  "map_of (AList.update k v m) k' = (if k' = k then Some v else map_of m k')"
  "map_of (AList.delete k m) k' = (if k' = k then None else map_of m k')"
  by (auto simp: update_conv' delete_conv')

section \<open>The insertion-ordered map of the library \<open>linkedhashmap\<close>\<close>

text \<open>
  The process manager keeps its idle processes and its waiting request groups in
  \<open>gods/maps/linkedhashmap\<close>, which is not part of the repository. Its operations are a
  parameter of the model; \<open>lhm_Entries\<close> is the sequence of entries that its iterator
  yields. The documented behaviour (insertion order, an existing key keeps its position)
  is the locale \<open>linkedhashmap\<close>.
\<close>

record ('k, 'v, 'm) lhm_ops =
  lhm_New :: 'm
  lhm_Put :: "'k \<Rightarrow> 'v \<Rightarrow> 'm \<Rightarrow> 'm"
  lhm_Get :: "'k \<Rightarrow> 'm \<Rightarrow> 'v option"
  lhm_Remove :: "'k \<Rightarrow> 'm \<Rightarrow> 'm"
  lhm_Size :: "'m \<Rightarrow> int"
  lhm_Entries :: "'m \<Rightarrow> ('k \<times> 'v) list"

locale linkedhashmap =
  fixes L :: "('k, 'v, 'm) lhm_ops"
  assumes Entries_New: "lhm_Entries L (lhm_New L) = []"
    and Entries_Put: "lhm_Entries L (lhm_Put L k v m) = AList.update k v (lhm_Entries L m)"
    and Entries_Remove: "lhm_Entries L (lhm_Remove L k m) = AList.delete k (lhm_Entries L m)"
    and Get_Entries: "lhm_Get L k m = map_of (lhm_Entries L m) k"
    and Size_Entries: "lhm_Size L m = int (length (lhm_Entries L m))"
begin

lemmas lhm_simps = Entries_New Entries_Put Entries_Remove Get_Entries Size_Entries

lemma Get_Put: "lhm_Get L k' (lhm_Put L k v m) = (if k' = k then Some v else lhm_Get L k' m)"
  by (simp add: lhm_simps)

lemma Get_Remove: "lhm_Get L k' (lhm_Remove L k m) = (if k' = k then None else lhm_Get L k' m)"
  by (simp add: lhm_simps)

lemma Size_nonneg: "0 \<le> lhm_Size L m"
  by (simp add: lhm_simps)

end

definition alist_lhm :: "('k, 'v, ('k \<times> 'v) list) lhm_ops" where
  "alist_lhm = \<lparr>lhm_New = [], lhm_Put = AList.update, lhm_Get = (\<lambda>k m. map_of m k),
     lhm_Remove = AList.delete, lhm_Size = (\<lambda>m. int (length m)), lhm_Entries = (\<lambda>m. m)\<rparr>"

interpretation alist: linkedhashmap alist_lhm
  by unfold_locales (simp_all add: alist_lhm_def)

section \<open>Strings\<close>

text \<open>\<open>strings.Join\<close> and \<open>strings.Split\<close> with a one-byte separator.\<close>

fun go_join :: "string \<Rightarrow> string list \<Rightarrow> string" where
  "go_join sep [] = []"
| "go_join sep [s] = s"
| "go_join sep (s # t # ss) = s @ sep @ go_join sep (t # ss)"

fun go_split :: "char \<Rightarrow> string \<Rightarrow> string list" where
  "go_split c [] = [[]]"
| "go_split c (x # xs) =
     (if x = c then [] # go_split c xs
      else (case go_split c xs of [] \<Rightarrow> [[x]] | y # ys \<Rightarrow> (x # y) # ys))"

lemma go_split_ne [simp]: "go_split c s \<noteq> []"
  by (induction s) (auto split: list.splits)

lemma go_split_plain: "c \<notin> set s \<Longrightarrow> go_split c s = [s]"
  by (induction s) auto

lemma go_split_sep:
  "c \<notin> set s \<Longrightarrow> go_split c (s @ c # t) = s # go_split c t"
  by (induction s) auto

lemma go_split_join:
  "ss \<noteq> [] \<Longrightarrow> \<forall>s\<in>set ss. c \<notin> set s \<Longrightarrow> go_split c (go_join [c] ss) = ss"
proof (induction ss)
  case (Cons s ss)
  then show ?case
    by (cases ss) (simp_all add: go_split_plain go_split_sep)
qed simp

lemma go_join_split: "go_join [c] (go_split c s) = s"
proof (induction s)
  case (Cons x s)
  obtain y ys where ys: "go_split c s = y # ys"
    by (cases "go_split c s") auto
  have "go_join [c] ((x # y) # ys) = x # go_join [c] (y # ys)"
    by (cases ys) auto
  with Cons ys show ?case
    by auto
qed simp

lemma last_segment_eq:
  assumes "c \<notin> set t" and "c \<notin> set t'" and "s @ c # t = s' @ c # t'"
  shows "t = t'"
proof -
  have last: "takeWhile (\<lambda>x. x \<noteq> c) (rev u @ c # rev r) = rev u" if "c \<notin> set u" for u r
    using that by (subst takeWhile_append2) auto
  have "rev t @ c # rev s = rev t' @ c # rev s'"
    using arg_cong[OF assms(3), of rev] by simp
  then have "rev t = rev t'"
    using last[OF assms(1), of s] last[OF assms(2), of s'] by simp
  then show ?thesis by simp
qed

section \<open>Decimal numbers\<close>

definition digit_char :: "nat \<Rightarrow> char" where
  "digit_char d = char_of (48 + d)"

fun show_nat :: "nat \<Rightarrow> string" where
  "show_nat n = (if n < 10 then [digit_char n] else show_nat (n div 10) @ [digit_char (n mod 10)])"

declare show_nat.simps [simp del]

definition Itoa :: "int \<Rightarrow> string" where
  "Itoa i = (if i < 0 then CHR ''-'' # show_nat (nat (- i)) else show_nat (nat i))"

definition FormatUint :: "64 word \<Rightarrow> string" where
  "FormatUint w = show_nat (unat w)"


definition digit_val :: "char \<Rightarrow> nat" where
  "digit_val c = of_char c - 48"

definition read_nat :: "string \<Rightarrow> nat" where
  "read_nat s = foldl (\<lambda>a c. 10 * a + digit_val c) 0 s"

lemma digit_val_char: "d < 10 \<Longrightarrow> digit_val (digit_char d) = d"
  by (simp add: digit_val_def digit_char_def)

lemma read_show_nat: "read_nat (show_nat n) = n"
proof (induction n rule: show_nat.induct)
  case (1 n)
  show ?case
  proof (cases "n < 10")
    case True
    then show ?thesis
      by (simp add: show_nat.simps[of n] read_nat_def digit_val_char)
  next
    case False
    with 1 have "read_nat (show_nat (n div 10)) = n div 10" by simp
    with False show ?thesis
      by (simp add: show_nat.simps[of n] read_nat_def digit_val_char)
  qed
qed

lemma show_nat_inject [simp]: "show_nat m = show_nat n \<longleftrightarrow> m = n"
  by (metis read_show_nat)

lemma FormatUint_inject [simp]: "FormatUint v = FormatUint w \<longleftrightarrow> v = w"
  by (simp add: FormatUint_def word_unat_eq_iff)

lemma digit_char_not_hash: "d < 10 \<Longrightarrow> digit_char d \<noteq> CHR ''#''"
proof
  assume "d < 10" and "digit_char d = CHR ''#''"
  then have "(of_char (digit_char d) :: nat) = of_char CHR ''#''" by simp
  with \<open>d < 10\<close> show False by (simp add: digit_char_def)
qed

lemma hash_notin_show_nat: "CHR ''#'' \<notin> set (show_nat n)"
proof (induction n rule: show_nat.induct)
  case (1 n)
  have "digit_char (n mod 10) \<noteq> CHR ''#''"
    by (rule digit_char_not_hash) simp
  with 1 show ?case
    by (cases "n < 10") (auto simp: show_nat.simps[of n] dest!: digit_char_not_hash[THEN not_sym])
qed

section \<open>Durations as text\<close>

text \<open>\<open>time.Duration.String\<close>: nanoseconds as \<open>1h2m3.5s\<close>, with a smaller unit below one second.\<close>

fun strip_zeros :: "string \<Rightarrow> string" where
  "strip_zeros s = rev (dropWhile (\<lambda>c. c = CHR ''0'') (rev s))"

definition frac_str :: "nat \<Rightarrow> nat \<Rightarrow> string" where
  "frac_str prec n =
     (let ds = show_nat (n mod 10 ^ prec);
          fs = strip_zeros (replicate (prec - length ds) CHR ''0'' @ ds)
      in if fs = [] then [] else CHR ''.'' # fs)"

definition unit_str :: "nat \<Rightarrow> string \<Rightarrow> nat \<Rightarrow> string" where
  "unit_str prec un n = show_nat (n div 10 ^ prec) @ frac_str prec n @ un"

definition Duration_String :: "int \<Rightarrow> string" where
  "Duration_String d =
     (let u = nat (abs d); secs = u div 10 ^ 9
      in (if d < 0 then ''-'' else []) @
         (if u = 0 then ''0s''
          else if u < 1000 then unit_str 0 ''ns'' u
          else if u < 1000000 then unit_str 3 [char_of (194 :: nat), char_of (181 :: nat), CHR ''s''] u
          else if u < 1000000000 then unit_str 6 ''ms'' u
          else (if secs \<ge> 3600 then show_nat (secs div 3600) @ ''h'' else []) @
               (if secs \<ge> 60 then show_nat (secs div 60 mod 60) @ ''m'' else []) @
               show_nat (secs mod 60) @ frac_str 9 u @ ''s''))"

end
