(* ===== verification/Lru_Cache.thy ===== *)
theory Lru_Cache
  imports Prelude
begin

text \<open>
  The LRU cache of \<open>vm_mgr/utils/lru.go\<close>, at the level of its two data structures: the
  doubly linked list of elements (\<open>ll\<close>, front first, as a list of element addresses) and the
  index from keys to elements (\<open>cache\<close>), over a store of list elements.  \<^term>\<open>None\<close> is
  the nil pointer that \<open>Clear\<close> leaves behind.  Every operation returns the calls it makes to
  the \<open>OnEvicted\<close> callback, in order.

  The contract is the locale \<open>lru\<close>: a cache is a list of bindings, most recently used
  first.  Its interpretation on the operations below is the refinement proof.
\<close>

section \<open>The code\<close>

record ('k, 'v) Cache =
  MaxEntries :: int
  OnEvicted :: bool
  ll :: "nat list option"
  cache :: "('k, nat) gomap option"
  elems :: "(nat, 'k \<times> 'v) gomap"
  nextElem :: nat

definition NewCache :: "int \<Rightarrow> ('k, 'v) Cache" where
  "NewCache maxEntries = \<lparr>MaxEntries = maxEntries, OnEvicted = False, ll = Some [],
     cache = Some [], elems = [], nextElem = 0\<rparr>"

text \<open>The operations of \<open>container/list\<close> the cache uses.\<close>

definition MoveToFront :: "nat \<Rightarrow> nat list \<Rightarrow> nat list" where
  "MoveToFront e l = (if e \<in> set l then e # remove1 e l else l)"

definition ll_Back :: "nat list \<Rightarrow> nat option" where
  "ll_Back l = (if l = [] then None else Some (last l))"

definition entry_at :: "('k, 'v) Cache \<Rightarrow> nat \<Rightarrow> 'k \<times> 'v" where
  "entry_at c e = the (map_of (elems c) e)"

definition removeElement :: "('k, 'v) Cache \<Rightarrow> nat \<Rightarrow> ('k, 'v) Cache \<times> ('k \<times> 'v) list" where
  "removeElement c e =
     (let c1 = c\<lparr>ll := map_option (remove1 e) (ll c)\<rparr>;
          kv = entry_at c e;
          c2 = c1\<lparr>cache := map_option (AList.delete (fst kv)) (cache c1)\<rparr>
      in (c2, if OnEvicted c then [kv] else []))"

definition RemoveOldest :: "('k, 'v) Cache \<Rightarrow> ('k, 'v) Cache \<times> ('k \<times> 'v) list" where
  "RemoveOldest c =
     (if cache c = None then (c, [])
      else case ll_Back (the (ll c)) of
        None \<Rightarrow> (c, [])
      | Some ele \<Rightarrow> removeElement c ele)"

definition Add :: "('k, 'v) Cache \<Rightarrow> 'k \<Rightarrow> 'v \<Rightarrow> ('k, 'v) Cache \<times> ('k \<times> 'v) list" where
  "Add c0 key v =
     (let c = (if cache c0 = None then c0\<lparr>cache := Some [], ll := Some []\<rparr> else c0)
      in case map_of (the (cache c)) key of
        Some ee \<Rightarrow>
          (c\<lparr>ll := map_option (MoveToFront ee) (ll c),
             elems := AList.update ee (fst (entry_at c ee), v) (elems c)\<rparr>, [])
      | None \<Rightarrow>
          (let ele = nextElem c;
               c1 = c\<lparr>ll := map_option ((#) ele) (ll c),
                      elems := AList.update ele (key, v) (elems c), nextElem := ele + 1\<rparr>;
               c2 = c1\<lparr>cache := map_option (AList.update key ele) (cache c1)\<rparr>
           in if MaxEntries c2 \<noteq> 0 \<and> int (length (the (ll c2))) > MaxEntries c2
              then RemoveOldest c2 else (c2, [])))"

definition Get :: "('k, 'v) Cache \<Rightarrow> 'k \<Rightarrow> ('k, 'v) Cache \<times> 'v option" where
  "Get c key =
     (if cache c = None then (c, None)
      else case map_of (the (cache c)) key of
        Some ele \<Rightarrow> (c\<lparr>ll := map_option (MoveToFront ele) (ll c)\<rparr>, Some (snd (entry_at c ele)))
      | None \<Rightarrow> (c, None))"

definition Remove :: "('k, 'v) Cache \<Rightarrow> 'k \<Rightarrow> ('k, 'v) Cache \<times> ('k \<times> 'v) list" where
  "Remove c key =
     (if cache c = None then (c, [])
      else case map_of (the (cache c)) key of
        Some ele \<Rightarrow> removeElement c ele
      | None \<Rightarrow> (c, []))"

definition GetOldest :: "('k, 'v) Cache \<Rightarrow> 'v option" where
  "GetOldest c =
     (if cache c = None then None
      else case ll_Back (the (ll c)) of
        Some ele \<Rightarrow> Some (snd (entry_at c ele))
      | None \<Rightarrow> None)"

definition Len :: "('k, 'v) Cache \<Rightarrow> int" where
  "Len c = (if cache c = None then 0 else int (length (the (ll c))))"

text \<open>\<open>Clear\<close> ranges over the index, in the order \<open>ord\<close> of keys the runtime picks.\<close>

definition Clear :: "'k list \<Rightarrow> ('k, 'v) Cache \<Rightarrow> ('k, 'v) Cache \<times> ('k \<times> 'v) list" where
  "Clear ord c =
     (c\<lparr>ll := None, cache := None\<rparr>,
      if OnEvicted c
      then map (\<lambda>k. entry_at c (the (map_of (the (cache c)) k))) ord else [])"

section \<open>The contract\<close>

definition mru_add :: "int \<Rightarrow> 'k \<Rightarrow> 'v \<Rightarrow> ('k \<times> 'v) list \<Rightarrow> ('k \<times> 'v) list \<times> ('k \<times> 'v) list" where
  "mru_add mx k v xs =
     (let ys = (k, v) # AList.delete k xs
      in if k \<notin> fst ` set xs \<and> mx \<noteq> 0 \<and> int (length ys) > mx
         then (butlast ys, [last ys]) else (ys, []))"

definition mru_touch :: "'k \<Rightarrow> ('k \<times> 'v) list \<Rightarrow> ('k \<times> 'v) list" where
  "mru_touch k xs = (case map_of xs k of None \<Rightarrow> xs | Some v \<Rightarrow> (k, v) # AList.delete k xs)"

locale lru =
  fixes inv :: "'c \<Rightarrow> bool"
    and abs :: "'c \<Rightarrow> ('k \<times> 'v) list"
    and mx :: "'c \<Rightarrow> int"
    and cb :: "'c \<Rightarrow> bool"
    and new :: "int \<Rightarrow> 'c"
    and add :: "'c \<Rightarrow> 'k \<Rightarrow> 'v \<Rightarrow> 'c \<times> ('k \<times> 'v) list"
    and get :: "'c \<Rightarrow> 'k \<Rightarrow> 'c \<times> 'v option"
    and rem :: "'c \<Rightarrow> 'k \<Rightarrow> 'c \<times> ('k \<times> 'v) list"
    and remOldest :: "'c \<Rightarrow> 'c \<times> ('k \<times> 'v) list"
    and oldest :: "'c \<Rightarrow> 'v option"
    and len :: "'c \<Rightarrow> int"
  assumes new: "inv (new m)" "abs (new m) = []" "mx (new m) = m" "\<not> cb (new m)"
    and keys: "inv c \<Longrightarrow> gm_ok (abs c)"
    and bound: "inv c \<Longrightarrow> mx c \<noteq> 0 \<Longrightarrow> int (length (abs c)) \<le> max 0 (mx c)"
    and add: "inv c \<Longrightarrow> inv (fst (add c k v))"
      "inv c \<Longrightarrow> abs (fst (add c k v)) = fst (mru_add (mx c) k v (abs c))"
      "inv c \<Longrightarrow> snd (add c k v) = (if cb c then snd (mru_add (mx c) k v (abs c)) else [])"
    and get: "inv c \<Longrightarrow> inv (fst (get c k))" "inv c \<Longrightarrow> snd (get c k) = map_of (abs c) k"
      "inv c \<Longrightarrow> abs (fst (get c k)) = mru_touch k (abs c)"
    and rem: "inv c \<Longrightarrow> inv (fst (rem c k))" "inv c \<Longrightarrow> abs (fst (rem c k)) = AList.delete k (abs c)"
      "inv c \<Longrightarrow> snd (rem c k) = (if cb c then filter (\<lambda>kv. fst kv = k) (abs c) else [])"
    and remOldest: "inv c \<Longrightarrow> inv (fst (remOldest c))"
      "inv c \<Longrightarrow> abs (fst (remOldest c)) = butlast (abs c)"
      "inv c \<Longrightarrow> snd (remOldest c) = (if cb c \<and> abs c \<noteq> [] then [last (abs c)] else [])"
    and oldest: "inv c \<Longrightarrow> oldest c = (if abs c = [] then None else Some (snd (last (abs c))))"
    and len: "inv c \<Longrightarrow> len c = int (length (abs c))"
    and keep: "mx (fst (add c k v)) = mx c" "mx (fst (get c k)) = mx c"
      "mx (fst (rem c k)) = mx c" "mx (fst (remOldest c)) = mx c"
      "cb (fst (add c k v)) = cb c" "cb (fst (get c k)) = cb c"
      "cb (fst (rem c k)) = cb c" "cb (fst (remOldest c)) = cb c"
begin

lemmas lru_simps = new add get rem remOldest oldest len keep

lemma get_after_add:
  "inv c \<Longrightarrow> mx c \<ge> 0 \<Longrightarrow> snd (get (fst (add c k v)) k) = Some v"
  by (auto simp: lru_simps mru_add_def Let_def)

lemma get_after_rem: "inv c \<Longrightarrow> snd (get (fst (rem c k)) k) = None"
  by (simp add: lru_simps AList.delete_conv)

lemma get_keeps: "inv c \<Longrightarrow> map_of (abs (fst (get c k))) k' = map_of (abs c) k'"
  by (auto simp: lru_simps mru_touch_def AList.delete_conv split: option.split)

lemma len_add_le: "inv c \<Longrightarrow> 0 < mx c \<Longrightarrow> len (fst (add c k v)) \<le> mx c"
  using bound[of "fst (add c k v)"] by (simp add: lru_simps)

end

section \<open>The code meets the contract\<close>

definition indexed :: "nat list \<Rightarrow> ('k, nat) gomap \<Rightarrow> (nat \<Rightarrow> 'k \<times> 'v) \<Rightarrow> bool" where
  "indexed l m ent \<longleftrightarrow> distinct l \<and> gm_ok m \<and>
     (\<forall>k e. map_of m k = Some e \<longleftrightarrow> e \<in> set l \<and> fst (ent e) = k)"

definition lru_shape :: "('k, 'v) Cache \<Rightarrow> bool" where
  "lru_shape c \<longleftrightarrow> (case (ll c, cache c) of
       (None, None) \<Rightarrow> True
     | (Some l, Some m) \<Rightarrow> indexed l m (entry_at c) \<and> (\<forall>e\<in>set l. e < nextElem c)
     | _ \<Rightarrow> False)"

definition lru_abs :: "('k, 'v) Cache \<Rightarrow> ('k \<times> 'v) list" where
  "lru_abs c = (case ll c of None \<Rightarrow> [] | Some l \<Rightarrow> map (entry_at c) l)"

definition lru_inv :: "('k, 'v) Cache \<Rightarrow> bool" where
  "lru_inv c \<longleftrightarrow> lru_shape c \<and>
     (MaxEntries c \<noteq> 0 \<longrightarrow> int (length (lru_abs c)) \<le> max 0 (MaxEntries c))"

lemma indexed_keys: "indexed l m ent \<Longrightarrow> gm_ok (map ent l)"
  by (auto simp: indexed_def distinct_map inj_on_def) (metis fst_conv snd_conv)

lemma map_of_entries: "indexed l m ent \<Longrightarrow> map_of m k = Some e \<Longrightarrow> map_of (map ent l) k = Some (snd (ent e))"
  by (rule map_of_is_SomeI[OF indexed_keys]) (auto simp: indexed_def image_iff intro: prod_eqI)

lemma map_of_entries_None: "indexed l m ent \<Longrightarrow> map_of m k = None \<Longrightarrow> k \<notin> fst ` ent ` set l"
  by (auto simp: indexed_def)

lemma delete_entries:
  "distinct l \<Longrightarrow> inj_on (fst \<circ> ent) (set l) \<Longrightarrow> e \<in> set l \<Longrightarrow>
   AList.delete (fst (ent e)) (map ent l) = map ent (remove1 e l)"
  by (induction l) (auto simp: AList.delete_eq filter_id_conv inj_on_def)

lemma indexed_remove:
  "indexed l m ent \<Longrightarrow> e \<in> set l \<Longrightarrow>
   indexed (remove1 e l) (AList.delete (fst (ent e)) m) ent \<and>
   map ent (remove1 e l) = AList.delete (fst (ent e)) (map ent l)"
proof -
  assume ix: "indexed l m ent" and e: "e \<in> set l"
  have "inj_on (fst \<circ> ent) (set l)"
    using indexed_keys[OF ix] by (simp add: distinct_map comp_def inj_on_def)
  then show ?thesis
    using ix e delete_entries[of l ent e]
    by (auto simp: indexed_def AList.delete_conv inj_on_def fun_upd_def split: if_splits)
qed

lemma indexed_front:
  "indexed l m ent \<Longrightarrow> e \<in> set l \<Longrightarrow> indexed (MoveToFront e l) m ent"
  by (auto simp: indexed_def MoveToFront_def)

lemma length_MoveToFront [simp]: "length (MoveToFront e l) = length l"
  by (cases "l = []") (auto simp: MoveToFront_def length_remove1)

lemma set_MoveToFront [simp]: "distinct l \<Longrightarrow> set (MoveToFront e l) = set l"
  by (auto simp: MoveToFront_def)

lemma map_MoveToFront: "e \<in> set l \<Longrightarrow> map f (MoveToFront e l) = f e # map f (remove1 e l)"
  by (simp add: MoveToFront_def)

lemma indexed_push:
  "indexed l m ent \<Longrightarrow> e \<notin> set l \<Longrightarrow> map_of m k = None \<Longrightarrow>
   indexed (e # l) (AList.update k e m) (ent(e := (k, v)))"
  by (auto simp: indexed_def update_conv' split: if_splits)

lemma indexed_value:
  "indexed l m ent \<Longrightarrow> indexed l m (ent(e := (fst (ent e), v)))"
  by (auto simp: indexed_def)

lemma only_entry:
  "indexed l m ent \<Longrightarrow> e \<in> set l \<Longrightarrow> filter (\<lambda>kv. fst kv = fst (ent e)) (map ent l) = [ent e]"
proof -
  assume ix: "indexed l m ent" and e: "e \<in> set l"
  have "distinct l" and "inj_on (fst \<circ> ent) (set l)"
    using ix indexed_keys[OF ix] by (simp_all add: indexed_def distinct_map comp_def inj_on_def)
  then show ?thesis using e
    by (induction l) (auto simp: inj_on_def filter_empty_conv)
qed

lemma no_entry: "k \<notin> fst ` set xs \<Longrightarrow> filter (\<lambda>kv. fst kv = k) xs = []"
  by (auto simp: filter_empty_conv)

lemma length_mru_touch: "gm_ok xs \<Longrightarrow> length (mru_touch k xs) = length xs"
  by (auto simp: mru_touch_def rev_image_eqI intro!: length_delete_present split: option.split)

lemma remove_last: "distinct l \<Longrightarrow> l \<noteq> [] \<Longrightarrow> remove1 (last l) l = butlast l"
  by (induction l) auto

text \<open>The state of an initialised cache, opened up once for all operations.\<close>

lemma lru_cases:
  assumes "lru_shape c"
  obtains (cleared) "ll c = None" "cache c = None" "lru_abs c = []"
  | (live) l m where "ll c = Some l" "cache c = Some m" "indexed l m (entry_at c)"
      "\<forall>e\<in>set l. e < nextElem c" "lru_abs c = map (entry_at c) l"
  using assms by (auto simp: lru_shape_def lru_abs_def split: option.splits)

lemma entry_at_cong [simp]:
  "entry_at (c\<lparr>ll := x\<rparr>) = entry_at c" "entry_at (c\<lparr>cache := y\<rparr>) = entry_at c"
  "entry_at (c\<lparr>nextElem := n\<rparr>) = entry_at c"
  by (auto simp: entry_at_def)

lemma entry_at_update [simp]:
  "entry_at (d\<lparr>elems := AList.update e kv (elems c)\<rparr>) = (entry_at c)(e := kv)"
  by (auto simp: entry_at_def update_conv')

lemma removeElement_ok:
  assumes "lru_shape c" "ll c = Some l" "cache c = Some m" "e \<in> set l"
  shows "lru_shape (fst (removeElement c e))"
    and "lru_abs (fst (removeElement c e)) = AList.delete (fst (entry_at c e)) (lru_abs c)"
    and "lru_abs (fst (removeElement c e)) = map (entry_at c) (remove1 e l)"
    and "snd (removeElement c e) = (if OnEvicted c then [entry_at c e] else [])"
    and "MaxEntries (fst (removeElement c e)) = MaxEntries c"
    and "OnEvicted (fst (removeElement c e)) = OnEvicted c"
  using assms indexed_remove[of l m "entry_at c" e] set_remove1_subset[of e l]
  by (auto simp: lru_shape_def lru_abs_def removeElement_def Let_def)

lemma RemoveOldest_ok:
  assumes "lru_shape c"
  shows "lru_shape (fst (RemoveOldest c)) \<and> lru_abs (fst (RemoveOldest c)) = butlast (lru_abs c) \<and>
    snd (RemoveOldest c) = (if OnEvicted c \<and> lru_abs c \<noteq> [] then [last (lru_abs c)] else []) \<and>
    MaxEntries (fst (RemoveOldest c)) = MaxEntries c"
  using assms
proof (cases rule: lru_cases)
  case (live l m)
  show ?thesis
  proof (cases "l = []")
    case False
    note r = removeElement_ok[OF assms live(1,2), of "last l"]
    from False show ?thesis
      using r(1,3,4,5) live
      by (auto simp: RemoveOldest_def ll_Back_def remove_last indexed_def map_butlast last_map)
  qed (use live assms in \<open>simp add: RemoveOldest_def ll_Back_def\<close>)
qed (use assms in \<open>simp add: RemoveOldest_def\<close>)

lemma Remove_ok:
  assumes "lru_shape c"
  shows "lru_shape (fst (Remove c k)) \<and> lru_abs (fst (Remove c k)) = AList.delete k (lru_abs c) \<and>
    snd (Remove c k) = (if OnEvicted c then filter (\<lambda>kv. fst kv = k) (lru_abs c) else []) \<and>
    MaxEntries (fst (Remove c k)) = MaxEntries c"
  using assms
proof (cases rule: lru_cases)
  case (live l m)
  show ?thesis
  proof (cases "map_of m k")
    case None
    then have "k \<notin> fst ` set (lru_abs c)"
      using map_of_entries_None[OF live(3)] live by (simp add: image_image)
    with None show ?thesis
      using live(1,2) assms no_entry[of k "lru_abs c"] by (simp add: Remove_def)
  next
    case (Some e)
    then have e: "e \<in> set l" "fst (entry_at c e) = k" using live(3) by (auto simp: indexed_def)
    note r = removeElement_ok[OF assms live(1,2) e(1)]
    have "filter (\<lambda>kv. fst kv = k) (lru_abs c) = [entry_at c e]"
      using only_entry[OF live(3) e(1)] e(2) live(5) by simp
    then show ?thesis using Some e live r(1,2,4,5) by (simp add: Remove_def)
  qed
qed (use assms in \<open>simp add: Remove_def\<close>)

lemma Get_ok:
  assumes "lru_shape c"
  shows "lru_shape (fst (Get c k)) \<and> snd (Get c k) = map_of (lru_abs c) k \<and>
    lru_abs (fst (Get c k)) = mru_touch k (lru_abs c)"
  using assms
proof (cases rule: lru_cases)
  case (live l m)
  show ?thesis
  proof (cases "map_of m k")
    case None
    then have "map_of (map (entry_at c) l) k = None"
      using map_of_entries_None[OF live(3)] by (simp add: map_of_eq_None_iff)
    with None show ?thesis using live assms by (simp add: Get_def mru_touch_def)
  next
    case (Some e)
    then have e: "e \<in> set l" "fst (entry_at c e) = k" using live(3) by (auto simp: indexed_def)
    have "map_of (map (entry_at c) l) k = Some (snd (entry_at c e))"
      using map_of_entries[OF live(3) Some] .
    then show ?thesis
      using Some e live assms indexed_front[OF live(3) e(1)] indexed_remove[OF live(3) e(1)]
      by (auto simp: Get_def mru_touch_def lru_shape_def lru_abs_def map_MoveToFront indexed_def
          prod_eq_iff)
  qed
qed (use assms in \<open>simp add: Get_def mru_touch_def\<close>)

lemma Add_hit:
  assumes inv: "lru_shape c" and c: "ll c = Some l" "cache c = Some m" and e: "map_of m k = Some e"
  shows "lru_shape (fst (Add c k v)) \<and> lru_abs (fst (Add c k v)) = (k, v) # AList.delete k (lru_abs c) \<and>
    k \<in> fst ` set (lru_abs c) \<and> snd (Add c k v) = [] \<and> MaxEntries (fst (Add c k v)) = MaxEntries c"
proof -
  have ix: "indexed l m (entry_at c)" using inv c by (simp add: lru_shape_def)
  then have el: "e \<in> set l" "fst (entry_at c e) = k" using e by (auto simp: indexed_def)
  have d: "distinct l" using ix by (simp add: indexed_def)
  have "map ((entry_at c)(e := (k, v))) (remove1 e l) = map (entry_at c) (remove1 e l)"
    using d by auto
  moreover have "indexed (MoveToFront e l) m ((entry_at c)(e := (k, v)))"
    using indexed_front[OF indexed_value[OF ix, of e v] el(1)] el by simp
  ultimately show ?thesis
    using inv c e el d indexed_remove[OF ix el(1)]
    by (auto simp: Add_def lru_shape_def lru_abs_def map_MoveToFront rev_image_eqI)
qed

lemma Add_miss:
  assumes inv: "lru_shape c" and c: "ll c = Some l" "cache c = Some m" and k: "map_of m k = None"
  shows "lru_shape (fst (Add c k v)) \<and>
    lru_abs (fst (Add c k v)) = fst (mru_add (MaxEntries c) k v (lru_abs c)) \<and>
    snd (Add c k v) = (if OnEvicted c then snd (mru_add (MaxEntries c) k v (lru_abs c)) else []) \<and>
    MaxEntries (fst (Add c k v)) = MaxEntries c"
proof -
  let ?e = "nextElem c"
  let ?d = "c\<lparr>ll := Some (?e # l), elems := AList.update ?e (k, v) (elems c),
    nextElem := ?e + 1, cache := Some (AList.update k ?e m)\<rparr>"
  have ix: "indexed l m (entry_at c)" and fresh: "?e \<notin> set l" "\<forall>e\<in>set l. e < ?e"
    using inv c by (auto simp: lru_shape_def)
  have ent: "entry_at ?d = (entry_at c)(?e := (k, v))" by simp
  have ix': "indexed (?e # l) (AList.update k ?e m) (entry_at ?d)"
    unfolding ent by (rule indexed_push[OF ix fresh(1) k])
  have notin: "k \<notin> fst ` set (lru_abs c)"
    using map_of_entries_None[OF ix k] c by (simp add: lru_abs_def image_image)
  have abs: "lru_abs ?d = (k, v) # lru_abs c" and len: "length (lru_abs c) = length l"
    using c fresh by (auto simp: lru_abs_def)
  have add: "Add c k v = (if MaxEntries c \<noteq> 0 \<and> int (length (?e # l)) > MaxEntries c
      then RemoveOldest ?d else (?d, []))"
    using c k by (simp add: Add_def Let_def)
  have shape: "lru_shape ?d" using ix' fresh by (auto simp: lru_shape_def)
  show ?thesis
    using RemoveOldest_ok[OF shape] shape notin abs len add
    by (auto simp: mru_add_def Let_def)
qed

lemma Add_ok:
  assumes "lru_shape c"
  shows "lru_shape (fst (Add c k v)) \<and>
    lru_abs (fst (Add c k v)) = fst (mru_add (MaxEntries c) k v (lru_abs c)) \<and>
    snd (Add c k v) = (if OnEvicted c then snd (mru_add (MaxEntries c) k v (lru_abs c)) else []) \<and>
    MaxEntries (fst (Add c k v)) = MaxEntries c"
  using assms
proof (cases rule: lru_cases)
  case cleared
  let ?c = "c\<lparr>cache := Some [], ll := Some []\<rparr>"
  have "lru_shape ?c" by (simp add: lru_shape_def indexed_def)
  moreover have "Add c k v = Add ?c k v" "lru_abs ?c = []"
    using cleared by (simp_all add: Add_def lru_abs_def)
  ultimately show ?thesis using Add_miss[of ?c "[]" "[]" k v] cleared by simp
next
  case (live l m)
  show ?thesis
  proof (cases "map_of m k")
    case None
    from Add_miss[OF assms live(1,2) None] show ?thesis .
  next
    case (Some e)
    from Add_hit[OF assms live(1,2) Some] show ?thesis by (simp add: mru_add_def)
  qed
qed

lemma length_mru_add:
  "gm_ok xs \<Longrightarrow> (mx \<noteq> 0 \<Longrightarrow> int (length xs) \<le> max 0 mx) \<Longrightarrow> mx \<noteq> 0 \<Longrightarrow>
   int (length (fst (mru_add mx k v xs))) \<le> max 0 mx"
  using length_delete_present[of xs k] by (fastforce simp: mru_add_def Let_def)

lemma lru_abs_keys: "lru_shape c \<Longrightarrow> gm_ok (lru_abs c)"
  by (erule lru_cases) (use indexed_keys in force)+

lemma flags_keep:
  "MaxEntries (fst (Add c k v)) = MaxEntries c" "OnEvicted (fst (Add c k v)) = OnEvicted c"
  "MaxEntries (fst (Get c k)) = MaxEntries c" "OnEvicted (fst (Get c k)) = OnEvicted c"
  "MaxEntries (fst (Remove c k)) = MaxEntries c" "OnEvicted (fst (Remove c k)) = OnEvicted c"
  "MaxEntries (fst (RemoveOldest c)) = MaxEntries c" "OnEvicted (fst (RemoveOldest c)) = OnEvicted c"
  by (simp_all add: Add_def Get_def Remove_def RemoveOldest_def removeElement_def Let_def
      split: option.split)

lemma NewCache_ok: "lru_inv (NewCache m)" "lru_abs (NewCache m) = []"
  "MaxEntries (NewCache m) = m" "\<not> OnEvicted (NewCache m)"
  by (simp_all add: NewCache_def lru_inv_def lru_shape_def lru_abs_def indexed_def)

interpretation lru_code: lru lru_inv lru_abs MaxEntries OnEvicted NewCache Add Get Remove
  RemoveOldest GetOldest Len
proof
  fix c :: "('k, 'v) Cache" and k v
  assume inv: "lru_inv c"
  then have shape: "lru_shape c" and
    bound: "MaxEntries c \<noteq> 0 \<Longrightarrow> int (length (lru_abs c)) \<le> max 0 (MaxEntries c)"
    by (auto simp: lru_inv_def)
  note keys = lru_abs_keys[OF shape]
  show "gm_ok (lru_abs c)" by (rule keys)
  show "lru_inv (fst (Add c k v))"
    using Add_ok[OF shape, of k v] length_mru_add[OF keys bound] by (simp add: lru_inv_def)
  show "lru_inv (fst (Get c k))"
    using Get_ok[OF shape, of k] length_mru_touch[OF keys] bound
    by (simp add: lru_inv_def flags_keep)
  show "lru_inv (fst (Remove c k))"
    using Remove_ok[OF shape, of k] bound length_delete_le[of k "lru_abs c"]
    by (auto simp: lru_inv_def)
  show "lru_inv (fst (RemoveOldest c))"
    using RemoveOldest_ok[OF shape] bound by (auto simp: lru_inv_def)
  show "Len c = int (length (lru_abs c))"
    and "GetOldest c = (if lru_abs c = [] then None else Some (snd (last (lru_abs c))))"
    using shape by (auto simp: Len_def GetOldest_def ll_Back_def last_map elim!: lru_cases)
qed (use NewCache_ok in \<open>auto simp: flags_keep lru_inv_def Add_ok Get_ok Remove_ok RemoveOldest_ok\<close>)

lemma Clear_ok:
  assumes "lru_inv c"
  shows "lru_inv (fst (Clear ord c))" and "lru_abs (fst (Clear ord c)) = []"
    and "set ord = fst ` set (lru_abs c) \<Longrightarrow> OnEvicted c \<Longrightarrow>
      set (snd (Clear ord c)) = set (lru_abs c)"
proof -
  show "lru_inv (fst (Clear ord c))" and "lru_abs (fst (Clear ord c)) = []"
    by (simp_all add: Clear_def lru_inv_def lru_shape_def lru_abs_def)
  have shape: "lru_shape c" using assms by (simp add: lru_inv_def)
  assume ord: "set ord = fst ` set (lru_abs c)" and cb: "OnEvicted c"
  from shape show "set (snd (Clear ord c)) = set (lru_abs c)"
  proof (cases rule: lru_cases)
    case (live l m)
    have "map_of m (fst (entry_at c e)) = Some e" if "e \<in> set l" for e
      using live(3) that by (simp add: indexed_def)
    then show ?thesis using live ord cb by (auto simp: Clear_def image_image)
  qed (use ord cb in \<open>simp add: Clear_def\<close>)
qed

section \<open>Sequences of calls\<close>

datatype ('k, 'v) lru_op = OpAdd 'k 'v | OpGet 'k | OpRemove 'k | OpRemoveOldest | OpGetOldest | OpLen

datatype ('k, 'v) lru_res = Done | Found "'v option" | Count int

fun lru_call :: "('k, 'v) lru_op \<Rightarrow> ('k, 'v) Cache \<Rightarrow> ('k, 'v) Cache \<times> ('k, 'v) lru_res" where
  "lru_call (OpAdd k v) c = (fst (Add c k v), Done)"
| "lru_call (OpGet k) c = (fst (Get c k), Found (snd (Get c k)))"
| "lru_call (OpRemove k) c = (fst (Remove c k), Done)"
| "lru_call OpRemoveOldest c = (fst (RemoveOldest c), Done)"
| "lru_call OpGetOldest c = (c, Found (GetOldest c))"
| "lru_call OpLen c = (c, Count (Len c))"

fun mru_call :: "int \<Rightarrow> ('k, 'v) lru_op \<Rightarrow> ('k \<times> 'v) list \<Rightarrow> ('k \<times> 'v) list \<times> ('k, 'v) lru_res" where
  "mru_call mx (OpAdd k v) xs = (fst (mru_add mx k v xs), Done)"
| "mru_call mx (OpGet k) xs = (mru_touch k xs, Found (map_of xs k))"
| "mru_call mx (OpRemove k) xs = (AList.delete k xs, Done)"
| "mru_call mx OpRemoveOldest xs = (butlast xs, Done)"
| "mru_call mx OpGetOldest xs = (xs, Found (if xs = [] then None else Some (snd (last xs))))"
| "mru_call mx OpLen xs = (xs, Count (int (length xs)))"

fun calls :: "('o \<Rightarrow> 's \<Rightarrow> 's \<times> 'r) \<Rightarrow> 'o list \<Rightarrow> 's \<Rightarrow> 's \<times> 'r list" where
  "calls f [] s = (s, [])"
| "calls f (x # xs) s = (let (s', r) = f x s; (s'', rs) = calls f xs s' in (s'', r # rs))"

lemma lru_call_refines:
  assumes "lru_inv c"
  shows "lru_inv (fst (lru_call opn c))"
    and "(lru_abs (fst (lru_call opn c)), snd (lru_call opn c)) = mru_call (MaxEntries c) opn (lru_abs c)"
  using assms by (cases opn; simp add: lru_code.lru_simps)+

lemma lru_call_max: "MaxEntries (fst (lru_call opn c)) = MaxEntries c"
  by (cases opn) (simp_all add: flags_keep)

lemma calls_max: "MaxEntries (fst (calls lru_call ops c)) = MaxEntries c"
proof (induction ops arbitrary: c)
  case (Cons opn ops)
  show ?case using Cons.IH[of "fst (lru_call opn c)"]
    by (simp add: split_beta Let_def lru_call_max)
qed simp

lemma calls_refine:
  assumes "lru_inv c"
  shows "lru_inv (fst (calls lru_call ops c)) \<and>
    calls (mru_call (MaxEntries c)) ops (lru_abs c) =
      (lru_abs (fst (calls lru_call ops c)), snd (calls lru_call ops c))"
  using assms
proof (induction ops arbitrary: c)
  case (Cons opn ops)
  obtain c' r where c': "lru_call opn c = (c', r)" by (cases "lru_call opn c")
  note step = lru_call_refines[OF Cons.prems, of opn]
  have "mru_call (MaxEntries c) opn (lru_abs c) = (lru_abs c', r)"
    using step(2) c' by simp
  with Cons.IH[of c'] step(1) c' lru_call_max[of opn c] show ?case by (auto simp: split_beta Let_def)
qed simp

text \<open>
  C11: any sequence of calls on a new cache returns exactly what the same calls return on a
  list of bindings kept most recently used first, and leaves the cache representing that
  list; in particular a limited cache never holds more than \<open>MaxEntries\<close> bindings.
\<close>

theorem lru_refines_mru_list:
  "let (c, rs) = calls lru_call ops (NewCache mx) in
     calls (mru_call mx) ops [] = (lru_abs c, rs) \<and> distinct (map fst (lru_abs c)) \<and>
     (mx > 0 \<longrightarrow> Len c \<le> mx)"
proof -
  obtain c rs where c: "calls lru_call ops (NewCache mx) = (c, rs)"
    by (cases "calls lru_call ops (NewCache mx)")
  have "lru_inv c" "calls (mru_call mx) ops [] = (lru_abs c, rs)"
    using calls_refine[OF NewCache_ok(1), of ops mx] c by (auto simp: NewCache_ok lru_code.new)
  moreover have "MaxEntries c = mx"
    using calls_max[of ops "NewCache mx"] c by (simp add: lru_code.new)
  ultimately show ?thesis
    using lru_code.keys[of c] lru_code.bound[of c] c by (auto simp: lru_code.len)
qed

theorem lru_refines_mru_list_witness:
  "let (c, rs) = calls lru_call [OpAdd ''a'' (1::nat), OpAdd ''b'' 2, OpGet ''a'', OpAdd ''c'' 3, OpGet ''b'']
       (NewCache 2) in
     rs = [Done, Done, Found (Some 1), Done, Found None] \<and> Len c \<le> 2"
proof -
  define ops where
    "ops = [OpAdd ''a'' (1::nat), OpAdd ''b'' 2, OpGet ''a'', OpAdd ''c'' 3, OpGet ''b'']"
  have "snd (calls (mru_call 2) ops []) = [Done, Done, Found (Some 1), Done, Found None]"
    unfolding ops_def by code_simp
  with lru_refines_mru_list[of ops 2] show ?thesis
    unfolding ops_def[symmetric] by (auto simp: split_beta Let_def)
qed

end
