(* ===== verification/Messages.thy ===== *)
theory Messages
  imports Prelude
begin

text \<open>
  The messages the components exchange (\<open>pb/protogo/dockervm_message.pb.go\<close> and
  \<open>messages/messages.go\<close>) and the small helpers on them of \<open>vm_mgr/utils/utils.go\<close>:
  contract keys, process names and the original/cross test of a transaction.

  A Go byte slice is \<open>bytes\<close>, where \<^term>\<open>None\<close> is the nil slice; a pointer field of a
  message is an option, where \<^term>\<open>None\<close> is nil.
\<close>

unbundle bit_operations_syntax

section \<open>Protocol messages\<close>

type_synonym bytes = "string option"

definition blen :: "bytes \<Rightarrow> nat" where
  "blen b = (case b of None \<Rightarrow> 0 | Some s \<Rightarrow> length s)"

lemma blen_simps [simp]: "blen None = 0" "blen (Some s) = length s"
  by (simp_all add: blen_def)

text \<open>\<open>m[k]\<close> on a map of byte slices: a missing key reads as nil.\<close>

definition bytes_at :: "(string, bytes) gomap \<Rightarrow> string \<Rightarrow> bytes" where
  "bytes_at m k = (case map_of m k of None \<Rightarrow> None | Some b \<Rightarrow> b)"

text \<open>\<open>string(b)\<close>: the nil slice converts to the empty string.\<close>

definition bytes_str :: "bytes \<Rightarrow> string" where
  "bytes_str b = (case b of None \<Rightarrow> [] | Some s \<Rightarrow> s)"

datatype DockerVMType =
    UNDEFINED | REGISTER | REGISTERED | PREPARE | READY | INIT | INVOKE
  | TX_REQUEST | TX_RESPONSE | GET_STATE_REQUEST | GET_STATE_RESPONSE
  | GET_BYTECODE_REQUEST | GET_BYTECODE_RESPONSE
  | CALL_CONTRACT_REQUEST | CALL_CONTRACT_RESPONSE | COMPLETED | ERROR
  | CREATE_KV_ITERATOR_REQUEST | CREATE_KV_ITERATOR_RESPONSE
  | CONSUME_KV_ITERATOR_REQUEST | CONSUME_KV_ITERATOR_RESPONSE
  | CREATE_KEY_HISTORY_ITER_REQUEST | CREATE_KEY_HISTORY_TER_RESPONSE
  | CONSUME_KEY_HISTORY_ITER_REQUEST | CONSUME_KEY_HISTORY_ITER_RESPONSE
  | GET_SENDER_ADDRESS_REQUEST | GET_SENDER_ADDRESS_RESPONSE
  | GET_BATCH_STATE_REQUEST | GET_BATCH_STATE_RESPONSE

datatype StepType =
    RUNTIME_PREPARE_TX_REQUEST | RUNTIME_GRPC_SEND_TX_REQUEST
  | ENGINE_GRPC_RECEIVE_TX_REQUEST | ENGINE_SCHEDULER_RECEIVE_TX_REQUEST
  | ENGINE_SCHEDULER_SEND_TX_REQUEST | ENGINE_GROUP_RECEIVE_TX_REQUEST
  | ENGINE_GROUP_SEND_TX_REQUEST | ENGINE_PROCESS_RECEIVE_TX_REQUEST
  | ENGINE_PROCESS_SEND_TX_REQUEST | ENGINE_PROCESS_RECEIVE_TX_RESPONSE
  | SANDBOX_GRPC_RECEIVE_TX_REQUEST | SANDBOX_GRPC_SEND_TX_REQUEST
  | SANDBOX_CHAN_SEND_TX_REQUEST | SANDBOX_HANDLER_RECEIVE_TX_REQUEST
  | SANDBOX_HANDLER_EXECUTE | SANDBOX_SEND_CHAIN_RESP
  | SANDBOX_GRPC_SEND_CHAIN_RESP | SANDBOX_SEND_ENGINE_RESP
  | RUNTIME_GRPC_RECEIVE_TX_RESPONSE | RUNTIME_GET_NOTIFY_TX_RESPONSE
  | RUNTIME_HANDLER_RECEIVE_TX_RESPONSE | RUNTIME_HANDLE_TX_RESPONSE

datatype DockerVMCode = OK | FAIL

record SysCallMessage =
  sys_Code :: DockerVMCode
  sys_Message :: string
  sys_Payload :: "(string, bytes) gomap"

record CrossContext =
  CurrentDepth :: "32 word"
  ProcessName :: string
  CrossInfo :: "64 word"

record StepDuration =
  step_Type :: StepType
  step_StartTime :: int
  step_StepDuration :: int
  step_UntilDuration :: int
  step_Msg :: string

record TxContext =
  ctx_WriteMap :: "(string, bytes) gomap"
  ctx_ReadMap :: "(string, bytes) gomap"

record TxRequest =
  req_ContractName :: string
  req_ContractVersion :: string
  req_Method :: string
  req_Parameters :: "(string, bytes) gomap"
  req_TxContext :: "TxContext option"
  req_ChainId :: string

record DockerContractEvent =
  ev_Topic :: string
  ev_ContractName :: string
  ev_Data :: "string list"

record TxResponse =
  resp_TxId :: string
  resp_Code :: DockerVMCode
  resp_Result :: bytes
  resp_Message :: string
  resp_WriteMap :: "(string, bytes) gomap"
  resp_ReadMap :: "(string, bytes) gomap"
  resp_Events :: "DockerContractEvent list"
  resp_ContractName :: string
  resp_ContractVersion :: string
  resp_ChainId :: string

record DockerVMMessage =
  m_TxId :: string
  m_Type :: DockerVMType
  m_CrossContext :: "CrossContext option"
  m_SysCallMessage :: "SysCallMessage option"
  m_Request :: "TxRequest option"
  m_Response :: "TxResponse option"
  m_ChainId :: string
  m_StepDurations :: "StepDuration list"

text \<open>The zero values of the message structs, from which the code builds its messages.\<close>

definition zero_msg :: DockerVMMessage where
  "zero_msg = \<lparr>m_TxId = [], m_Type = UNDEFINED, m_CrossContext = None,
     m_SysCallMessage = None, m_Request = None, m_Response = None, m_ChainId = [],
     m_StepDurations = []\<rparr>"

definition zero_req :: TxRequest where
  "zero_req = \<lparr>req_ContractName = [], req_ContractVersion = [], req_Method = [],
     req_Parameters = [], req_TxContext = None, req_ChainId = []\<rparr>"

definition zero_resp :: TxResponse where
  "zero_resp = \<lparr>resp_TxId = [], resp_Code = OK, resp_Result = None, resp_Message = [],
     resp_WriteMap = [], resp_ReadMap = [], resp_Events = [], resp_ContractName = [],
     resp_ContractVersion = [], resp_ChainId = []\<rparr>"

section \<open>Messages between the engine's components\<close>

record GetProcessReqMsg =
  gpr_ChainID :: string
  gpr_ContractName :: string
  gpr_ContractVersion :: string
  gpr_ProcessNum :: int

record GetProcessRespMsg =
  gps_IsOrig :: bool
  gps_ProcessNum :: int

record SandboxExitMsg =
  sem_ChainID :: string
  sem_ContractName :: string
  sem_ContractVersion :: string
  sem_ProcessName :: string
  sem_Err :: error

record RequestGroupKey =
  rgk_ChainID :: string
  rgk_ContractName :: string
  rgk_ContractVersion :: string

record BadContractResp =
  bcr_Tx :: DockerVMMessage
  bcr_IsOrig :: bool
  bcr_ContractFileVersion :: int

record TxPayload =
  tp_Tx :: DockerVMMessage
  tp_StartTime :: int

section \<open>Keys and names\<close>

definition ConstructContractKey :: "string list \<Rightarrow> string" where
  "ConstructContractKey names = go_join ''#'' names"

abbreviation contract_key :: "string \<Rightarrow> string \<Rightarrow> string \<Rightarrow> string" where
  "contract_key chainID contractName contractVersion \<equiv>
     ConstructContractKey [chainID, contractName, contractVersion]"

definition constructProcessName :: "string list \<Rightarrow> string" where
  "constructProcessName names = go_join ''#'' names"

definition ConstructProcessName ::
  "string \<Rightarrow> string \<Rightarrow> string \<Rightarrow> int \<Rightarrow> 64 word \<Rightarrow> bool \<Rightarrow> string" where
  "ConstructProcessName chainID contractName contractVersion localIndex overallIndex isOrig =
     (let typeStr = (if \<not> isOrig then ''c'' else ''o'')
      in constructProcessName [chainID, typeStr, contractName, contractVersion,
           Itoa localIndex, FormatUint overallIndex])"

text \<open>
  The keys of distinct contracts are distinct as long as no component holds the separator,
  and a process name determines the counter it was made from whatever the components are.
\<close>

lemma split_contract_key:
  assumes "CHR ''#'' \<notin> set a" "CHR ''#'' \<notin> set b" "CHR ''#'' \<notin> set c"
  shows "go_split CHR ''#'' (contract_key a b c) = [a, b, c]"
proof -
  have "\<forall>s\<in>set [a, b, c]. CHR ''#'' \<notin> set s" using assms by simp
  from go_split_join[OF _ this] show ?thesis
    unfolding ConstructContractKey_def by blast
qed

lemma contract_key_inject:
  assumes "contract_key a b c = contract_key a' b' c'"
    and "CHR ''#'' \<notin> set a" "CHR ''#'' \<notin> set b" "CHR ''#'' \<notin> set c"
    and "CHR ''#'' \<notin> set a'" "CHR ''#'' \<notin> set b'" "CHR ''#'' \<notin> set c'"
  shows "a = a' \<and> b = b' \<and> c = c'"
proof -
  have "[a, b, c] = [a', b', c']"
    using split_contract_key[of a b c] split_contract_key[of a' b' c'] assms by metis
  then show ?thesis by simp
qed

lemma process_name_form:
  "ConstructProcessName a b c i v p =
     go_join ''#'' [a, if p then ''o'' else ''c'', b, c, Itoa i] @ CHR ''#'' # FormatUint v"
  by (simp add: ConstructProcessName_def constructProcessName_def)

lemma process_name_index:
  assumes "ConstructProcessName a b c i v p = ConstructProcessName a' b' c' i' w p'"
  shows "v = w"
proof -
  have "FormatUint v = FormatUint w"
    by (rule last_segment_eq[OF _ _ assms[unfolded process_name_form]])
      (simp_all add: FormatUint_def hash_notin_show_nat)
  then show ?thesis by simp
qed

section \<open>Original and cross transactions\<close>

text \<open>
  Constants of the chain's own packages (\<open>protocol\<close>, \<open>pb-go\<close>), which the repository only
  imports: parameters of the model.
\<close>

record chain_consts =
  CallContractDepth :: "32 word"
  RuntimeType_GO :: nat
  GasLimit :: "64 word"

definition hasUsed :: "chain_consts \<Rightarrow> 64 word \<Rightarrow> bool" where
  "hasUsed K ctxBitmap =
     (let typeBit = (push_bit (59 - RuntimeType_GO K) 1 :: 64 word)
      in (typeBit AND ctxBitmap) > 0)"

definition IsOrig :: "chain_consts \<Rightarrow> DockerVMMessage \<Rightarrow> bool go" where
  "IsOrig K tx = (case m_CrossContext tx of
       None \<Rightarrow> Panic
     | Some cc \<Rightarrow> Val (CurrentDepth cc = 0 \<or> \<not> hasUsed K (CrossInfo cc)))"

definition utils_Min :: "int \<Rightarrow> int \<Rightarrow> int" where
  "utils_Min a b = (if a < b then a else b)"

lemma utils_Min_eq [simp]: "utils_Min a b = min a b"
  by (simp add: utils_Min_def)

lemma hasUsed_bit: "hasUsed K w \<longleftrightarrow> bit w (59 - RuntimeType_GO K)"
  unfolding hasUsed_def Let_def bit_iff_and_push_bit_not_eq_0 word_gt_0
  by (metis and.commute)

end
