(* ===== verification/Gas.thy ===== *)
theory Gas
  imports Complex_Main Messages
begin

text \<open>
  The gas of a transaction, \<open>gas/gas.go\<close>, \<open>gas/gas2312.go\<close> and \<open>gas/gas_old.go\<close>: what every
  operation of a contract adds to the gas used, on uint64 with wrap-around, and the limit.

  The chain's own packages are parameters: the gas limit and the price multiplication of
  \<open>utils/gas\<close>, the prefix of binaries in the state, and the JSON form of the event type of
  \<open>pb-go\<close>.  A price, a float32, is a rational number.
\<close>

section \<open>Parameters\<close>

record ContractEvent =
  ce_Topic :: string
  ce_TxId :: string
  ce_ContractName :: string
  ce_EventData :: "string list"

record GasConfig =
  GasPriceForInvoke :: rat

record gas_lib =
  gl_GasLimit :: "64 word"
  MultiplyGasPrice :: "int \<Rightarrow> rat \<Rightarrow> 64 word res"
  PrefixContractByteCode :: string
  MarshalEvent :: "ContractEvent \<Rightarrow> string res"

type_synonym gas_res = "64 word \<times> error option"

definition uint64 :: "nat \<Rightarrow> 64 word" where
  "uint64 n = word_of_nat n"

definition CheckGasLimit :: "gas_lib \<Rightarrow> 64 word \<Rightarrow> bool" where
  "CheckGasLimit L gasUsed \<longleftrightarrow> gasUsed > gl_GasLimit L"

section \<open>Before block version 2312\<close>

definition GetStateGasPrice :: "64 word" where "GetStateGasPrice = 1"
definition GetBatchStateGasPrice :: "64 word" where "GetBatchStateGasPrice = 1"
definition PutStateGasPrice :: "64 word" where "PutStateGasPrice = 10"
definition EmitEventGasPrice :: "64 word" where "EmitEventGasPrice = 5"
definition KvIteratorCreateGasPrice :: "64 word" where "KvIteratorCreateGasPrice = 1"
definition KvIteratorNextGasPrice :: "64 word" where "KvIteratorNextGasPrice = 1"
definition KeyHistoryIterCreateGasPrice :: "64 word" where "KeyHistoryIterCreateGasPrice = 1"
definition KeyHistoryIterHasNextGasPrice :: "64 word" where "KeyHistoryIterHasNextGasPrice = 1"
definition GetSenderAddressGasPrice :: "64 word" where "GetSenderAddressGasPrice = 1"
definition defaultInvokeBaseGas :: "64 word" where "defaultInvokeBaseGas = 10000"
definition initFuncGas :: "64 word" where "initFuncGas = 1250"
definition initContract :: string where "initContract = ''init_contract''"
definition upgradeContract :: string where "upgradeContract = ''upgrade''"

definition GetStateGasUsedLt2312 :: "gas_lib \<Rightarrow> 64 word \<Rightarrow> bytes \<Rightarrow> gas_res" where
  "GetStateGasUsedLt2312 L gasUsed v =
     (let gasUsed = gasUsed + uint64 (blen v) * GetStateGasPrice
      in if CheckGasLimit L gasUsed then (0, Some ''over gas limited '') else (gasUsed, None))"

definition GetBatchStateGasUsedLt2312 :: "gas_lib \<Rightarrow> 64 word \<Rightarrow> bytes \<Rightarrow> gas_res" where
  "GetBatchStateGasUsedLt2312 L gasUsed payload =
     (let gasUsed = gasUsed + uint64 (blen payload) * GetBatchStateGasPrice
      in if CheckGasLimit L gasUsed then (0, Some ''over gas limited '') else (gasUsed, None))"

definition PutStateGasUsedLt2312 ::
  "gas_lib \<Rightarrow> 64 word \<Rightarrow> string \<Rightarrow> string \<Rightarrow> string \<Rightarrow> bytes \<Rightarrow> gas_res" where
  "PutStateGasUsedLt2312 L gasUsed contractName key field v =
     (let gasUsed = gasUsed + (uint64 (blen v) + uint64 (length (contractName @ key @ field))) * PutStateGasPrice
      in if CheckGasLimit L gasUsed then (0, Some ''over gas limited '') else (gasUsed, None))"

definition EmitEventGasUsedLt2312 :: "gas_lib \<Rightarrow> 64 word \<Rightarrow> ContractEvent \<Rightarrow> gas_res" where
  "EmitEventGasUsedLt2312 L gasUsed contractEvent = (case MarshalEvent L contractEvent of
       Inl err \<Rightarrow> (0, Some err)
     | Inr contractEventBytes \<Rightarrow>
         (let gasUsed = gasUsed + uint64 (length contractEventBytes) * EmitEventGasPrice
          in if CheckGasLimit L gasUsed then (0, Some ''over gas limited '') else (gasUsed, None)))"

definition getInitFuncGasUsed :: "64 word \<Rightarrow> 64 word \<Rightarrow> 64 word" where
  "getInitFuncGasUsed gasUsed configDefaultGas =
     (if configDefaultGas = 0 then gasUsed + defaultInvokeBaseGas + initFuncGas
      else gasUsed + configDefaultGas + initFuncGas)"

definition InitFuncGasUsedLt2312 :: "gas_lib \<Rightarrow> 64 word \<Rightarrow> 64 word \<Rightarrow> gas_res" where
  "InitFuncGasUsedLt2312 L gasUsed configDefaultGas =
     (let gasUsed = getInitFuncGasUsed gasUsed configDefaultGas
      in if CheckGasLimit L gasUsed then (0, Some ''over gas limited '') else (gasUsed, None))"

definition ContractGasUsed :: "gas_lib \<Rightarrow> 64 word \<Rightarrow> string \<Rightarrow> string \<Rightarrow> bytes \<Rightarrow> gas_res" where
  "ContractGasUsed L gasUsed meth contractName byteCode =
     (let gasUsed1 = (if meth = initContract
            then gasUsed + (uint64 (length (contractName @ PrefixContractByteCode L)) + uint64 (blen byteCode)) * PutStateGasPrice
            else gasUsed);
          gasUsed2 = (if meth = upgradeContract
            then gasUsed1 + uint64 (blen byteCode) * PutStateGasPrice else gasUsed1)
      in if CheckGasLimit L gasUsed2 then (0, Some ''over gas limited '') else (gasUsed2, None))"

definition CreateKeyHistoryIterGasUsedLt2312 :: "gas_lib \<Rightarrow> 64 word \<Rightarrow> gas_res" where
  "CreateKeyHistoryIterGasUsedLt2312 L gasUsed =
     (let gasUsed = gasUsed + 10 * KeyHistoryIterCreateGasPrice
      in if CheckGasLimit L gasUsed then (0, Some ''over gas limited'') else (gasUsed, None))"

definition ConsumeKeyHistoryIterGasUsedLt2312 :: "gas_lib \<Rightarrow> 64 word \<Rightarrow> gas_res" where
  "ConsumeKeyHistoryIterGasUsedLt2312 L gasUsed =
     (let gasUsed = gasUsed + 10 * KeyHistoryIterHasNextGasPrice
      in if CheckGasLimit L gasUsed then (0, Some ''over gas limited'') else (gasUsed, None))"

definition CreateKvIteratorGasUsedLt2312 :: "gas_lib \<Rightarrow> 64 word \<Rightarrow> gas_res" where
  "CreateKvIteratorGasUsedLt2312 L gasUsed =
     (let gasUsed = gasUsed + 10 * KvIteratorCreateGasPrice
      in if CheckGasLimit L gasUsed then (0, Some ''over gas limited'') else (gasUsed, None))"

definition ConsumeKvIteratorGasUsedLt2312 :: "gas_lib \<Rightarrow> 64 word \<Rightarrow> gas_res" where
  "ConsumeKvIteratorGasUsedLt2312 L gasUsed =
     (let gasUsed = gasUsed + 10 * KvIteratorNextGasPrice
      in if CheckGasLimit L gasUsed then (0, Some ''over gas limited'') else (gasUsed, None))"

section \<open>From block version 2312 on\<close>

definition blockVersion2312 :: "32 word" where "blockVersion2312 = 2030102"

definition KeyHistoryIterKey :: string where "KeyHistoryIterKey = ''KEY_HISTORY_ITERATOR_KEY''"
definition KeyHistoryIterField :: string where "KeyHistoryIterField = ''KEY_HISTORY_ITERATOR_FIELD''"
definition KeyIterStartKey :: string where "KeyIterStartKey = ''KEY_ITERATOR_START_KEY''"
definition KeyIterStartField :: string where "KeyIterStartField = ''KEY_ITERATOR_START_FIELD''"
definition KeyIterLimitKey :: string where "KeyIterLimitKey = ''KEY_ITERATOR_LIMIT_KEY''"
definition KeyIterLimitField :: string where "KeyIterLimitField = ''KEY_ITERATOR_LIMIT_FIELD''"

definition gas_price :: "GasConfig option \<Rightarrow> rat" where
  "gas_price gasConfig = (case gasConfig of None \<Rightarrow> 0 | Some c \<Rightarrow> GasPriceForInvoke c)"

definition PutStateGasUsed2312 ::
  "GasConfig option \<Rightarrow> 64 word \<Rightarrow> string \<Rightarrow> string \<Rightarrow> string \<Rightarrow> bytes \<Rightarrow> gas_res" where
  "PutStateGasUsed2312 gasConfig gasUsed contractName key field v = (gasUsed, None)"

definition GetStateGasUsed2312 ::
  "GasConfig option \<Rightarrow> 64 word \<Rightarrow> string \<Rightarrow> string \<Rightarrow> string \<Rightarrow> bytes \<Rightarrow> gas_res" where
  "GetStateGasUsed2312 gasConfig gasUsed contractName key field v = (gasUsed, None)"

definition GetBatchStateGasUsed2312 :: "GasConfig option \<Rightarrow> 64 word \<Rightarrow> bytes \<Rightarrow> gas_res" where
  "GetBatchStateGasUsed2312 gasConfig gasUsed payload = (gasUsed, None)"

definition EmitEventGasUsed2312 :: "GasConfig option \<Rightarrow> 64 word \<Rightarrow> ContractEvent \<Rightarrow> gas_res" where
  "EmitEventGasUsed2312 gasConfig gasUsed contractEvent = (gasUsed, None)"

definition CreateKeyHistoryIterGasUsed2312 ::
  "gas_lib \<Rightarrow> GasConfig option \<Rightarrow> (string, bytes) gomap \<Rightarrow> 64 word \<Rightarrow> gas_res" where
  "CreateKeyHistoryIterGasUsed2312 L gasConfig params gasUsed =
     (let dataSize = int (blen (bytes_at params KeyHistoryIterKey)) + int (blen (bytes_at params KeyHistoryIterField))
      in case MultiplyGasPrice L dataSize (gas_price gasConfig) of
           Inl err \<Rightarrow> (0, Some err)
         | Inr gas \<Rightarrow> (let gasUsed = gasUsed + gas
             in if CheckGasLimit L gasUsed then (0, Some ''over gas limited'') else (gasUsed, None)))"

definition CreateKvIteratorGasUsed2312 ::
  "gas_lib \<Rightarrow> GasConfig option \<Rightarrow> (string, bytes) gomap \<Rightarrow> 64 word \<Rightarrow> gas_res" where
  "CreateKvIteratorGasUsed2312 L gasConfig params gasUsed =
     (let dataSize = int (blen (bytes_at params KeyIterStartKey)) + int (blen (bytes_at params KeyIterStartField)) +
            int (blen (bytes_at params KeyIterLimitKey)) + int (blen (bytes_at params KeyIterLimitField))
      in case MultiplyGasPrice L dataSize (gas_price gasConfig) of
           Inl err \<Rightarrow> (0, Some err)
         | Inr gas \<Rightarrow> (let gasUsed = gasUsed + gas
             in if CheckGasLimit L gasUsed then (0, Some ''over gas limited'') else (gasUsed, None)))"

definition ConsumeKeyHistoryIterGasUsed2312 :: "GasConfig option \<Rightarrow> 64 word \<Rightarrow> gas_res" where
  "ConsumeKeyHistoryIterGasUsed2312 gasConfig gasUsed = (gasUsed, None)"

definition ConsumeKvIteratorGasUsed2312 :: "GasConfig option \<Rightarrow> 64 word \<Rightarrow> gas_res" where
  "ConsumeKvIteratorGasUsed2312 gasConfig gasUsed = (gasUsed, None)"

definition ConsumeKvIteratorNextGasUsed2312 ::
  "GasConfig option \<Rightarrow> 64 word \<Rightarrow> string \<Rightarrow> string \<Rightarrow> bytes \<Rightarrow> gas_res" where
  "ConsumeKvIteratorNextGasUsed2312 gasConfig gasUsed key field v = (gasUsed, None)"

definition ConsumeKeyHistoryIterNextGasUsed2312 :: "GasConfig option \<Rightarrow> 64 word \<Rightarrow> bytes \<Rightarrow> gas_res" where
  "ConsumeKeyHistoryIterNextGasUsed2312 gasConfig gasUsed v = (gasUsed, None)"

text \<open>The loop over the parameters, which skips those whose name starts and ends with \<open>__\<close>.\<close>

definition HasPrefix :: "string \<Rightarrow> string \<Rightarrow> bool" where
  "HasPrefix s p \<longleftrightarrow> take (length p) s = p"

definition HasSuffix :: "string \<Rightarrow> string \<Rightarrow> bool" where
  "HasSuffix s p \<longleftrightarrow> length p \<le> length s \<and> drop (length s - length p) s = p"

fun params_size :: "(string, bytes) gomap \<Rightarrow> int" where
  "params_size [] = 0"
| "params_size ((key, val) # ps) =
     (if HasPrefix key ''__'' \<and> HasSuffix key ''__'' then 0 else int (length key) + int (blen val)) + params_size ps"

definition CallContractGasUsed2312 ::
  "gas_lib \<Rightarrow> GasConfig option \<Rightarrow> 64 word \<Rightarrow> string \<Rightarrow> string \<Rightarrow> (string, bytes) gomap \<Rightarrow> gas_res" where
  "CallContractGasUsed2312 L gasConfig gasUsed contractName contractMethod parameters =
     (let dataSize = int (length contractName) + int (length contractMethod) + params_size parameters
      in case MultiplyGasPrice L dataSize (gas_price gasConfig) of
           Inl err \<Rightarrow> (0, Some err)
         | Inr gas \<Rightarrow> (let gasUsed = gasUsed + gas
             in if CheckGasLimit L gasUsed then (0, Some ''over gas limited'') else (gasUsed, None)))"

section \<open>By block version\<close>

definition GetSenderAddressGasUsed :: "gas_lib \<Rightarrow> 64 word \<Rightarrow> gas_res" where
  "GetSenderAddressGasUsed L gasUsed =
     (let gasUsed = gasUsed + 10 * GetSenderAddressGasPrice
      in if CheckGasLimit L gasUsed then (0, Some ''over gas limited'') else (gasUsed, None))"

definition PutStateGasUsed ::
  "gas_lib \<Rightarrow> 32 word \<Rightarrow> GasConfig option \<Rightarrow> 64 word \<Rightarrow> string \<Rightarrow> string \<Rightarrow> string \<Rightarrow> bytes \<Rightarrow> gas_res" where
  "PutStateGasUsed L blockVersion gasConfig gasUsed contractName key field v =
     (if blockVersion < blockVersion2312 then PutStateGasUsedLt2312 L gasUsed contractName key field v
      else PutStateGasUsed2312 gasConfig gasUsed contractName key field v)"

definition GetStateGasUsed ::
  "gas_lib \<Rightarrow> 32 word \<Rightarrow> GasConfig option \<Rightarrow> 64 word \<Rightarrow> string \<Rightarrow> string \<Rightarrow> string \<Rightarrow> bytes \<Rightarrow> gas_res" where
  "GetStateGasUsed L blockVersion gasConfig gasUsed contractName key field v =
     (if blockVersion < blockVersion2312 then GetStateGasUsedLt2312 L gasUsed v
      else GetStateGasUsed2312 gasConfig gasUsed contractName key field v)"

definition GetBatchStateGasUsed ::
  "gas_lib \<Rightarrow> 32 word \<Rightarrow> GasConfig option \<Rightarrow> 64 word \<Rightarrow> bytes \<Rightarrow> gas_res" where
  "GetBatchStateGasUsed L blockVersion gasConfig gasUsed payload =
     (if blockVersion < blockVersion2312 then GetBatchStateGasUsedLt2312 L gasUsed payload
      else GetBatchStateGasUsed2312 gasConfig gasUsed payload)"

definition EmitEventGasUsed ::
  "gas_lib \<Rightarrow> 32 word \<Rightarrow> GasConfig option \<Rightarrow> 64 word \<Rightarrow> ContractEvent \<Rightarrow> gas_res" where
  "EmitEventGasUsed L blockVersion gasConfig gasUsed contractEvent =
     (if blockVersion < blockVersion2312 then EmitEventGasUsedLt2312 L gasUsed contractEvent
      else EmitEventGasUsed2312 gasConfig gasUsed contractEvent)"

definition CreateKeyHistoryIterGasUsed ::
  "gas_lib \<Rightarrow> 32 word \<Rightarrow> GasConfig option \<Rightarrow> (string, bytes) gomap \<Rightarrow> 64 word \<Rightarrow> gas_res" where
  "CreateKeyHistoryIterGasUsed L blockVersion gasConfig params gasUsed =
     (if blockVersion < blockVersion2312 then CreateKeyHistoryIterGasUsedLt2312 L gasUsed
      else CreateKeyHistoryIterGasUsed2312 L gasConfig params gasUsed)"

definition ConsumeKeyHistoryIterGasUsed :: "gas_lib \<Rightarrow> 32 word \<Rightarrow> GasConfig option \<Rightarrow> 64 word \<Rightarrow> gas_res" where
  "ConsumeKeyHistoryIterGasUsed L blockVersion gasConfig gasUsed =
     (if blockVersion < blockVersion2312 then ConsumeKeyHistoryIterGasUsedLt2312 L gasUsed
      else ConsumeKeyHistoryIterGasUsed2312 gasConfig gasUsed)"

definition CreateKvIteratorGasUsed ::
  "gas_lib \<Rightarrow> 32 word \<Rightarrow> GasConfig option \<Rightarrow> (string, bytes) gomap \<Rightarrow> 64 word \<Rightarrow> gas_res" where
  "CreateKvIteratorGasUsed L blockVersion gasConfig params gasUsed =
     (if blockVersion < blockVersion2312 then CreateKvIteratorGasUsedLt2312 L gasUsed
      else CreateKvIteratorGasUsed2312 L gasConfig params gasUsed)"

definition ConsumeKvIteratorGasUsed :: "gas_lib \<Rightarrow> 32 word \<Rightarrow> GasConfig option \<Rightarrow> 64 word \<Rightarrow> gas_res" where
  "ConsumeKvIteratorGasUsed L blockVersion gasConfig gasUsed =
     (if blockVersion < blockVersion2312 then ConsumeKvIteratorGasUsedLt2312 L gasUsed
      else ConsumeKvIteratorGasUsed2312 gasConfig gasUsed)"

definition CallContractGasUsed ::
  "gas_lib \<Rightarrow> 32 word \<Rightarrow> GasConfig option \<Rightarrow> 64 word \<Rightarrow> string \<Rightarrow> string \<Rightarrow> (string, bytes) gomap \<Rightarrow> gas_res" where
  "CallContractGasUsed L blockVersion gasConfig gasUsed contractName contractMethod parameters =
     (if blockVersion < blockVersion2312 then (gasUsed, None)
      else CallContractGasUsed2312 L gasConfig gasUsed contractName contractMethod parameters)"

section \<open>The charge of an operation\<close>

text \<open>
  The operations of a transaction with what they are charged for, and a reference: the charge as
  a natural number, added without wrap-around.  An operation that is not charged at a block
  version is not checked against the limit either.
\<close>

datatype gas_op =
    OpPut string string string bytes
  | OpGet string string string bytes
  | OpBatch bytes
  | OpEvent ContractEvent
  | OpHistoryCreate "(string, bytes) gomap"
  | OpHistoryConsume
  | OpKvCreate "(string, bytes) gomap"
  | OpKvConsume
  | OpCall string string "(string, bytes) gomap"
  | OpSender
  | OpInit "64 word"
  | OpContract string string bytes

fun gas_step :: "gas_lib \<Rightarrow> 32 word \<Rightarrow> GasConfig option \<Rightarrow> gas_op \<Rightarrow> 64 word \<Rightarrow> gas_res" where
  "gas_step L bv c (OpPut n k f v) g = PutStateGasUsed L bv c g n k f v"
| "gas_step L bv c (OpGet n k f v) g = GetStateGasUsed L bv c g n k f v"
| "gas_step L bv c (OpBatch p) g = GetBatchStateGasUsed L bv c g p"
| "gas_step L bv c (OpEvent ev) g = EmitEventGasUsed L bv c g ev"
| "gas_step L bv c (OpHistoryCreate ps) g = CreateKeyHistoryIterGasUsed L bv c ps g"
| "gas_step L bv c OpHistoryConsume g = ConsumeKeyHistoryIterGasUsed L bv c g"
| "gas_step L bv c (OpKvCreate ps) g = CreateKvIteratorGasUsed L bv c ps g"
| "gas_step L bv c OpKvConsume g = ConsumeKvIteratorGasUsed L bv c g"
| "gas_step L bv c (OpCall n m ps) g = CallContractGasUsed L bv c g n m ps"
| "gas_step L bv c OpSender g = GetSenderAddressGasUsed L g"
| "gas_step L bv c (OpInit d) g = InitFuncGasUsedLt2312 L g d"
| "gas_step L bv c (OpContract m n code) g = ContractGasUsed L g m n code"

datatype charge = Free | Cost nat | Failed

fun op_charge :: "gas_lib \<Rightarrow> 32 word \<Rightarrow> GasConfig option \<Rightarrow> gas_op \<Rightarrow> charge" where
  "op_charge L bv c (OpPut n k f v) =
     (if bv < blockVersion2312 then Cost (10 * (blen v + length n + length k + length f)) else Free)"
| "op_charge L bv c (OpGet n k f v) = (if bv < blockVersion2312 then Cost (blen v) else Free)"
| "op_charge L bv c (OpBatch p) = (if bv < blockVersion2312 then Cost (blen p) else Free)"
| "op_charge L bv c (OpEvent ev) = (if bv < blockVersion2312
     then (case MarshalEvent L ev of Inl e \<Rightarrow> Failed | Inr s \<Rightarrow> Cost (5 * length s)) else Free)"
| "op_charge L bv c (OpHistoryCreate ps) = (if bv < blockVersion2312 then Cost 10
     else (case MultiplyGasPrice L (int (blen (bytes_at ps KeyHistoryIterKey) + blen (bytes_at ps KeyHistoryIterField))) (gas_price c) of
        Inl e \<Rightarrow> Failed | Inr w \<Rightarrow> Cost (unat w)))"
| "op_charge L bv c OpHistoryConsume = (if bv < blockVersion2312 then Cost 10 else Free)"
| "op_charge L bv c (OpKvCreate ps) = (if bv < blockVersion2312 then Cost 10
     else (case MultiplyGasPrice L (int (blen (bytes_at ps KeyIterStartKey) + blen (bytes_at ps KeyIterStartField) +
          blen (bytes_at ps KeyIterLimitKey) + blen (bytes_at ps KeyIterLimitField))) (gas_price c) of
        Inl e \<Rightarrow> Failed | Inr w \<Rightarrow> Cost (unat w)))"
| "op_charge L bv c OpKvConsume = (if bv < blockVersion2312 then Cost 10 else Free)"
| "op_charge L bv c (OpCall n m ps) = (if bv < blockVersion2312 then Free
     else (case MultiplyGasPrice L (int (length n) + int (length m) + params_size ps) (gas_price c) of
        Inl e \<Rightarrow> Failed | Inr w \<Rightarrow> Cost (unat w)))"
| "op_charge L bv c OpSender = Cost 10"
| "op_charge L bv c (OpInit d) = Cost ((if d = 0 then 10000 else unat d) + 1250)"
| "op_charge L bv c (OpContract m n code) = Cost
     (if m = initContract then 10 * (length n + length (PrefixContractByteCode L) + blen code)
      else if m = upgradeContract then 10 * blen code else 0)"

definition charge_ok :: "gas_lib \<Rightarrow> 64 word \<Rightarrow> charge \<Rightarrow> bool" where
  "charge_ok L g ch \<longleftrightarrow> (case ch of Cost n \<Rightarrow> unat g + n < 2 ^ 64 | _ \<Rightarrow> True)"

text \<open>The reference: gas as a natural number, a failure as the absence of a result.\<close>

definition ref_charge :: "nat \<Rightarrow> charge \<Rightarrow> nat \<Rightarrow> nat option" where
  "ref_charge mx ch g = (case ch of
       Free \<Rightarrow> Some g
     | Cost n \<Rightarrow> if g + n \<le> mx then Some (g + n) else None
     | Failed \<Rightarrow> None)"

definition gas_abs :: "gas_res \<Rightarrow> nat option" where
  "gas_abs r = (case snd r of None \<Rightarrow> Some (unat (fst r)) | Some e \<Rightarrow> None)"

text \<open>One check of a sum against the limit, the step all charging functions share.\<close>

lemma limited_add:
  assumes "unat g + n < 2 ^ 64" "w = word_of_nat n"
  shows "gas_abs (if CheckGasLimit L (g + w) then (0, Some msg) else (g + w, None)) =
    ref_charge (unat (gl_GasLimit L)) (Cost n) (unat g)"
proof -
  have "unat (g + w) = unat g + n"
    using assms by (simp add: unat_word_ariths unat_of_nat)
  then show ?thesis by (simp add: gas_abs_def ref_charge_def CheckGasLimit_def word_less_nat_alt not_less)
qed

lemma free_abs: "gas_abs (g, None) = ref_charge mx Free (unat g)" "gas_abs (w, Some e) = ref_charge mx Failed (unat g)"
  by (simp_all add: gas_abs_def ref_charge_def)

lemmas gas_prices = GetStateGasPrice_def GetBatchStateGasPrice_def PutStateGasPrice_def EmitEventGasPrice_def
  KvIteratorCreateGasPrice_def KvIteratorNextGasPrice_def KeyHistoryIterCreateGasPrice_def
  KeyHistoryIterHasNextGasPrice_def GetSenderAddressGasPrice_def

lemmas gas_free = PutStateGasUsed2312_def GetStateGasUsed2312_def GetBatchStateGasUsed2312_def EmitEventGasUsed2312_def
  ConsumeKeyHistoryIterGasUsed2312_def ConsumeKvIteratorGasUsed2312_def

lemmas gas_old = PutStateGasUsedLt2312_def GetStateGasUsedLt2312_def GetBatchStateGasUsedLt2312_def EmitEventGasUsedLt2312_def
  CreateKeyHistoryIterGasUsedLt2312_def ConsumeKeyHistoryIterGasUsedLt2312_def CreateKvIteratorGasUsedLt2312_def
  ConsumeKvIteratorGasUsedLt2312_def

lemmas gas_new = CreateKeyHistoryIterGasUsed2312_def CreateKvIteratorGasUsed2312_def CallContractGasUsed2312_def

lemmas gas_versions = PutStateGasUsed_def GetStateGasUsed_def GetBatchStateGasUsed_def EmitEventGasUsed_def
  CreateKeyHistoryIterGasUsed_def ConsumeKeyHistoryIterGasUsed_def CreateKvIteratorGasUsed_def
  ConsumeKvIteratorGasUsed_def CallContractGasUsed_def

lemma init_step:
  assumes "charge_ok L g (op_charge L bv c (OpInit d))"
  shows "gas_abs (gas_step L bv c (OpInit d) g) = ref_charge (unat (gl_GasLimit L)) (op_charge L bv c (OpInit d)) (unat g)"
proof -
  have "getInitFuncGasUsed g d = g + word_of_nat ((if d = 0 then 10000 else unat d) + 1250)"
    by (simp add: getInitFuncGasUsed_def defaultInvokeBaseGas_def initFuncGas_def)
  then show ?thesis using assms limited_add[of g "(if d = 0 then 10000 else unat d) + 1250" _ L]
    by (simp add: InitFuncGasUsedLt2312_def charge_ok_def Let_def)
qed

lemma contract_step:
  assumes "charge_ok L g (op_charge L bv c (OpContract m n code))"
  shows "gas_abs (gas_step L bv c (OpContract m n code) g) =
    ref_charge (unat (gl_GasLimit L)) (op_charge L bv c (OpContract m n code)) (unat g)"
proof -
  consider "m = initContract" | "m = upgradeContract" "m \<noteq> initContract" | "m \<noteq> initContract" "m \<noteq> upgradeContract" by blast
  then show ?thesis
  proof cases
    case 1
    then show ?thesis using assms limited_add[of g "10 * (length n + length (PrefixContractByteCode L) + blen code)" _ L]
      by (simp add: ContractGasUsed_def gas_prices charge_ok_def uint64_def initContract_def upgradeContract_def Let_def
          algebra_simps split del: if_split)
  next
    case 2
    then show ?thesis using assms limited_add[of g "10 * blen code" _ L]
      by (simp add: ContractGasUsed_def gas_prices charge_ok_def uint64_def Let_def algebra_simps split del: if_split)
  next
    case 3
    then show ?thesis
      by (simp add: ContractGasUsed_def gas_abs_def ref_charge_def CheckGasLimit_def word_less_nat_alt Let_def)
  qed
qed

lemma gas_step_old:
  assumes "charge_ok L g (op_charge L bv c opn)" "bv < blockVersion2312"
  shows "gas_abs (gas_step L bv c opn g) = ref_charge (unat (gl_GasLimit L)) (op_charge L bv c opn) (unat g)"
proof (cases opn)
  case (OpEvent ev)
  then show ?thesis using assms
    by (cases "MarshalEvent L ev") (simp_all add: gas_versions gas_old gas_prices charge_ok_def free_abs limited_add
        uint64_def Let_def split del: if_split)
next
  case (OpInit d)
  then show ?thesis using assms init_step by simp
next
  case (OpContract m n code)
  then show ?thesis using assms contract_step by simp
qed (use assms in \<open>simp_all add: gas_versions gas_old gas_prices charge_ok_def free_abs limited_add uint64_def Let_def
    GetSenderAddressGasUsed_def split del: if_split\<close>)

lemma gas_step_new:
  assumes "charge_ok L g (op_charge L bv c opn)" "\<not> bv < blockVersion2312"
  shows "gas_abs (gas_step L bv c opn g) = ref_charge (unat (gl_GasLimit L)) (op_charge L bv c opn) (unat g)"
proof (cases opn)
  case (OpInit d)
  then show ?thesis using assms init_step by simp
next
  case (OpContract m n code)
  then show ?thesis using assms contract_step by simp
qed (use assms in \<open>simp_all add: gas_versions gas_new gas_free gas_prices charge_ok_def free_abs limited_add Let_def
    GetSenderAddressGasUsed_def split del: if_split split: sum.splits\<close>)

text \<open>A chain whose limit is ten million and whose price is a whole number, for the witnesses.\<close>

definition sample_gas_lib :: gas_lib where
  "sample_gas_lib = \<lparr>gl_GasLimit = 10000000,
     MultiplyGasPrice = (\<lambda>n p. if n < 0 then Inl ''negative size'' else Inr (word_of_int (n * fst (quotient_of p)))),
     PrefixContractByteCode = ''#ContractByteCode:'',
     MarshalEvent = (\<lambda>ev. Inr (concat (ce_Topic ev # ce_EventData ev)))\<rparr>"

section \<open>Properties\<close>

text \<open>
  C12: the gas functions compute the charge of the reference.  At every block version, an operation
  whose charge does not wrap the counter around succeeds with the sum exactly when the sum is
  within the limit, or when the operation is not charged at that version.
\<close>

theorem gas_functions_match_reference:
  assumes "charge_ok L g (op_charge L bv c opn)"
  shows "gas_abs (gas_step L bv c opn g) = ref_charge (unat (gl_GasLimit L)) (op_charge L bv c opn) (unat g)"
  using gas_step_old[OF assms] gas_step_new[OF assms] by blast

theorem gas_functions_match_reference_witness:
  "gas_abs (gas_step sample_gas_lib blockVersion2312 (Some \<lparr>GasPriceForInvoke = 3\<rparr>)
     (OpCall ''fact'' ''save'' [(''k'', Some ''vv''), (''__sender__'', Some ''x'')]) 100) = Some 133 \<and>
   gas_abs (gas_step sample_gas_lib 0 None (OpPut ''fact'' ''k'' '''' (Some ''vv'')) 9999931) = None"
proof -
  let ?C = "OpCall ''fact'' ''save'' [(''k'', Some ''vv''), (''__sender__'', Some ''x'')]"
  let ?P = "OpPut ''fact'' ''k'' '''' (Some ''vv'')"
  have c: "op_charge sample_gas_lib blockVersion2312 (Some \<lparr>GasPriceForInvoke = 3\<rparr>) ?C = Cost 33"
    by code_simp
  have p: "op_charge sample_gas_lib 0 None ?P = Cost 70"
    by code_simp
  have L: "gl_GasLimit sample_gas_lib = 10000000" by (simp add: sample_gas_lib_def)
  show ?thesis
    using gas_functions_match_reference[of sample_gas_lib 100 blockVersion2312 "Some \<lparr>GasPriceForInvoke = 3\<rparr>" ?C]
      gas_functions_match_reference[of sample_gas_lib 9999931 0 None ?P]
    unfolding c p L by (simp add: charge_ok_def ref_charge_def)
qed

end
