(* ===== verification/Engine_Config.thy ===== *)
theory Engine_Config
  imports Messages
begin

text \<open>
  The engine's configuration, \<open>vm_mgr/config/config.go\<close>: its records, the defaults, and the
  environment variables that override what was read from the file.  Reading and
  unmarshalling the file is viper's, a parameter of \<open>InitConfig\<close>; the parsers of \<open>strconv\<close>
  the code calls are modelled with their 64 bit range checks and the values they return
  beside an error.  Durations are in nanoseconds.
\<close>

section \<open>The parsers of \<open>strconv\<close>\<close>

datatype num_error = ErrSyntax string | ErrRange string

definition int64_max :: int where "int64_max = 9223372036854775807"

definition int64_min :: int where "int64_min = - 9223372036854775808"

definition wrap64 :: "int \<Rightarrow> int" where
  "wrap64 x = signed_take_bit 63 x"

definition all_digits :: "string \<Rightarrow> bool" where
  "all_digits s \<longleftrightarrow> s \<noteq> [] \<and> list_all (\<lambda>c. 48 \<le> (of_char c :: nat) \<and> (of_char c :: nat) \<le> 57) s"

text \<open>Decimal \<open>ParseInt\<close>: the value is 0 on a syntax error and the nearest bound on a range error.\<close>

definition ParseInt :: "string \<Rightarrow> int \<times> num_error option" where
  "ParseInt s =
     (let neg = (s \<noteq> [] \<and> hd s = CHR ''-'');
          ds = (if s \<noteq> [] \<and> (hd s = CHR ''-'' \<or> hd s = CHR ''+'') then tl s else s)
      in if \<not> all_digits ds then (0, Some (ErrSyntax s))
         else let n = int (read_nat ds)
           in if neg then (if n > - int64_min then (int64_min, Some (ErrRange s)) else (- n, None))
              else (if n > int64_max then (int64_max, Some (ErrRange s)) else (n, None)))"

definition Atoi :: "string \<Rightarrow> int \<times> num_error option" where
  "Atoi s = ParseInt s"

definition ParseBool :: "string \<Rightarrow> bool \<times> num_error option" where
  "ParseBool s =
     (if s \<in> set [''1'', ''t'', ''T'', ''true'', ''TRUE'', ''True''] then (True, None)
      else if s \<in> set [''0'', ''f'', ''F'', ''false'', ''FALSE'', ''False''] then (False, None)
      else (False, Some (ErrSyntax s)))"

section \<open>The configuration\<close>

datatype ChainRPCProtocolType = UDS | TCP | OtherProtocol int

fun protocol_of_int :: "int \<Rightarrow> ChainRPCProtocolType" where
  "protocol_of_int p = (if p = 0 then UDS else if p = 1 then TCP else OtherProtocol p)"

record rpcConf =
  ChainRPCProtocol :: ChainRPCProtocolType
  ChainHost :: string
  ChainRPCPort :: int
  SandboxRPCPort :: int
  MaxSendMsgSize :: int
  MaxRecvMsgSize :: int
  ServerMinInterval :: int
  ConnectionTimeout :: int
  ServerKeepAliveTime :: int
  ServerKeepAliveTimeout :: int

record processConf =
  MaxOriginalProcessNum :: int
  ExecTxTimeout :: int
  WaitingTxTime :: int
  ReleaseRate :: int
  ReleasePeriod :: int

record logInstanceConf =
  Level :: string
  Console :: bool

record logConf =
  ContractEngineLog :: logInstanceConf
  SandboxLog :: logInstanceConf

record pprofInstanceConf =
  Enable :: bool
  pprof_Port :: int

record pprofConf =
  ContractEnginePprof :: pprofInstanceConf
  SandboxPprof :: pprofInstanceConf

record contractConf =
  MaxFileSize :: int

record slowConf =
  Disable :: bool
  StepTime :: int
  TxTime :: int

record conf =
  RPC :: rpcConf
  Process_conf :: processConf
  Log :: logConf
  Pprof :: pprofConf
  Contract_conf :: contractConf
  Slow :: slowConf

definition second :: int where "second = 1000000000"

text \<open>What viper unmarshals when no file overrides the defaults of \<open>setDefaultConfigs\<close>.\<close>

definition setDefaultConfigs :: conf where
  "setDefaultConfigs = \<lparr>
     RPC = \<lparr>ChainRPCProtocol = protocol_of_int 1, ChainHost = ''127.0.0.1'', ChainRPCPort = 22351,
       SandboxRPCPort = 32351, MaxSendMsgSize = 100, MaxRecvMsgSize = 100,
       ServerMinInterval = 60 * second, ConnectionTimeout = 5 * second,
       ServerKeepAliveTime = 60 * second, ServerKeepAliveTimeout = 20 * second\<rparr>,
     Process_conf = \<lparr>MaxOriginalProcessNum = 20, ExecTxTimeout = 8 * second,
       WaitingTxTime = 200000000, ReleaseRate = 0, ReleasePeriod = 600 * second\<rparr>,
     Log = \<lparr>ContractEngineLog = \<lparr>Level = ''info'', Console = False\<rparr>,
       SandboxLog = \<lparr>Level = ''info'', Console = False\<rparr>\<rparr>,
     Pprof = \<lparr>ContractEnginePprof = \<lparr>Enable = False, pprof_Port = 21215\<rparr>,
       SandboxPprof = \<lparr>Enable = False, pprof_Port = 21522\<rparr>\<rparr>,
     Contract_conf = \<lparr>MaxFileSize = 20480\<rparr>,
     Slow = \<lparr>Disable = False, StepTime = 3 * second, TxTime = 6 * second\<rparr>\<rparr>"

section \<open>Environment variables\<close>

type_synonym env = "string \<Rightarrow> string option"

datatype conf_error = BadNumber string num_error | EmptyHost

abbreviation map_RPC :: "(rpcConf \<Rightarrow> rpcConf) \<Rightarrow> conf \<Rightarrow> conf" where
  "map_RPC f c \<equiv> c\<lparr>RPC := f (RPC c)\<rparr>"

abbreviation map_Process :: "(processConf \<Rightarrow> processConf) \<Rightarrow> conf \<Rightarrow> conf" where
  "map_Process f c \<equiv> c\<lparr>Process_conf := f (Process_conf c)\<rparr>"

text \<open>One variable: \<open>name\<close> looked up, its text parsed, the configuration updated.\<close>

definition with_env ::
  "env \<Rightarrow> string \<Rightarrow> (string \<Rightarrow> conf \<Rightarrow> conf \<times> conf_error list) \<Rightarrow> conf \<times> conf_error list \<Rightarrow>
   conf \<times> conf_error list" where
  "with_env en name f ce = (case en name of
       None \<Rightarrow> ce
     | Some s \<Rightarrow> (let (c', es) = f s (fst ce) in (c', snd ce @ es)))"

definition errs_of :: "string \<Rightarrow> num_error option \<Rightarrow> conf_error list" where
  "errs_of name e = (case e of None \<Rightarrow> [] | Some e \<Rightarrow> [BadNumber name e])"

text \<open>\<open>if c.F, err = Atoi(s); err != nil\<close>: the field is assigned whatever the error is.\<close>

definition assign_int ::
  "string \<Rightarrow> (int \<Rightarrow> conf \<Rightarrow> conf) \<Rightarrow> string \<Rightarrow> conf \<Rightarrow> conf \<times> conf_error list" where
  "assign_int name upd s c = (let (n, e) = Atoi s in (upd n c, errs_of name e))"

text \<open>\<open>if timeout != 0\<close>: the value beside an error is 0 or a bound.\<close>

definition assign_seconds ::
  "string \<Rightarrow> (int \<Rightarrow> conf \<Rightarrow> conf) \<Rightarrow> string \<Rightarrow> conf \<Rightarrow> conf \<times> conf_error list" where
  "assign_seconds name upd s c =
     (let (n, e) = ParseInt s
      in (if n \<noteq> 0 then upd (wrap64 (n * second)) c else c, errs_of name e))"

definition env_protocol :: "string \<Rightarrow> conf \<Rightarrow> conf \<times> conf_error list" where
  "env_protocol s c = (case Atoi s of
       (p, None) \<Rightarrow> (map_RPC (\<lambda>r. r\<lparr>ChainRPCProtocol := protocol_of_int p\<rparr>) c, [])
     | (p, Some e) \<Rightarrow> (c, [BadNumber ''chainRPCProtocol'' e]))"

definition env_host :: "string \<Rightarrow> conf \<Rightarrow> conf \<times> conf_error list" where
  "env_host s c = (if s = [] then (c, [EmptyHost])
     else (map_RPC (\<lambda>r. r\<lparr>ChainHost := s\<rparr>) c, []))"

definition env_conn_timeout :: "string \<Rightarrow> conf \<Rightarrow> conf \<times> conf_error list" where
  "env_conn_timeout s c = (case ParseInt s of
       (n, None) \<Rightarrow> (map_RPC (\<lambda>r. r\<lparr>ConnectionTimeout := wrap64 (n * second)\<rparr>) c, [])
     | (n, Some e) \<Rightarrow> (c, [BadNumber ''connectionTimeout'' e]))"

definition env_console :: "string \<Rightarrow> conf \<Rightarrow> conf \<times> conf_error list" where
  "env_console s c =
     (if \<not> fst (ParseBool s)
      then (c\<lparr>Log := (Log c)\<lparr>SandboxLog := (SandboxLog (Log c))\<lparr>Console := False\<rparr>,
              ContractEngineLog := (ContractEngineLog (Log c))\<lparr>Console := False\<rparr>\<rparr>\<rparr>, [])
      else (c, []))"

definition env_slow :: "env \<Rightarrow> string \<Rightarrow> conf \<Rightarrow> conf \<times> conf_error list" where
  "env_slow en s c =
     (let (dis, e) = ParseBool s; es = errs_of ''slowDisable'' e
      in if dis then (c\<lparr>Slow := (Slow c)\<lparr>Disable := True\<rparr>\<rparr>, es)
         else (with_env en ''SLOW_TX_TIME''
                 (assign_seconds ''slowTxTime'' (\<lambda>n c. c\<lparr>Slow := (Slow c)\<lparr>TxTime := n\<rparr>\<rparr>))
               \<circ> with_env en ''SLOW_STEP_TIME''
                 (assign_seconds ''slowStepTime'' (\<lambda>n c. c\<lparr>Slow := (Slow c)\<lparr>StepTime := n\<rparr>\<rparr>)))
              (c, es))"

definition setEnv :: "env \<Rightarrow> conf \<Rightarrow> conf \<times> conf_error list" where
  "setEnv en c = fold id
     [with_env en ''CHAIN_RPC_PROTOCOL'' env_protocol,
      with_env en ''CHAIN_HOST'' env_host,
      with_env en ''CHAIN_RPC_PORT''
        (assign_int ''chainRPCPort'' (\<lambda>n. map_RPC (\<lambda>r. r\<lparr>ChainRPCPort := n\<rparr>))),
      with_env en ''SANDBOX_RPC_PORT''
        (assign_int ''sandboxRPCPort'' (\<lambda>n. map_RPC (\<lambda>r. r\<lparr>SandboxRPCPort := n\<rparr>))),
      with_env en ''MAX_SEND_MSG_SIZE''
        (assign_int ''maxSendMsgSize'' (\<lambda>n. map_RPC (\<lambda>r. r\<lparr>MaxSendMsgSize := n\<rparr>))),
      with_env en ''MAX_RECV_MSG_SIZE''
        (assign_int ''maxRecvMsgSize'' (\<lambda>n. map_RPC (\<lambda>r. r\<lparr>MaxRecvMsgSize := n\<rparr>))),
      with_env en ''MAX_CONN_TIMEOUT'' env_conn_timeout,
      with_env en ''MAX_ORIGINAL_PROCESS_NUM''
        (assign_int ''processNum'' (\<lambda>n. map_Process (\<lambda>p. p\<lparr>MaxOriginalProcessNum := n\<rparr>))),
      with_env en ''DOCKERVM_CONTRACT_ENGINE_LOG_LEVEL'' (\<lambda>s c.
        (c\<lparr>Log := (Log c)\<lparr>ContractEngineLog := (ContractEngineLog (Log c))\<lparr>Level := s\<rparr>\<rparr>\<rparr>, [])),
      with_env en ''DOCKERVM_SANDBOX_LOG_LEVEL'' (\<lambda>s c.
        (c\<lparr>Log := (Log c)\<lparr>SandboxLog := (SandboxLog (Log c))\<lparr>Level := s\<rparr>\<rparr>\<rparr>, [])),
      with_env en ''DOCKERVM_LOG_IN_CONSOLE'' env_console,
      with_env en ''PROCESS_TIMEOUT''
        (assign_seconds ''busyTimout'' (\<lambda>n. map_Process (\<lambda>p. p\<lparr>ExecTxTimeout := n\<rparr>))),
      with_env en ''SLOW_DISABLE'' (env_slow en)]
     (c, [])"

text \<open>
  \<open>InitConfig\<close> over the outcome of viper's \<open>ReadInConfig\<close> and \<open>Unmarshal\<close>.  The errors it
  returns are collected; the environment's are appended only when there already was one.
\<close>

datatype init_error = ReadErr error | UnmarshalErr error | EnvErr "conf_error list"

definition InitConfig ::
  "error option \<Rightarrow> conf \<times> error option \<Rightarrow> env \<Rightarrow> conf \<times> init_error list" where
  "InitConfig readErr unm en =
     (let e1 = (case readErr of None \<Rightarrow> [] | Some e \<Rightarrow> [ReadErr e]);
          e2 = e1 @ (case snd unm of None \<Rightarrow> [] | Some e \<Rightarrow> [UnmarshalErr e]);
          (c, envErr) = setEnv en (fst unm)
      in (c, if e2 \<noteq> [] then e2 @ [EnvErr envErr] else e2))"

definition restrainConfig :: "conf \<Rightarrow> conf" where
  "restrainConfig c =
     (if ReleaseRate (Process_conf c) < 0 then map_Process (\<lambda>p. p\<lparr>ReleaseRate := 0\<rparr>) c
      else if ReleaseRate (Process_conf c) > 100 then map_Process (\<lambda>p. p\<lparr>ReleaseRate := 100\<rparr>) c
      else c)"

definition GetMaxUserNum :: "chain_consts \<Rightarrow> conf \<Rightarrow> int" where
  "GetMaxUserNum K c = MaxOriginalProcessNum (Process_conf c) * (uint (CallContractDepth K) + 1)"

section \<open>Lemmas\<close>

lemma with_env_unset [simp]: "en name = None \<Longrightarrow> with_env en name f ce = ce"
  by (simp add: with_env_def)

lemma with_env_keeps:
  "(\<And>s c. g (fst (f s c)) = g c) \<Longrightarrow> g (fst (with_env en name f ce)) = g (fst ce)"
  by (auto simp: with_env_def split: option.split prod.split) (metis fst_conv)

lemma env_step_process_num [simp]:
  "MaxOriginalProcessNum (Process_conf (fst (env_protocol s c))) = MaxOriginalProcessNum (Process_conf c)"
  "MaxOriginalProcessNum (Process_conf (fst (env_host s c))) = MaxOriginalProcessNum (Process_conf c)"
  "MaxOriginalProcessNum (Process_conf (fst (env_conn_timeout s c))) = MaxOriginalProcessNum (Process_conf c)"
  "MaxOriginalProcessNum (Process_conf (fst (env_console s c))) = MaxOriginalProcessNum (Process_conf c)"
  by (simp_all add: env_protocol_def env_host_def env_conn_timeout_def env_console_def
      split: prod.split option.split)

lemma assign_keeps:
  "(\<And>n c. g (upd n c) = g c) \<Longrightarrow> g (fst (assign_int name upd s c)) = g c"
  "(\<And>n c. g (upd n c) = g c) \<Longrightarrow> g (fst (assign_seconds name upd s c)) = g c"
  by (simp_all add: assign_int_def assign_seconds_def split: prod.split)

lemma env_slow_keeps: "Process_conf (fst (env_slow en s c)) = Process_conf c"
  by (simp add: env_slow_def split_beta Let_def)
    (simp add: with_env_keeps[of Process_conf] assign_keeps(2)[of Process_conf])

lemma all_digits_show_nat: "all_digits (show_nat n)"
proof (induction n rule: show_nat.induct)
  case (1 n)
  have d: "48 \<le> (of_char (digit_char k) :: nat) \<and> (of_char (digit_char k) :: nat) \<le> 57" if "k < 10" for k
    using that by (simp add: digit_char_def)
  show ?case
    using 1 d[of n] d[of "n mod 10"] by (subst show_nat.simps) (auto simp: all_digits_def)
qed

lemma all_digits_sign:
  "all_digits s \<Longrightarrow> s \<noteq> [] \<and> hd s \<noteq> CHR ''-'' \<and> hd s \<noteq> CHR ''+''"
  by (cases s) (auto simp: all_digits_def)

lemma ParseInt_Itoa:
  assumes "int64_min \<le> n" "n \<le> int64_max"
  shows "ParseInt (Itoa n) = (n, None)"
  using assms all_digits_show_nat[of "nat n"] all_digits_show_nat[of "nat (- n)"]
    all_digits_sign[OF all_digits_show_nat[of "nat n"]]
  by (auto simp: ParseInt_def Itoa_def Let_def read_show_nat)

lemma setEnv_process_num:
  "MaxOriginalProcessNum (Process_conf (fst (setEnv en c))) =
     (case en ''MAX_ORIGINAL_PROCESS_NUM'' of
        None \<Rightarrow> MaxOriginalProcessNum (Process_conf c) | Some s \<Rightarrow> fst (Atoi s))"
proof -
  let ?g = "\<lambda>c. MaxOriginalProcessNum (Process_conf c)"
  have num: "?g (fst (with_env en nm (assign_int nm' (\<lambda>n. map_Process (\<lambda>p. p\<lparr>MaxOriginalProcessNum := n\<rparr>))) ce)) =
      (case en nm of None \<Rightarrow> ?g (fst ce) | Some s \<Rightarrow> fst (Atoi s))" for nm nm' ce
    by (simp add: with_env_def assign_int_def split_beta split: option.split)
  show ?thesis
    by (simp add: setEnv_def num with_env_keeps[of ?g] assign_keeps[of ?g] env_slow_keeps
        cong: option.case_cong)
qed

text \<open>
  a number printed by \<open>strconv.Itoa\<close> and passed through the environment is read back
  unchanged: for every int64 \<open>n\<close>, setting \<open>MAX_ORIGINAL_PROCESS_NUM\<close> to its decimal form makes
  \<open>n\<close> the configured number of original processes.
\<close>

theorem process_num_roundtrip:
  assumes "int64_min \<le> n" and "n \<le> int64_max" and "en ''MAX_ORIGINAL_PROCESS_NUM'' = Some (Itoa n)"
  shows "MaxOriginalProcessNum (Process_conf (fst (setEnv en c))) = n"
  using assms by (simp add: setEnv_process_num Atoi_def ParseInt_Itoa)

theorem process_num_roundtrip_witness:
  "MaxOriginalProcessNum (Process_conf (fst (setEnv ([''MAX_ORIGINAL_PROCESS_NUM'' \<mapsto> Itoa 35])
     setDefaultConfigs))) = 35"
  by (rule process_num_roundtrip) (simp_all add: int64_min_def int64_max_def)

text \<open>
  C17: \<open>InitConfig\<close> reports no error for a malformed environment variable when the file itself
  was read, although \<open>setEnv\<close> does: the engine then starts with zero original processes when
  the number of processes cannot be parsed.
\<close>

theorem env_errors_swallowed:
  assumes "en ''MAX_ORIGINAL_PROCESS_NUM'' = Some s" and "ParseInt s = (0, Some (ErrSyntax s))"
  shows "let (c', errs) = InitConfig None (c, None) en in
    errs = [] \<and> MaxOriginalProcessNum (Process_conf c') = 0"
  using assms setEnv_process_num[of en c]
  by (simp add: InitConfig_def Let_def split_beta Atoi_def)

theorem env_errors_swallowed_witness:
  "let (c', errs) = InitConfig None (setDefaultConfigs, None) ([''MAX_ORIGINAL_PROCESS_NUM'' \<mapsto> ''3O''])
   in errs = [] \<and> MaxOriginalProcessNum (Process_conf c') = 0"
  by (rule env_errors_swallowed) (simp, code_simp)

end
