(* ===== verification/Tx_Steps.thy ===== *)
theory Tx_Steps
  imports Engine_Config
begin

text \<open>
  The step log a transaction carries through the engine (\<open>EnterNextStep\<close>, \<open>endTxStep\<close>,
  \<open>addTxStep\<close> and \<open>PrintTxStepsWithTime\<close> of \<open>vm_mgr/utils/utils.go\<close>).  The clock is an argument:
  \<open>clk i\<close> is the \<open>i\<close>th reading of \<open>time.Now\<close> during one call.  Times are in nanoseconds.
\<close>

definition addTxStep :: "int \<Rightarrow> StepType \<Rightarrow> string \<Rightarrow> DockerVMMessage \<Rightarrow> DockerVMMessage" where
  "addTxStep now stepType lg msg =
     msg\<lparr>m_StepDurations := m_StepDurations msg @
       [\<lparr>step_Type = stepType, step_StartTime = now, step_StepDuration = 0,
         step_UntilDuration = 0, step_Msg = lg\<rparr>]\<rparr>"

definition endTxStep :: "int \<Rightarrow> int \<Rightarrow> DockerVMMessage \<Rightarrow> DockerVMMessage" where
  "endTxStep now now' msg =
     (if m_StepDurations msg = [] then msg
      else let currStep = last (m_StepDurations msg); firstStep = hd (m_StepDurations msg);
               currStep' = currStep\<lparr>step_UntilDuration := now - step_StartTime firstStep,
                                    step_StepDuration := now' - step_StartTime currStep\<rparr>
        in msg\<lparr>m_StepDurations := butlast (m_StepDurations msg) @ [currStep']\<rparr>)"

definition EnterNextStep ::
  "slowConf \<Rightarrow> (nat \<Rightarrow> int) \<Rightarrow> DockerVMMessage \<Rightarrow> StepType \<Rightarrow> string \<Rightarrow> DockerVMMessage" where
  "EnterNextStep sl clk msg stepType str =
     (if Disable sl then msg
      else let m1 = (if stepType \<noteq> RUNTIME_PREPARE_TX_REQUEST then endTxStep (clk 0) (clk 1) msg else msg);
               m2 = addTxStep (clk 2) stepType str m1
        in if stepType = RUNTIME_HANDLE_TX_RESPONSE \<or> stepType = ENGINE_PROCESS_RECEIVE_TX_RESPONSE
           then endTxStep (clk 3) (clk 4) m2 else m2)"

datatype slow_report = SlowOverall "StepDuration list" | SlowStep StepDuration "StepDuration list"

text \<open>The verdict of \<open>PrintTxStepsWithTime\<close>; the wording of the log line is left out.\<close>

definition PrintTxStepsWithTime :: "slowConf \<Rightarrow> DockerVMMessage \<Rightarrow> slow_report option" where
  "PrintTxStepsWithTime sl msg =
     (let steps = m_StepDurations msg
      in if steps = [] then None
         else if step_UntilDuration (last steps) > TxTime sl then Some (SlowOverall steps)
         else map_option (\<lambda>st. SlowStep st steps)
                (List.find (\<lambda>st. step_StepDuration st > StepTime sl) steps))"

section \<open>Lemmas\<close>

text \<open>
  A log is chained when every step ends before the next one starts; \<open>log_upto now\<close> adds that
  nothing in it lies after \<open>now\<close>.  Entering steps with a clock that does not run backwards
  keeps it so.
\<close>

fun chained :: "StepDuration list \<Rightarrow> bool" where
  "chained [] = True"
| "chained [st] = True"
| "chained (st # st' # sts) =
     (step_StartTime st + step_StepDuration st \<le> step_StartTime st' \<and> chained (st' # sts))"

definition log_upto :: "int \<Rightarrow> StepDuration list \<Rightarrow> bool" where
  "log_upto now sts \<longleftrightarrow> chained sts \<and>
     (\<forall>st\<in>set sts. step_StepDuration st \<ge> 0 \<and> step_StartTime st + step_StepDuration st \<le> now)"

lemma log_upto_mono: "log_upto t sts \<Longrightarrow> t \<le> t' \<Longrightarrow> log_upto t' sts"
  by (force simp: log_upto_def)

lemma chained_snoc:
  "sts \<noteq> [] \<Longrightarrow> chained (sts @ [st]) \<longleftrightarrow> chained sts \<and>
     step_StartTime (last sts) + step_StepDuration (last sts) \<le> step_StartTime st"
  by (induction sts rule: chained.induct) auto

lemma chained_last:
  "chained (sts @ [st]) \<Longrightarrow> step_StartTime st' = step_StartTime st \<Longrightarrow> chained (sts @ [st'])"
  by (cases "sts = []") (auto simp: chained_snoc)

lemma endTxStep_log:
  assumes "log_upto t0 (m_StepDurations msg)" "t0 \<le> now'"
  shows "log_upto now' (m_StepDurations (endTxStep now now' msg))"
proof (cases "m_StepDurations msg" rule: rev_cases)
  case (snoc sts st)
  then show ?thesis
    using assms chained_last[of sts st]
    by (fastforce simp: endTxStep_def log_upto_def Let_def)
qed (use assms in \<open>auto simp: endTxStep_def log_upto_def\<close>)

lemma endTxStep_types [simp]:
  "map step_Type (m_StepDurations (endTxStep now now' msg)) = map step_Type (m_StepDurations msg)"
  by (cases "m_StepDurations msg" rule: rev_cases) (simp_all add: endTxStep_def Let_def)

lemma addTxStep_log:
  assumes "log_upto t0 (m_StepDurations msg)" "t0 \<le> now"
  shows "log_upto now (m_StepDurations (addTxStep now ty lg msg))"
proof -
  have "log_upto now (m_StepDurations msg)" by (rule log_upto_mono[OF assms])
  moreover from this have "m_StepDurations msg \<noteq> [] \<Longrightarrow>
      step_StartTime (last (m_StepDurations msg)) + step_StepDuration (last (m_StepDurations msg)) \<le> now"
    using last_in_set by (simp add: log_upto_def)
  ultimately show ?thesis
    by (cases "m_StepDurations msg = []") (simp_all add: addTxStep_def log_upto_def chained_snoc)
qed

lemma EnterNextStep_log:
  assumes "log_upto t0 (m_StepDurations msg)" "t0 \<le> clk 0"
    and "clk 0 \<le> clk 1" "clk 1 \<le> clk 2" "clk 2 \<le> clk 3" "clk 3 \<le> clk 4"
  shows "log_upto (clk 4) (m_StepDurations (EnterNextStep sl clk msg stepType str))"
proof -
  let ?m1 = "if stepType \<noteq> RUNTIME_PREPARE_TX_REQUEST then endTxStep (clk 0) (clk 1) msg else msg"
  have m1: "log_upto (clk 2) (m_StepDurations ?m1)"
    using endTxStep_log[OF assms(1), of "clk 1" "clk 0"] log_upto_mono[OF assms(1)] assms log_upto_mono
    by auto
  have m2: "log_upto (clk 2) (m_StepDurations (addTxStep (clk 2) stepType str ?m1))"
    using addTxStep_log[OF m1] by simp
  have "log_upto (clk 4) (m_StepDurations msg)"
    using log_upto_mono[OF assms(1)] assms by auto
  with m2 endTxStep_log[OF m2, of "clk 4" "clk 3"] log_upto_mono[OF m2, of "clk 4"] show ?thesis
    using assms by (auto simp: EnterNextStep_def Let_def)
qed

lemma EnterNextStep_types:
  "map step_Type (m_StepDurations (EnterNextStep sl clk msg stepType str)) =
     map step_Type (m_StepDurations msg) @ (if Disable sl then [] else [stepType])"
  by (simp add: EnterNextStep_def addTxStep_def Let_def)

text \<open>A transaction entering the steps \<open>sts\<close> one after the other, five clock readings each.\<close>

fun enter_steps :: "slowConf \<Rightarrow> (nat \<Rightarrow> int) \<Rightarrow> StepType list \<Rightarrow> DockerVMMessage \<Rightarrow> DockerVMMessage" where
  "enter_steps sl clk [] msg = msg"
| "enter_steps sl clk (st # sts) msg =
     enter_steps sl (\<lambda>i. clk (i + 5)) sts (EnterNextStep sl clk msg st [])"

lemma enter_steps_log:
  assumes "mono clk" "log_upto (clk 0) (m_StepDurations msg)"
  shows "\<exists>t. log_upto t (m_StepDurations (enter_steps sl clk sts msg))"
  using assms
proof (induction sts arbitrary: clk msg)
  case (Cons st sts)
  have le: "clk i \<le> clk j" if "i \<le> j" for i j using Cons.prems(1) that by (rule monoD)
  have "log_upto (clk 4) (m_StepDurations (EnterNextStep sl clk msg st []))"
    by (rule EnterNextStep_log[OF Cons.prems(2)]) (auto intro: le)
  then have "log_upto (clk (0 + 5)) (m_StepDurations (EnterNextStep sl clk msg st []))"
    by (rule log_upto_mono) (auto intro: le)
  moreover have "mono (\<lambda>i. clk (i + 5))" by (auto intro!: monoI le)
  ultimately show ?case using Cons.IH[of "\<lambda>i. clk (i + 5)"] by simp
qed auto

lemma enter_steps_types:
  "\<not> Disable sl \<Longrightarrow> map step_Type (m_StepDurations (enter_steps sl clk sts msg)) =
     map step_Type (m_StepDurations msg) @ sts"
  by (induction sts arbitrary: clk msg) (simp_all add: EnterNextStep_types)



end
