(* ===== verification/Tx_Duration.thy ===== *)
theory Tx_Duration
  imports Tx_Steps "HOL-Library.Signed_Division"
begin

text \<open>
  The time statistics of the runtime, \<open>utils/time_statics.go\<close>: the system calls of a
  transaction, the tree of transactions that call each other's contracts, the transactions of a
  block, and the step log of the messages.

  The pointers of the code alias each other: the root of a tree is reached from the block, from
  the runtime instance and from itself as the finished transaction, and records of system calls
  return to a pool while transactions hold them.  Both kinds of objects live in an explicit store
  and a pointer is an index into it.  The readings of the clock are arguments, times are in
  nanoseconds.
\<close>

section \<open>System calls\<close>

record SysCallDuration =
  sc_OpType :: DockerVMType
  sc_StartTime :: int
  sc_TotalDuration :: int
  sc_StorageDuration :: int

definition NewSysCallDuration :: "DockerVMType \<Rightarrow> int \<Rightarrow> int \<Rightarrow> int \<Rightarrow> SysCallDuration" where
  "NewSysCallDuration opType startTime totalTime storageTime =
     \<lparr>sc_OpType = opType, sc_StartTime = startTime, sc_TotalDuration = totalTime, sc_StorageDuration = storageTime\<rparr>"

fun DockerVMType_String :: "DockerVMType \<Rightarrow> string" where
  "DockerVMType_String UNDEFINED = ''UNDEFINED''"
| "DockerVMType_String REGISTER = ''REGISTER''"
| "DockerVMType_String REGISTERED = ''REGISTERED''"
| "DockerVMType_String PREPARE = ''PREPARE''"
| "DockerVMType_String READY = ''READY''"
| "DockerVMType_String INIT = ''INIT''"
| "DockerVMType_String INVOKE = ''INVOKE''"
| "DockerVMType_String TX_REQUEST = ''TX_REQUEST''"
| "DockerVMType_String TX_RESPONSE = ''TX_RESPONSE''"
| "DockerVMType_String GET_STATE_REQUEST = ''GET_STATE_REQUEST''"
| "DockerVMType_String GET_STATE_RESPONSE = ''GET_STATE_RESPONSE''"
| "DockerVMType_String GET_BYTECODE_REQUEST = ''GET_BYTECODE_REQUEST''"
| "DockerVMType_String GET_BYTECODE_RESPONSE = ''GET_BYTECODE_RESPONSE''"
| "DockerVMType_String CALL_CONTRACT_REQUEST = ''CALL_CONTRACT_REQUEST''"
| "DockerVMType_String CALL_CONTRACT_RESPONSE = ''CALL_CONTRACT_RESPONSE''"
| "DockerVMType_String COMPLETED = ''COMPLETED''"
| "DockerVMType_String ERROR = ''ERROR''"
| "DockerVMType_String CREATE_KV_ITERATOR_REQUEST = ''CREATE_KV_ITERATOR_REQUEST''"
| "DockerVMType_String CREATE_KV_ITERATOR_RESPONSE = ''CREATE_KV_ITERATOR_RESPONSE''"
| "DockerVMType_String CONSUME_KV_ITERATOR_REQUEST = ''CONSUME_KV_ITERATOR_REQUEST''"
| "DockerVMType_String CONSUME_KV_ITERATOR_RESPONSE = ''CONSUME_KV_ITERATOR_RESPONSE''"
| "DockerVMType_String CREATE_KEY_HISTORY_ITER_REQUEST = ''CREATE_KEY_HISTORY_ITER_REQUEST''"
| "DockerVMType_String CREATE_KEY_HISTORY_TER_RESPONSE = ''CREATE_KEY_HISTORY_TER_RESPONSE''"
| "DockerVMType_String CONSUME_KEY_HISTORY_ITER_REQUEST = ''CONSUME_KEY_HISTORY_ITER_REQUEST''"
| "DockerVMType_String CONSUME_KEY_HISTORY_ITER_RESPONSE = ''CONSUME_KEY_HISTORY_ITER_RESPONSE''"
| "DockerVMType_String GET_SENDER_ADDRESS_REQUEST = ''GET_SENDER_ADDRESS_REQUEST''"
| "DockerVMType_String GET_SENDER_ADDRESS_RESPONSE = ''GET_SENDER_ADDRESS_RESPONSE''"
| "DockerVMType_String GET_BATCH_STATE_REQUEST = ''GET_BATCH_STATE_REQUEST''"
| "DockerVMType_String GET_BATCH_STATE_RESPONSE = ''GET_BATCH_STATE_RESPONSE''"

text \<open>
  \<open>show_time sec nsec\<close> is the text of \<open>time.Unix(sec, nsec)\<close> in the local time zone.  The unit of
  the log lines is the two bytes of the Greek letter and an \<open>s\<close>.
\<close>

definition micro_s :: string where
  "micro_s = [CHR 0xCE, CHR 0xBC] @ ''s''"

definition sc_ToString :: "(int \<Rightarrow> int \<Rightarrow> string) \<Rightarrow> SysCallDuration option \<Rightarrow> string" where
  "sc_ToString show_time sc = (case sc of
       None \<Rightarrow> ''''
     | Some s \<Rightarrow> DockerVMType_String (sc_OpType s) @ '' start: '' @
         show_time (sc_StartTime s sdiv 1000000000) (sc_StartTime s smod 1000000000) @
         '', spend: '' @ Itoa (sc_TotalDuration s sdiv 1000) @ micro_s @
         '', r/w store: '' @ Itoa (sc_StorageDuration s sdiv 1000) @ micro_s @ ''; '')"

section \<open>Transactions\<close>

record TxDuration =
  td_OriginalTxId :: string
  td_TxId :: string
  td_StartTime :: int
  td_EndTime :: int
  td_TotalDuration :: int
  td_SysCallCnt :: int
  td_SysCallDuration :: int
  td_StorageDuration :: int
  td_ContingentSysCallCnt :: int
  td_ContingentSysCallDuration :: int
  td_CrossCallCnt :: int
  td_CrossCallDuration :: int
  td_SysCallList :: "nat list option"
  td_CrossCallList :: "nat list"
  td_Sealed :: bool

definition NewTxDuration :: "string \<Rightarrow> string \<Rightarrow> int \<Rightarrow> TxDuration" where
  "NewTxDuration originalTxId txId startTime =
     \<lparr>td_OriginalTxId = originalTxId, td_TxId = txId, td_StartTime = startTime, td_EndTime = 0,
      td_TotalDuration = 0, td_SysCallCnt = 0, td_SysCallDuration = 0, td_StorageDuration = 0,
      td_ContingentSysCallCnt = 0, td_ContingentSysCallDuration = 0, td_CrossCallCnt = 0,
      td_CrossCallDuration = 0, td_SysCallList = Some [], td_CrossCallList = [], td_Sealed = False\<rparr>"

definition td_ToString :: "TxDuration option \<Rightarrow> string" where
  "td_ToString td = (case td of
       None \<Rightarrow> ''''
     | Some e \<Rightarrow> td_TxId e @ '' spend time: '' @ Itoa (td_TotalDuration e sdiv 1000) @ micro_s @
         '', syscall: '' @ Itoa (td_SysCallDuration e sdiv 1000) @ micro_s @ ''(count: '' @ Itoa (td_SysCallCnt e) @
         ''), r/w store: '' @ Itoa (td_StorageDuration e sdiv 1000) @ micro_s @
         '', possible syscall: '' @ Itoa (td_ContingentSysCallDuration e sdiv 1000) @ micro_s @
         ''(count: '' @ Itoa (td_ContingentSysCallCnt e) @
         ''), cross contract: '' @ Itoa (td_CrossCallDuration e sdiv 1000) @ micro_s @
         ''(count: '' @ Itoa (td_CrossCallCnt e) @ '')'')"

text \<open>
  The store: the records of system calls, the transactions, and the pool of records.  Getting from
  the pool takes an arbitrary one of its pointers or, at its own choice, allocates a record;
  \<open>pick\<close> is that choice.
\<close>

record durs =
  d_calls :: "SysCallDuration list"
  d_txs :: "TxDuration list"
  sysCallPool :: "nat list"

definition pool_get :: "nat option \<Rightarrow> durs \<Rightarrow> nat \<times> durs" where
  "pool_get pick s = (case pick of
       Some i \<Rightarrow> if i < length (sysCallPool s)
         then (sysCallPool s ! i, s\<lparr>sysCallPool := take i (sysCallPool s) @ drop (Suc i) (sysCallPool s)\<rparr>)
         else (length (d_calls s), s\<lparr>d_calls := d_calls s @ [NewSysCallDuration UNDEFINED 0 0 0]\<rparr>)
     | None \<Rightarrow> (length (d_calls s), s\<lparr>d_calls := d_calls s @ [NewSysCallDuration UNDEFINED 0 0 0]\<rparr>))"

definition pool_put :: "nat \<Rightarrow> durs \<Rightarrow> durs" where
  "pool_put a s = s\<lparr>sysCallPool := sysCallPool s @ [a]\<rparr>"

definition slice_of :: "'a list option \<Rightarrow> 'a list" where
  "slice_of xs = (case xs of None \<Rightarrow> [] | Some ys \<Rightarrow> ys)"

definition upd_tx :: "nat \<Rightarrow> (TxDuration \<Rightarrow> TxDuration) \<Rightarrow> durs \<Rightarrow> durs" where
  "upd_tx t f s = s\<lparr>d_txs := (d_txs s)[t := f (d_txs s ! t)]\<rparr>"

definition upd_call :: "nat \<Rightarrow> (SysCallDuration \<Rightarrow> SysCallDuration) \<Rightarrow> durs \<Rightarrow> durs" where
  "upd_call a f s = s\<lparr>d_calls := (d_calls s)[a := f (d_calls s ! a)]\<rparr>"

definition new_tx :: "TxDuration \<Rightarrow> durs \<Rightarrow> nat \<times> durs" where
  "new_tx td s = (length (d_txs s), s\<lparr>d_txs := d_txs s @ [td]\<rparr>)"

definition StartSysCall :: "nat option \<Rightarrow> int \<Rightarrow> nat \<Rightarrow> DockerVMType \<Rightarrow> durs \<Rightarrow> durs" where
  "StartSysCall pick now e msgType s =
     (let (duration, s1) = pool_get pick s;
          s2 = upd_call duration (\<lambda>d. d\<lparr>sc_OpType := msgType, sc_StartTime := now,
                 sc_StorageDuration := 0, sc_TotalDuration := 0\<rparr>) s1
      in upd_tx e (\<lambda>t. t\<lparr>td_SysCallList := Some (slice_of (td_SysCallList t) @ [duration])\<rparr>) s2)"

definition GetLatestSysCall :: "nat \<Rightarrow> durs \<Rightarrow> nat res" where
  "GetLatestSysCall e s =
     (if slice_of (td_SysCallList (d_txs s ! e)) = [] then Inl ''sys call list length == 0''
      else Inr (last (slice_of (td_SysCallList (d_txs s ! e)))))"

definition AddLatestStorageDuration :: "nat \<Rightarrow> int \<Rightarrow> durs \<Rightarrow> durs \<times> error option" where
  "AddLatestStorageDuration e duration s = (case GetLatestSysCall e s of
       Inl err \<Rightarrow> (s, Some (''failed to get latest sys call, '' @ err))
     | Inr latestSysCall \<Rightarrow>
         (upd_call latestSysCall (\<lambda>d. d\<lparr>sc_StorageDuration := sc_StorageDuration d + duration\<rparr>) s, None))"

definition addSysCallDuration :: "SysCallDuration option \<Rightarrow> TxDuration \<Rightarrow> TxDuration" where
  "addSysCallDuration dur e = (case dur of
       None \<Rightarrow> e
     | Some duration \<Rightarrow>
         if sc_OpType duration = GET_BYTECODE_REQUEST then
           e\<lparr>td_ContingentSysCallCnt := td_ContingentSysCallCnt e + 1,
             td_ContingentSysCallDuration := td_ContingentSysCallDuration e + sc_TotalDuration duration,
             td_StorageDuration := td_StorageDuration e + sc_StorageDuration duration\<rparr>
         else if sc_OpType duration \<in> {GET_STATE_REQUEST, GET_BATCH_STATE_REQUEST,
             CREATE_KV_ITERATOR_REQUEST, CONSUME_KV_ITERATOR_REQUEST,
             CREATE_KEY_HISTORY_ITER_REQUEST, CONSUME_KEY_HISTORY_ITER_REQUEST, GET_SENDER_ADDRESS_REQUEST} then
           e\<lparr>td_SysCallCnt := td_SysCallCnt e + 1,
             td_SysCallDuration := td_SysCallDuration e + sc_TotalDuration duration,
             td_StorageDuration := td_StorageDuration e + sc_StorageDuration duration\<rparr>
         else if sc_OpType duration = CALL_CONTRACT_REQUEST then
           e\<lparr>td_CrossCallCnt := td_CrossCallCnt e + 1,
             td_CrossCallDuration := td_CrossCallDuration e + sc_TotalDuration duration\<rparr>
         else e)"

definition EndSysCall :: "int \<Rightarrow> nat \<Rightarrow> durs \<Rightarrow> durs \<times> error option" where
  "EndSysCall now e s = (case GetLatestSysCall e s of
       Inl err \<Rightarrow> (s, Some (''failed to get latest sys call, '' @ err))
     | Inr latestSysCall \<Rightarrow>
         (let s1 = upd_call latestSysCall (\<lambda>d. d\<lparr>sc_TotalDuration := now - sc_StartTime d\<rparr>) s
          in (upd_tx e (addSysCallDuration (Some (d_calls s1 ! latestSysCall))) s1, None)))"

definition td_Add :: "TxDuration option \<Rightarrow> TxDuration \<Rightarrow> TxDuration" where
  "td_Add txDuration e = (case txDuration of
       None \<Rightarrow> e
     | Some t \<Rightarrow> e\<lparr>td_TotalDuration := td_TotalDuration e + td_TotalDuration t,
         td_SysCallCnt := td_SysCallCnt e + td_SysCallCnt t,
         td_SysCallDuration := td_SysCallDuration e + td_SysCallDuration t,
         td_StorageDuration := td_StorageDuration e + td_StorageDuration t,
         td_ContingentSysCallCnt := td_ContingentSysCallCnt e + td_ContingentSysCallCnt t,
         td_ContingentSysCallDuration := td_ContingentSysCallDuration e + td_ContingentSysCallDuration t,
         td_CrossCallCnt := td_CrossCallCnt e + td_CrossCallCnt t,
         td_CrossCallDuration := td_CrossCallDuration e + td_CrossCallDuration t\<rparr>)"

definition AddContingentSysCall :: "int \<Rightarrow> TxDuration \<Rightarrow> TxDuration" where
  "AddContingentSysCall spend e =
     e\<lparr>td_ContingentSysCallCnt := td_ContingentSysCallCnt e + 1,
       td_ContingentSysCallDuration := td_ContingentSysCallDuration e + spend\<rparr>"

definition Seal :: "TxDuration \<Rightarrow> TxDuration" where
  "Seal e = e\<lparr>td_Sealed := True\<rparr>"

text \<open>
  The log of a transaction's system calls, with those of the contracts it called in their places.
  The rest of the loop over the list and the number of cross calls printed so far are arguments;
  a tree with a cycle would be printed for ever.
\<close>

partial_function (option) print_calls ::
  "(int \<Rightarrow> int \<Rightarrow> string) \<Rightarrow> durs \<Rightarrow> nat \<Rightarrow> nat list \<Rightarrow> nat \<Rightarrow> string option" where
  "print_calls show_time s e cs crossIndex = (case cs of
       [] \<Rightarrow> Some ''''
     | c # cs' \<Rightarrow>
         (let line = sc_ToString show_time (Some (d_calls s ! c));
              cross = td_CrossCallList (d_txs s ! e)
          in if sc_OpType (d_calls s ! c) = CALL_CONTRACT_REQUEST then
               if crossIndex < length cross then
                 (let x = cross ! crossIndex
                  in Option.bind (case td_SysCallList (d_txs s ! x) of
                         None \<Rightarrow> Some ''no syscalls'' | Some xs \<Rightarrow> print_calls show_time s x xs 0)
                     (\<lambda>details. Option.bind (print_calls show_time s e cs' (Suc crossIndex))
                        (\<lambda>rest. Some (line @ ''< details of the cross call from ['' @ td_TxId (d_txs s ! e) @ '']: '' @
                           details @ ''> '' @ rest))))
               else print_calls show_time s e cs' crossIndex
             else Option.bind (print_calls show_time s e cs' crossIndex) (\<lambda>rest. Some (line @ rest))))"

definition PrintSysCallList :: "(int \<Rightarrow> int \<Rightarrow> string) \<Rightarrow> durs \<Rightarrow> nat \<Rightarrow> string option" where
  "PrintSysCallList show_time s e = (case td_SysCallList (d_txs s ! e) of
       None \<Rightarrow> Some ''no syscalls''
     | Some cs \<Rightarrow> print_calls show_time s e cs 0)"

section \<open>Blocks\<close>

record BlockTxsDuration =
  bt_txs :: "(string, nat) gomap option"

definition td_unsealed :: "TxDuration list \<Rightarrow> nat \<Rightarrow> bool" where
  "td_unsealed h i \<longleftrightarrow> \<not> td_Sealed (h ! i)"

partial_function (option) getCallerNode :: "TxDuration list \<Rightarrow> nat \<Rightarrow> nat option" where
  "getCallerNode h e = (case List.find (td_unsealed h) (td_CrossCallList (h ! e)) of
       None \<Rightarrow> Some e
     | Some item \<Rightarrow> getCallerNode h item)"

declare getCallerNode.simps [code] print_calls.simps [code]

definition AddTxDuration :: "nat \<Rightarrow> BlockTxsDuration \<Rightarrow> durs \<Rightarrow> (BlockTxsDuration \<times> durs) option" where
  "AddTxDuration t b s =
     (let txs = slice_of (bt_txs b); orig = td_OriginalTxId (d_txs s ! t)
      in case map_of txs orig of
           None \<Rightarrow> Some (b\<lparr>bt_txs := Some (AList.update orig t txs)\<rparr>, s)
         | Some txDuration \<Rightarrow> (case getCallerNode (d_txs s) txDuration of
               None \<Rightarrow> None
             | Some callerNode \<Rightarrow> Some (b\<lparr>bt_txs := Some txs\<rparr>,
                 upd_tx callerNode (\<lambda>n. n\<lparr>td_CrossCallList := td_CrossCallList n @ [t]\<rparr>) s)))"

definition FinishTxDuration :: "nat \<Rightarrow> BlockTxsDuration \<Rightarrow> durs \<Rightarrow> durs" where
  "FinishTxDuration t b s = (case bt_txs b of
       None \<Rightarrow> s
     | Some txs \<Rightarrow> (case map_of txs (td_OriginalTxId (d_txs s ! t)) of
           None \<Rightarrow> s
         | Some txDuration \<Rightarrow>
             (let s1 = upd_tx txDuration (\<lambda>n. n\<lparr>td_SysCallCnt := td_SysCallCnt n + td_SysCallCnt (d_txs s ! t)\<rparr>) s;
                  s2 = upd_tx txDuration (\<lambda>n. n\<lparr>td_SysCallDuration := td_SysCallDuration n +
                         td_SysCallDuration (d_txs s1 ! t)\<rparr>) s1;
                  s3 = upd_tx txDuration (\<lambda>n. n\<lparr>td_ContingentSysCallCnt := td_ContingentSysCallCnt n +
                         td_ContingentSysCallCnt (d_txs s2 ! t)\<rparr>) s2;
                  s4 = upd_tx txDuration (\<lambda>n. n\<lparr>td_ContingentSysCallDuration := td_ContingentSysCallDuration n +
                         td_ContingentSysCallDuration (d_txs s3 ! t)\<rparr>) s3;
                  s5 = upd_tx txDuration (\<lambda>n. n\<lparr>td_CrossCallCnt := td_CrossCallCnt n +
                         td_CrossCallCnt (d_txs s4 ! t)\<rparr>) s4;
                  s6 = upd_tx txDuration (\<lambda>n. n\<lparr>td_CrossCallDuration := td_CrossCallDuration n +
                         td_CrossCallDuration (d_txs s5 ! t)\<rparr>) s5
              in fold pool_put (slice_of (td_SysCallList (d_txs s6 ! txDuration))) s6)))"

definition bt_ToString :: "durs \<Rightarrow> BlockTxsDuration option \<Rightarrow> string" where
  "bt_ToString s bt = (case bt of
       None \<Rightarrow> ''''
     | Some b \<Rightarrow> td_ToString (Some (fold (\<lambda>(k, tx). td_Add (Some (d_txs s ! tx))) (slice_of (bt_txs b))
                   (NewTxDuration '''' '''' 0))))"

record BlockTxsDurationMgr =
  blockDurations :: "(string, BlockTxsDuration) gomap"

definition NewBlockTxsDurationMgr :: BlockTxsDurationMgr where
  "NewBlockTxsDurationMgr = \<lparr>blockDurations = []\<rparr>"

definition PrintBlockTxsDuration :: "durs \<Rightarrow> string \<Rightarrow> BlockTxsDurationMgr \<Rightarrow> string" where
  "PrintBlockTxsDuration s i r = bt_ToString s (map_of (blockDurations r) i)"

definition AddBlockTxsDuration :: "string \<Rightarrow> BlockTxsDurationMgr \<Rightarrow> BlockTxsDurationMgr" where
  "AddBlockTxsDuration i r =
     (if map_of (blockDurations r) i = None
      then r\<lparr>blockDurations := AList.update i \<lparr>bt_txs = None\<rparr> (blockDurations r)\<rparr> else r)"

definition RemoveBlockTxsDuration :: "string \<Rightarrow> BlockTxsDurationMgr \<Rightarrow> BlockTxsDurationMgr" where
  "RemoveBlockTxsDuration i r = r\<lparr>blockDurations := AList.delete i (blockDurations r)\<rparr>"

definition AddTx ::
  "string \<Rightarrow> nat \<Rightarrow> BlockTxsDurationMgr \<Rightarrow> durs \<Rightarrow> (BlockTxsDurationMgr \<times> durs) option" where
  "AddTx i txTime r s = (case map_of (blockDurations r) i of
       None \<Rightarrow> Some (r, s)
     | Some b \<Rightarrow> (case AddTxDuration txTime b s of
           None \<Rightarrow> None
         | Some (b', s') \<Rightarrow> Some (r\<lparr>blockDurations := AList.update i b' (blockDurations r)\<rparr>, s')))"

definition FinishTx :: "string \<Rightarrow> nat \<Rightarrow> BlockTxsDurationMgr \<Rightarrow> durs \<Rightarrow> durs" where
  "FinishTx i txTime r s =
     (let s1 = upd_tx txTime Seal s
      in case map_of (blockDurations r) i of
           None \<Rightarrow> s1
         | Some b \<Rightarrow> FinishTxDuration txTime b s1)"

section \<open>Steps\<close>

text \<open>
  The step log of the runtime's copy of the helpers.  The slow limits of its configuration are in
  seconds.  The runtime ends a step at once only for the last step of its own.
\<close>

record SlowConfig =
  slow_Disable :: bool
  slow_StepTime :: int
  slow_TxTime :: int

definition rt_addTxStep :: "int \<Rightarrow> StepType \<Rightarrow> string \<Rightarrow> DockerVMMessage \<Rightarrow> DockerVMMessage" where
  "rt_addTxStep now stepType lg msg =
     msg\<lparr>m_StepDurations := m_StepDurations msg @
       [\<lparr>step_Type = stepType, step_StartTime = now, step_StepDuration = 0,
         step_UntilDuration = 0, step_Msg = lg\<rparr>]\<rparr>"

definition rt_endTxStep :: "int \<Rightarrow> int \<Rightarrow> DockerVMMessage \<Rightarrow> DockerVMMessage" where
  "rt_endTxStep now now' msg =
     (if m_StepDurations msg = [] then msg
      else let currStep = last (m_StepDurations msg); firstStep = hd (m_StepDurations msg);
               currStep' = currStep\<lparr>step_UntilDuration := now - step_StartTime firstStep,
                                    step_StepDuration := now' - step_StartTime currStep\<rparr>
        in msg\<lparr>m_StepDurations := butlast (m_StepDurations msg) @ [currStep']\<rparr>)"

definition rt_EnterNextStep ::
  "SlowConfig \<Rightarrow> (nat \<Rightarrow> int) \<Rightarrow> DockerVMMessage \<Rightarrow> StepType \<Rightarrow> string \<Rightarrow> DockerVMMessage" where
  "rt_EnterNextStep sl clk msg stepType str =
     (if slow_Disable sl then msg
      else let m1 = (if stepType \<noteq> RUNTIME_PREPARE_TX_REQUEST then rt_endTxStep (clk 0) (clk 1) msg else msg);
               m2 = rt_addTxStep (clk 2) stepType str m1
        in if stepType = RUNTIME_HANDLE_TX_RESPONSE then rt_endTxStep (clk 3) (clk 4) m2 else m2)"

definition rt_PrintTxStepsWithTime :: "SlowConfig \<Rightarrow> DockerVMMessage \<Rightarrow> slow_report option" where
  "rt_PrintTxStepsWithTime sl msg =
     (let steps = m_StepDurations msg
      in if steps = [] then None
         else if step_UntilDuration (last steps) > second * slow_TxTime sl then Some (SlowOverall steps)
         else map_option (\<lambda>st. SlowStep st steps)
                (List.find (\<lambda>st. step_StepDuration st > second * slow_StepTime sl) steps))"

text \<open>Apart from the engine's own last step, both copies of the helpers agree.\<close>

lemma rt_EnterNextStep_eq:
  assumes "stepType \<noteq> ENGINE_PROCESS_RECEIVE_TX_RESPONSE" "slow_Disable sl = Disable sl'"
  shows "rt_EnterNextStep sl clk msg stepType str = EnterNextStep sl' clk msg stepType str"
proof -
  have "rt_addTxStep = addTxStep" "rt_endTxStep = endTxStep"
    by (simp_all add: fun_eq_iff rt_addTxStep_def addTxStep_def rt_endTxStep_def endTxStep_def)
  with assms show ?thesis by (simp add: rt_EnterNextStep_def EnterNextStep_def Let_def)
qed

section \<open>Open calls\<close>

text \<open>
  What the tree of a transaction stands for: the stack of its open contract calls, the transaction
  itself at the bottom.  \<open>on_path\<close> says that the unsealed children along the stack are exactly
  the stack.
\<close>

abbreviation open_calls :: "TxDuration list \<Rightarrow> nat \<Rightarrow> nat list" where
  "open_calls h e \<equiv> filter (td_unsealed h) (td_CrossCallList (h ! e))"

fun on_path :: "TxDuration list \<Rightarrow> nat list \<Rightarrow> bool" where
  "on_path h [] = True"
| "on_path h [e] = (open_calls h e = [])"
| "on_path h (e # c # es) = (open_calls h e = [c] \<and> on_path h (c # es))"

lemma find_filter: "List.find P xs = (case filter P xs of [] \<Rightarrow> None | x # _ \<Rightarrow> Some x)"
  by (induction xs) auto

lemma getCallerNode_path: "on_path h (e # es) \<Longrightarrow> getCallerNode h e = Some (last (e # es))"
  by (induction es arbitrary: e) (subst getCallerNode.simps, simp add: find_filter)+

lemma on_path_cong:
  assumes "\<And>e. e \<in> set es \<Longrightarrow> open_calls h' e = open_calls h e"
  shows "on_path h' es = on_path h es"
  using assms by (induction h es rule: on_path.induct) auto

lemma on_path_snoc:
  assumes "on_path h (es @ [e])" "\<And>x. x \<in> set es \<Longrightarrow> open_calls h' x = open_calls h x"
    "open_calls h' e = [n]" "open_calls h' n = []"
  shows "on_path h' (es @ [e, n])"
  using assms by (induction es rule: induct_list012) auto

lemma on_path_butlast:
  assumes "on_path h (es @ [e, n])" "\<And>x. x \<in> set es \<Longrightarrow> open_calls h' x = open_calls h x" "open_calls h' e = []"
  shows "on_path h' (es @ [e])"
  using assms by (induction es rule: induct_list012) auto

lemma on_path_children:
  "on_path h es \<Longrightarrow> e \<in> set es \<Longrightarrow> set (open_calls h e) \<subseteq> set (tl es)"
  by (induction h es rule: on_path.induct) (auto simp del: set_filter)

type_synonym stacks = "string \<times> string \<Rightarrow> nat list"

text \<open>
  The runs of the statistics: blocks come and go, transactions of any block begin and end, nested
  within the same original transaction, and make system calls in any order.
\<close>

inductive dur_run :: "BlockTxsDurationMgr \<Rightarrow> durs \<Rightarrow> stacks \<Rightarrow> bool" where
  dr_init: "dur_run NewBlockTxsDurationMgr \<lparr>d_calls = [], d_txs = [], sysCallPool = []\<rparr> (\<lambda>_. [])"
| dr_add_block: "dur_run r s st \<Longrightarrow> dur_run (AddBlockTxsDuration i r) s st"
| dr_remove_block: "dur_run r s st \<Longrightarrow>
    dur_run (RemoveBlockTxsDuration i r) s (\<lambda>(j, orig). if j = i then [] else st (j, orig))"
| dr_unrecorded: "dur_run r s st \<Longrightarrow> dur_run r (snd (new_tx (NewTxDuration orig txId now) s)) st"
| dr_begin: "dur_run r s st \<Longrightarrow> new_tx (NewTxDuration orig txId now) s = (n, s1) \<Longrightarrow>
    map_of (blockDurations r) i \<noteq> None \<Longrightarrow> AddTx i n r s1 = Some (r', s2) \<Longrightarrow>
    dur_run r' s2 (st((i, orig) := st (i, orig) @ [n]))"
| dr_end_call: "dur_run r s st \<Longrightarrow> st (i, orig) = es @ [e, n] \<Longrightarrow>
    dur_run r (FinishTx i n r s) (st((i, orig) := es @ [e]))"
| dr_end_root: "dur_run r s st \<Longrightarrow> st (i, orig) = [n] \<Longrightarrow> dur_run r (FinishTx i n r s) st"
| dr_end_stale: "dur_run r s st \<Longrightarrow> \<forall>k. n \<notin> set (st k) \<Longrightarrow> dur_run r (FinishTx i n r s) st"
| dr_start: "dur_run r s st \<Longrightarrow> dur_run r (StartSysCall pick now e ty s) st"
| dr_storage: "dur_run r s st \<Longrightarrow> dur_run r (fst (AddLatestStorageDuration e d s)) st"
| dr_end: "dur_run r s st \<Longrightarrow> dur_run r (fst (EndSysCall now e s)) st"

text \<open>The invariant: every registered transaction has a stack that starts at its root.\<close>

definition roots :: "BlockTxsDurationMgr \<Rightarrow> string \<times> string \<Rightarrow> nat option" where
  "roots r k = Option.bind (map_of (blockDurations r) (fst k)) (\<lambda>b. map_of (slice_of (bt_txs b)) (snd k))"

definition dur_inv :: "BlockTxsDurationMgr \<Rightarrow> durs \<Rightarrow> stacks \<Rightarrow> bool" where
  "dur_inv r s st \<longleftrightarrow>
     (\<forall>k. on_path (d_txs s) (st k) \<and> distinct (st k) \<and> set (st k) \<subseteq> {..<length (d_txs s)}) \<and>
     (\<forall>k. roots r k = (case st k of [] \<Rightarrow> None | n # _ \<Rightarrow> Some n)) \<and>
     (\<forall>k k'. k \<noteq> k' \<longrightarrow> set (st k) \<inter> set (st k') = {}) \<and>
     (\<forall>e < length (d_txs s). set (td_CrossCallList (d_txs s ! e)) \<subseteq> {..<length (d_txs s)})"

lemma invI:
  assumes "\<And>k. on_path (d_txs s) (st k)" "\<And>k. distinct (st k)" "\<And>k. set (st k) \<subseteq> {..<length (d_txs s)}"
    "\<And>k. roots r k = (case st k of [] \<Rightarrow> None | n # _ \<Rightarrow> Some n)"
    "\<And>k k'. k \<noteq> k' \<Longrightarrow> set (st k) \<inter> set (st k') = {}"
    "\<And>e. e < length (d_txs s) \<Longrightarrow> set (td_CrossCallList (d_txs s ! e)) \<subseteq> {..<length (d_txs s)}"
  shows "dur_inv r s st"
  using assms unfolding dur_inv_def by simp

text \<open>Most operations change counters only.\<close>

definition same_tree :: "TxDuration list \<Rightarrow> TxDuration list \<Rightarrow> bool" where
  "same_tree h h' \<longleftrightarrow> length h' = length h \<and>
     (\<forall>e. td_Sealed (h' ! e) = td_Sealed (h ! e) \<and> td_CrossCallList (h' ! e) = td_CrossCallList (h ! e) \<and>
        td_OriginalTxId (h' ! e) = td_OriginalTxId (h ! e))"

lemma same_tree_refl [simp]: "same_tree h h"
  by (simp add: same_tree_def)

lemma same_tree_trans: "same_tree h h' \<Longrightarrow> same_tree h' h'' \<Longrightarrow> same_tree h h''"
  by (simp add: same_tree_def)

lemma upd_tx_same:
  assumes "\<And>n. td_Sealed (f n) = td_Sealed n" "\<And>n. td_CrossCallList (f n) = td_CrossCallList n"
    "\<And>n. td_OriginalTxId (f n) = td_OriginalTxId n"
  shows "same_tree (d_txs s) (d_txs (upd_tx t f s))"
  using assms by (cases "t < length (d_txs s)") (auto simp: same_tree_def upd_tx_def nth_list_update not_less list_update_beyond)

lemma pool_puts [simp]:
  "d_txs (fold pool_put as s) = d_txs s" "d_calls (fold pool_put as s) = d_calls s"
  "sysCallPool (fold pool_put as s) = sysCallPool s @ as"
  by (induction as arbitrary: s) (simp_all add: pool_put_def)

lemma pool_get_txs [simp]: "d_txs (snd (pool_get pick s)) = d_txs s"
  by (simp add: pool_get_def split: option.split)

lemma upd_call_txs [simp]: "d_txs (upd_call a f s) = d_txs s"
  by (simp add: upd_call_def)

lemma addSysCallDuration_frame [simp]:
  "td_Sealed (addSysCallDuration d e) = td_Sealed e"
  "td_CrossCallList (addSysCallDuration d e) = td_CrossCallList e"
  "td_OriginalTxId (addSysCallDuration d e) = td_OriginalTxId e"
  by (simp_all add: addSysCallDuration_def split: option.split)

lemma upd_tx_same_from:
  "(\<And>n. td_Sealed (f n) = td_Sealed n \<and> td_CrossCallList (f n) = td_CrossCallList n \<and> td_OriginalTxId (f n) = td_OriginalTxId n) \<Longrightarrow>
   d_txs s1 = d_txs s \<Longrightarrow> same_tree (d_txs s) (d_txs (upd_tx t f s1))"
  using upd_tx_same[of f s1 t] by simp

lemma StartSysCall_same: "same_tree (d_txs s) (d_txs (StartSysCall pick now e ty s))"
  by (auto simp: StartSysCall_def Let_def case_prod_beta intro!: upd_tx_same_from)

lemma AddLatest_same: "same_tree (d_txs s) (d_txs (fst (AddLatestStorageDuration e d s)))"
  by (simp add: AddLatestStorageDuration_def split: sum.split)

lemma EndSysCall_same: "same_tree (d_txs s) (d_txs (fst (EndSysCall now e s)))"
  by (auto simp: EndSysCall_def Let_def intro!: upd_tx_same_from split: sum.split)

lemma FinishTxDuration_same: "same_tree (d_txs s) (d_txs (FinishTxDuration t b s))"
  by (auto simp: FinishTxDuration_def Let_def upd_tx_same
      intro!: same_tree_trans[OF _ upd_tx_same] split: option.split)

lemma FinishTx_same: "same_tree (d_txs (upd_tx t Seal s)) (d_txs (FinishTx i t r s))"
  by (simp add: FinishTx_def Let_def FinishTxDuration_same split: option.split)

lemma same_tree_open: "same_tree h h' \<Longrightarrow> open_calls h' e = open_calls h e"
  by (simp add: same_tree_def td_unsealed_def[abs_def])

lemma same_tree_inv:
  assumes "dur_inv r s st" "same_tree (d_txs s) (d_txs s')"
  shows "dur_inv r s' st"
proof -
  have "on_path (d_txs s') (st k) = on_path (d_txs s) (st k)" for k
    by (rule on_path_cong) (rule same_tree_open[OF assms(2)])
  then show ?thesis using assms by (simp add: dur_inv_def same_tree_def)
qed

lemma dur_invD:
  assumes "dur_inv r s st"
  shows "on_path (d_txs s) (st k)" "distinct (st k)" "e \<in> set (st k) \<Longrightarrow> e < length (d_txs s)"
    "roots r k = (case st k of [] \<Rightarrow> None | n # _ \<Rightarrow> Some n)"
    "k \<noteq> k' \<Longrightarrow> set (st k) \<inter> set (st k') = {}"
    "e < length (d_txs s) \<Longrightarrow> c \<in> set (td_CrossCallList (d_txs s ! e)) \<Longrightarrow> c < length (d_txs s)"
  using assms unfolding dur_inv_def by blast+

lemma open_calls_append:
  assumes "dur_inv r s st" "e < length (d_txs s)"
  shows "open_calls (d_txs s @ [td]) e = open_calls (d_txs s) e"
  using assms(2) dur_invD(6)[OF assms] by (auto simp: nth_append td_unsealed_def intro!: filter_cong)

lemma new_tx_inv:
  assumes "dur_inv r s st" "td_CrossCallList td = []"
  shows "dur_inv r (s\<lparr>d_txs := d_txs s @ [td]\<rparr>) st"
proof (rule invI)
  fix k
  have "on_path (d_txs s @ [td]) (st k) = on_path (d_txs s) (st k)"
    by (rule on_path_cong, rule open_calls_append[OF assms(1)]) (use dur_invD(3)[OF assms(1)] in blast)
  then show "on_path (d_txs (s\<lparr>d_txs := d_txs s @ [td]\<rparr>)) (st k)" using dur_invD(1)[OF assms(1)] by simp
  show "set (st k) \<subseteq> {..<length (d_txs (s\<lparr>d_txs := d_txs s @ [td]\<rparr>))}"
    using dur_invD(3)[OF assms(1), of _ k] by (fastforce intro: less_SucI)
next
  fix e assume "e < length (d_txs (s\<lparr>d_txs := d_txs s @ [td]\<rparr>))"
  then show "set (td_CrossCallList (d_txs (s\<lparr>d_txs := d_txs s @ [td]\<rparr>) ! e)) \<subseteq>
      {..<length (d_txs (s\<lparr>d_txs := d_txs s @ [td]\<rparr>))}"
    using dur_invD(6)[OF assms(1)] assms(2) less_SucI by (auto simp: nth_append less_Suc_eq)
qed (use dur_invD[OF assms(1)] in simp_all)

lemma add_call_inv:
  assumes inv: "dur_inv r s st" and st: "st k = es @ [e]" and n: "n < length (d_txs s)" "\<forall>k. n \<notin> set (st k)"
    and nd: "td_CrossCallList (d_txs s ! n) = []" "\<not> td_Sealed (d_txs s ! n)"
  defines "s' \<equiv> upd_tx e (\<lambda>x. x\<lparr>td_CrossCallList := td_CrossCallList x @ [n]\<rparr>) s"
  shows "dur_inv r s' (st(k := es @ [e, n]))"
proof -
  have "e \<in> set (st k)" using st by simp
  then have e: "e < length (d_txs s)" "e \<noteq> n" using dur_invD(3)[OF inv, of e k] n(2) by blast+
  have un: "td_unsealed (d_txs s') = td_unsealed (d_txs s)"
    using e by (auto simp: s'_def upd_tx_def td_unsealed_def fun_eq_iff nth_list_update)
  have other: "open_calls (d_txs s') x = open_calls (d_txs s) x" if "x \<noteq> e" for x
    using that un by (simp add: s'_def upd_tx_def)
  have "open_calls (d_txs s) e = []" using dur_invD(1)[OF inv, of k] unfolding st
    by (induction es rule: induct_list012) auto
  then have at_e: "open_calls (d_txs s') e = [n]"
    using e nd un by (simp add: s'_def upd_tx_def td_unsealed_def)
  have at_n: "open_calls (d_txs s') n = []" using other[of n] e nd by simp
  have dist: "distinct (es @ [e])" using dur_invD(2)[OF inv, of k] st by simp
  show ?thesis
  proof (rule invI)
    fix j
    show "on_path (d_txs s') ((st(k := es @ [e, n])) j)"
    proof (cases "j = k")
      case True
      have "on_path (d_txs s') (es @ [e, n])"
        by (rule on_path_snoc[OF _ other at_e at_n]) (use dur_invD(1)[OF inv, of k] st dist in auto)
      then show ?thesis using True by simp
    next
      case False
      have "on_path (d_txs s') (st j) = on_path (d_txs s) (st j)"
        by (rule on_path_cong, rule other) (use dur_invD(5)[OF inv False] st in auto)
      then show ?thesis using False dur_invD(1)[OF inv] by simp
    qed
  next
    fix j show "roots r j = (case (st(k := es @ [e, n])) j of [] \<Rightarrow> None | n # _ \<Rightarrow> Some n)"
      using dur_invD(4)[OF inv, of j] st by (cases es) auto
  next
    fix x assume "x < length (d_txs s')"
    then show "set (td_CrossCallList (d_txs s' ! x)) \<subseteq> {..<length (d_txs s')}"
      using dur_invD(6)[OF inv] n(1) e by (auto simp: s'_def upd_tx_def nth_list_update split: if_splits)
  next
    fix j j' :: "string \<times> string" assume "j \<noteq> j'"
    then show "set ((st(k := es @ [e, n])) j) \<inter> set ((st(k := es @ [e, n])) j') = {}"
      using dur_invD(5)[OF inv, of j j'] st n(2)[THEN spec, of j] n(2)[THEN spec, of j'] by auto
  next
    fix j show "set ((st(k := es @ [e, n])) j) \<subseteq> {..<length (d_txs s')}"
      using dur_invD(3)[OF inv, of _ j] st n(1) by (auto simp: s'_def upd_tx_def)
    have "n \<notin> set (st k)" using n(2) by blast
    then show "distinct ((st(k := es @ [e, n])) j)"
      using dur_invD(2)[OF inv, of j] dist st by auto
  qed
qed

lemma seal_fields [simp]:
  "td_CrossCallList (d_txs (upd_tx n Seal s) ! x) = td_CrossCallList (d_txs s ! x)"
  "length (d_txs (upd_tx n Seal s)) = length (d_txs s)"
  by (cases "n < length (d_txs s)")
    (simp_all add: upd_tx_def Seal_def nth_list_update not_less list_update_beyond)

lemma seal_open:
  "n \<notin> set (open_calls (d_txs s) x) \<Longrightarrow> open_calls (d_txs (upd_tx n Seal s)) x = open_calls (d_txs s) x"
  by (cases "n < length (d_txs s)")
    (auto simp: upd_tx_def Seal_def td_unsealed_def nth_list_update not_less list_update_beyond
      intro!: filter_cong split: if_splits)

lemma not_open_call:
  assumes "dur_inv r s st" "x \<in> set (st j)" "n \<notin> set (st j)"
  shows "n \<notin> set (open_calls (d_txs s) x)"
proof -
  have "set (open_calls (d_txs s) x) \<subseteq> set (tl (st j))"
    by (rule on_path_children[OF dur_invD(1)[OF assms(1)] assms(2)])
  then show ?thesis using assms(3) by (cases "st j") (auto simp del: set_filter)
qed

lemma path_end:
  "on_path h (es @ [e, n]) \<Longrightarrow> distinct (es @ [e, n]) \<Longrightarrow>
     open_calls h e = [n] \<and> (\<forall>x \<in> set es. n \<notin> set (open_calls h x))"
  by (induction es rule: induct_list012) (auto simp del: set_filter)

lemma seal_frame:
  assumes inv: "dur_inv r s st" and "\<And>j. j \<noteq> k \<Longrightarrow> n \<notin> set (st j)" "\<And>j. j \<noteq> k \<Longrightarrow> st' j = st j"
    and "on_path (d_txs (upd_tx n Seal s)) (st' k)" "distinct (st' k)" "set (st' k) \<subseteq> set (st k)"
      "st' k = [] \<longleftrightarrow> st k = []" "st k \<noteq> [] \<Longrightarrow> hd (st' k) = hd (st k)"
  shows "dur_inv r (upd_tx n Seal s) st'"
proof (rule invI)
  fix j show "on_path (d_txs (upd_tx n Seal s)) (st' j)"
  proof (cases "j = k")
    case False
    have "on_path (d_txs (upd_tx n Seal s)) (st j) = on_path (d_txs s) (st j)"
      by (rule on_path_cong, rule seal_open, rule not_open_call[OF inv _ assms(2)[OF False]])
    then show ?thesis using dur_invD(1)[OF inv] assms(3)[OF False] by simp
  qed (use assms(4) in simp)
next
  fix j show "roots r j = (case st' j of [] \<Rightarrow> None | n # _ \<Rightarrow> Some n)"
    using dur_invD(4)[OF inv, of j] assms(3)[of j] assms(7,8) by (cases "j = k") (auto split: list.splits)
next
  fix j j' :: "string \<times> string" assume "j \<noteq> j'"
  then show "set (st' j) \<inter> set (st' j') = {}"
    using dur_invD(5)[OF inv, of j j'] assms(3)[of j] assms(3)[of j'] assms(6) by (cases "j = k"; cases "j' = k") auto
next
  fix j show "set (st' j) \<subseteq> {..<length (d_txs (upd_tx n Seal s))}"
    using dur_invD(3)[OF inv, of _ j] assms(3)[of j] assms(6) by (cases "j = k") (auto simp: upd_tx_def)
next
  fix j show "distinct (st' j)" using dur_invD(2)[OF inv, of j] assms(3)[of j] assms(5) by (cases "j = k") auto
next
  fix x assume "x < length (d_txs (upd_tx n Seal s))"
  then show "set (td_CrossCallList (d_txs (upd_tx n Seal s) ! x)) \<subseteq> {..<length (d_txs (upd_tx n Seal s))}"
    using dur_invD(6)[OF inv, of x] by auto
qed

lemma end_call_inv:
  assumes inv: "dur_inv r s st" and st: "st k = es @ [e, n]"
  shows "dur_inv r (FinishTx i n r s) (st(k := es @ [e]))"
proof (rule same_tree_inv[OF seal_frame[OF inv] FinishTx_same])
  have d: "distinct (es @ [e, n])" and p: "on_path (d_txs s) (es @ [e, n])"
    using dur_invD(1,2)[OF inv, of k] st by simp_all
  have e: "open_calls (d_txs s) e = [n]" and es: "\<And>x. x \<in> set es \<Longrightarrow> n \<notin> set (open_calls (d_txs s) x)"
    using path_end[OF p d] by blast+
  have n: "n < length (d_txs s)" using dur_invD(3)[OF inv, of n k] st by simp
  have "open_calls (d_txs (upd_tx n Seal s)) e = filter (td_unsealed (d_txs (upd_tx n Seal s))) (open_calls (d_txs s) e)"
    using n by (auto simp: upd_tx_def Seal_def td_unsealed_def nth_list_update intro!: filter_cong)
  then have "open_calls (d_txs (upd_tx n Seal s)) e = []"
    using n unfolding e by (simp add: upd_tx_def Seal_def td_unsealed_def)
  from on_path_butlast[OF p seal_open[OF es] this]
  show "on_path (d_txs (upd_tx n Seal s)) ((st(k := es @ [e])) k)" by simp
  show "n \<notin> set (st j)" if "j \<noteq> k" for j using dur_invD(5)[OF inv that] st by auto
qed (use dur_invD(2)[OF inv, of k] st in \<open>auto simp: hd_append\<close>)

lemma end_root_inv:
  assumes inv: "dur_inv r s st" and st: "st k = [n]"
  shows "dur_inv r (FinishTx i n r s) st"
proof (rule same_tree_inv[OF seal_frame[OF inv] FinishTx_same])
  have "open_calls (d_txs s) n = []" using dur_invD(1)[OF inv, of k] st by simp
  then show "on_path (d_txs (upd_tx n Seal s)) (st k)" using seal_open[of n s n] st by simp
  show "n \<notin> set (st j)" if "j \<noteq> k" for j using dur_invD(5)[OF inv that] st by auto
qed (use st in auto)

lemma end_stale_inv:
  assumes inv: "dur_inv r s st" and st: "\<And>k. n \<notin> set (st k)"
  shows "dur_inv r (FinishTx i n r s) st"
proof (rule same_tree_inv[OF seal_frame[OF inv, of undefined] FinishTx_same])
  have "on_path (d_txs (upd_tx n Seal s)) (st undefined) = on_path (d_txs s) (st undefined)"
    by (rule on_path_cong, rule seal_open, rule not_open_call[OF inv _ st])
  then show "on_path (d_txs (upd_tx n Seal s)) (st undefined)" using dur_invD(1)[OF inv] by simp
qed (use st dur_invD(2)[OF inv] in auto)

lemma roots_inv: "dur_inv r s st \<Longrightarrow> roots r' = roots r \<Longrightarrow> dur_inv r' s st"
  by (simp add: dur_inv_def)

lemma add_root_inv:
  assumes inv: "dur_inv r s st" and st: "st k = []" and n: "n < length (d_txs s)" "\<forall>k. n \<notin> set (st k)"
    and nd: "td_CrossCallList (d_txs s ! n) = []" and r': "roots r' = (roots r)(k := Some n)"
  shows "dur_inv r' s (st(k := [n]))"
proof (rule invI)
  fix j j' :: "string \<times> string" assume "j \<noteq> j'"
  then show "set ((st(k := [n])) j) \<inter> set ((st(k := [n])) j') = {}"
    using dur_invD(5)[OF inv, of j j'] n(2)[THEN spec, of j] n(2)[THEN spec, of j'] by auto
next
  fix j show "set ((st(k := [n])) j) \<subseteq> {..<length (d_txs s)}"
    using dur_invD(3)[OF inv, of _ j] n(1) by auto
qed (use dur_invD(1,2,4,6)[OF inv] nd in \<open>auto simp: r'\<close>)

lemma roots_update:
  assumes "map_of (blockDurations r) i = Some b"
  shows "roots (r\<lparr>blockDurations := AList.update i (b\<lparr>bt_txs := Some (slice_of (bt_txs b))\<rparr>) (blockDurations r)\<rparr>) = roots r"
    "roots (r\<lparr>blockDurations := AList.update i (b\<lparr>bt_txs := Some (AList.update orig n (slice_of (bt_txs b)))\<rparr>)
       (blockDurations r)\<rparr>) = (roots r)((i, orig) := Some n)"
  using assms by (auto simp: roots_def fun_eq_iff update_conv' slice_of_def)

lemma begin_inv:
  assumes inv: "dur_inv r s st" and new: "new_tx (NewTxDuration orig txId now) s = (n, s1)"
    and b: "map_of (blockDurations r) i = Some b" and add: "AddTx i n r s1 = Some (r', s2)"
  shows "dur_inv r' s2 (st((i, orig) := st (i, orig) @ [n]))"
proof -
  have s1: "s1 = s\<lparr>d_txs := d_txs s @ [NewTxDuration orig txId now]\<rparr>" and n: "n = length (d_txs s)"
    using new by (auto simp: new_tx_def)
  have inv1: "dur_inv r s1 st" unfolding s1 by (rule new_tx_inv[OF inv]) (simp add: NewTxDuration_def)
  have node: "d_txs s1 ! n = NewTxDuration orig txId now" "n < length (d_txs s1)" by (simp_all add: s1 n)
  have fresh: "\<forall>k. n \<notin> set (st k)" using dur_invD(3)[OF inv] n by blast
  note nf = NewTxDuration_def node
  show ?thesis
  proof (cases "map_of (slice_of (bt_txs b)) orig")
    case None
    then have "st (i, orig) = []" using dur_invD(4)[OF inv, of "(i, orig)"] b by (auto simp: roots_def split: list.splits)
    moreover have "s2 = s1" "r' = r\<lparr>blockDurations := AList.update i
        (b\<lparr>bt_txs := Some (AList.update orig n (slice_of (bt_txs b)))\<rparr>) (blockDurations r)\<rparr>"
      using add None by (auto simp: AddTx_def AddTxDuration_def b nf Let_def)
    ultimately show ?thesis
      using add_root_inv[OF inv1 _ node(2) fresh _ roots_update(2)[OF b]] by (simp add: nf)
  next
    case (Some root)
    then obtain es where es: "st (i, orig) = root # es"
      using dur_invD(4)[OF inv, of "(i, orig)"] b by (auto simp: roots_def split: list.splits)
    then obtain es' e where e: "st (i, orig) = es' @ [e]" by (metis rev_exhaust list.distinct(1))
    have "last (root # es) = e" using es e by (metis last_snoc)
    then have "getCallerNode (d_txs s1) root = Some e"
      using getCallerNode_path[of "d_txs s1" root es] dur_invD(1)[OF inv1, of "(i, orig)"] es by simp
    with add Some have "r' = r\<lparr>blockDurations := AList.update i (b\<lparr>bt_txs := Some (slice_of (bt_txs b))\<rparr>) (blockDurations r)\<rparr>"
      "s2 = upd_tx e (\<lambda>x. x\<lparr>td_CrossCallList := td_CrossCallList x @ [n]\<rparr>) s1"
      by (auto simp: AddTx_def AddTxDuration_def b nf Let_def)
    with roots_inv[OF add_call_inv[OF inv1 e node(2) fresh] roots_update(1)[OF b]] e show ?thesis
      by (simp add: nf)
  qed
qed

lemma run_dur_inv: "dur_run r s st \<Longrightarrow> dur_inv r s st"
proof (induction rule: dur_run.induct)
  case (dr_begin r s st orig txId now n s1 i r' s2)
  then show ?case using begin_inv by blast
next
  case (dr_remove_block r s st i)
  show ?case
  proof (rule invI)
    fix j j' :: "string \<times> string" assume "j \<noteq> j'"
    with dur_invD(5)[OF dr_remove_block(2), of j j']
    show "set (case j of (j, orig) \<Rightarrow> if j = i then [] else st (j, orig)) \<inter>
        set (case j' of (j, orig) \<Rightarrow> if j = i then [] else st (j, orig)) = {}"
      by (auto split: prod.splits if_splits)
  qed (use dur_invD(1-4,6)[OF dr_remove_block(2)] in
      \<open>auto simp: roots_def RemoveBlockTxsDuration_def delete_conv' split: if_splits\<close>)
next
  case (dr_unrecorded r s st orig txId now)
  then show ?case by (simp add: new_tx_def new_tx_inv NewTxDuration_def)
next
  case (dr_end_stale r s st n i)
  then show ?case using end_stale_inv by blast
next
  case (dr_add_block r s st i)
  have "roots (AddBlockTxsDuration i r) = roots r"
    by (auto simp: roots_def AddBlockTxsDuration_def fun_eq_iff update_conv' slice_of_def)
  with dr_add_block show ?case using roots_inv by blast
next
  case dr_init
  show ?case by (simp add: dur_inv_def roots_def NewBlockTxsDurationMgr_def)
qed (blast intro: end_call_inv end_root_inv same_tree_inv StartSysCall_same AddLatest_same EndSysCall_same)+

text \<open>A block with a transaction, the contract it called, and a second transaction.\<close>

definition sample_begin :: "string \<Rightarrow> string \<Rightarrow> BlockTxsDurationMgr \<times> durs \<Rightarrow> BlockTxsDurationMgr \<times> durs" where
  "sample_begin orig txId rs =
     (case AddTx ''block'' (length (d_txs (snd rs))) (fst rs) (snd (new_tx (NewTxDuration orig txId 0) (snd rs)))
      of Some rs' \<Rightarrow> rs' | None \<Rightarrow> rs)"

definition sample_block :: "BlockTxsDurationMgr \<times> durs" where
  "sample_block = (AddBlockTxsDuration ''block'' NewBlockTxsDurationMgr, \<lparr>d_calls = [], d_txs = [], sysCallPool = []\<rparr>)"

definition sample_root :: "BlockTxsDurationMgr \<times> durs" where
  "sample_root = (case sample_begin ''tx'' ''tx#1'' sample_block of
     (r, s) \<Rightarrow> (r, StartSysCall None 5 0 CALL_CONTRACT_REQUEST s))"

definition sample_call :: "BlockTxsDurationMgr \<times> durs" where
  "sample_call = sample_begin ''tx'' ''tx#2'' sample_root"

definition sample_two :: "BlockTxsDurationMgr \<times> durs" where
  "sample_two = sample_begin ''other'' ''other#3'' sample_call"

lemma begin_run:
  assumes "dur_run (fst rs) (snd rs) st" "map_of (blockDurations (fst rs)) ''block'' \<noteq> None"
    "AddTx ''block'' (length (d_txs (snd rs))) (fst rs) (snd (new_tx (NewTxDuration orig txId 0) (snd rs))) \<noteq> None"
  shows "dur_run (fst (sample_begin orig txId rs)) (snd (sample_begin orig txId rs))
    (st((''block'', orig) := st (''block'', orig) @ [length (d_txs (snd rs))]))"
  using assms dr_begin[OF assms(1) _ assms(2), of orig txId 0]
  by (auto simp: sample_begin_def new_tx_def)

section \<open>Properties\<close>

text \<open>
  C13: the tree of a transaction keeps its stack of open contract calls.  However blocks and
  transactions come, go and make system calls, looking for the caller of a new contract call ends
  and finds the innermost open call of the transaction.
\<close>

theorem caller_is_innermost_call:
  assumes "dur_run r s st" "map_of (blockDurations r) i = Some b" "map_of (slice_of (bt_txs b)) orig = Some root"
  shows "st (i, orig) \<noteq> [] \<and> getCallerNode (d_txs s) root = Some (last (st (i, orig)))"
proof -
  have inv: "dur_inv r s st" by (rule run_dur_inv[OF assms(1)])
  obtain es where "st (i, orig) = root # es"
    using dur_invD(4)[OF inv, of "(i, orig)"] assms(2,3) by (auto simp: roots_def split: list.splits)
  then show ?thesis using getCallerNode_path dur_invD(1)[OF inv, of "(i, orig)"] by simp
qed

theorem caller_is_innermost_call_witness:
  "getCallerNode (d_txs (snd sample_call)) 0 = Some 1"
proof -
  let ?st = "(\<lambda>_. [])((''block'', ''tx'') := [0])"
  have "dur_run (fst sample_block) (snd sample_block) (\<lambda>_. [])"
    unfolding sample_block_def by (simp add: dr_add_block dr_init)
  then have "dur_run (fst (sample_begin ''tx'' ''tx#1'' sample_block)) (snd (sample_begin ''tx'' ''tx#1'' sample_block))
      ((\<lambda>_. [])((''block'', ''tx'') := [] @ [length (d_txs (snd sample_block))]))"
    by (rule begin_run) code_simp+
  then have "dur_run (fst sample_root) (snd sample_root) ?st"
    using dr_start by (simp add: sample_root_def sample_block_def case_prod_beta)
  then have run: "dur_run (fst sample_call) (snd sample_call)
      (?st((''block'', ''tx'') := ?st (''block'', ''tx'') @ [length (d_txs (snd sample_root))]))"
    unfolding sample_call_def by (rule begin_run) code_simp+
  have len: "length (d_txs (snd sample_root)) = 1" by code_simp
  have b: "map_of (blockDurations (fst sample_call)) ''block'' = Some \<lparr>bt_txs = Some [(''tx'', 0)]\<rparr>"
    by code_simp
  show ?thesis using caller_is_innermost_call[OF run b, of "''tx''" 0] len by (simp add: slice_of_def)
qed

text \<open>
  C32: the statistics count a transaction twice.  When the transaction that started a tree
  finishes, it is its own root, and its counters are added to themselves; only the storage time
  is left as it was.
\<close>

theorem root_counted_twice:
  assumes "map_of (blockDurations r) i = Some b" "map_of (slice_of (bt_txs b)) (td_OriginalTxId (d_txs s ! t)) = Some t"
    "t < length (d_txs s)"
  shows "td_SysCallCnt (d_txs (FinishTx i t r s) ! t) = 2 * td_SysCallCnt (d_txs s ! t) \<and>
    td_SysCallDuration (d_txs (FinishTx i t r s) ! t) = 2 * td_SysCallDuration (d_txs s ! t) \<and>
    td_ContingentSysCallCnt (d_txs (FinishTx i t r s) ! t) = 2 * td_ContingentSysCallCnt (d_txs s ! t) \<and>
    td_CrossCallCnt (d_txs (FinishTx i t r s) ! t) = 2 * td_CrossCallCnt (d_txs s ! t) \<and>
    td_StorageDuration (d_txs (FinishTx i t r s) ! t) = td_StorageDuration (d_txs s ! t)"
proof -
  obtain txs where "bt_txs b = Some txs" using assms(2) by (cases "bt_txs b") (auto simp: slice_of_def)
  then show ?thesis using assms
    by (simp add: FinishTx_def FinishTxDuration_def upd_tx_def Seal_def slice_of_def)
qed

theorem root_counted_twice_witness:
  "td_CrossCallCnt (d_txs (FinishTx ''block'' 0 (fst sample_root) (fst (EndSysCall 9 0 (snd sample_root)))) ! 0) = 2"
proof -
  let ?s = "fst (EndSysCall 9 0 (snd sample_root))"
  have "map_of (blockDurations (fst sample_root)) ''block'' = Some \<lparr>bt_txs = Some [(''tx'', 0)]\<rparr>"
    "map_of (slice_of (bt_txs \<lparr>bt_txs = Some [(''tx'', 0)]\<rparr>)) (td_OriginalTxId (d_txs ?s ! 0)) = Some 0"
    "0 < length (d_txs ?s)" "td_CrossCallCnt (d_txs ?s ! 0) = 1"
    by code_simp+
  with root_counted_twice[OF this(1-3)] show ?thesis by simp
qed

text \<open>
  C33: a contract call can lose its record.  When a called contract finishes, the records of the
  root's system calls return to the pool, the one of the call in progress among them.  If another
  transaction then starts a system call with that record, both hold the same record, and the end
  of the contract call is counted as a system call of the other's type, from the other's start.
\<close>

theorem cross_call_record_lost:
  assumes "map_of (blockDurations r) i = Some b" "map_of (slice_of (bt_txs b)) (td_OriginalTxId (d_txs s ! c)) = Some root"
    "td_SysCallList (d_txs s ! root) = Some (cs @ [a])" "a < length (d_calls s)" "distinct [root, c, u]"
    "{root, c, u} \<subseteq> {..<length (d_txs s)}"
    and s1: "s1 = FinishTx i c r s"
    and s2: "s2 = StartSysCall (Some (length (sysCallPool s) + length cs)) start u GET_STATE_REQUEST s1"
    and s3: "s3 = fst (EndSysCall now root s2)"
  shows "GetLatestSysCall root s2 = Inr a \<and> GetLatestSysCall u s2 = Inr a \<and>
    td_CrossCallCnt (d_txs s3 ! root) = td_CrossCallCnt (d_txs s1 ! root) \<and>
    td_SysCallCnt (d_txs s3 ! root) = td_SysCallCnt (d_txs s1 ! root) + 1 \<and>
    td_SysCallDuration (d_txs s3 ! root) = td_SysCallDuration (d_txs s1 ! root) + (now - start)"
proof -
  obtain txs where txs: "bt_txs b = Some txs" using assms(2) by (cases "bt_txs b") (auto simp: slice_of_def)
  have len: "length (d_txs s1) = length (d_txs s)"
    using FinishTx_same[of c s i r] unfolding s1 by (simp add: same_tree_def)
  have root1: "td_SysCallList (d_txs s1 ! root) = Some (cs @ [a])" "d_calls s1 = d_calls s"
    "sysCallPool s1 = sysCallPool s @ cs @ [a]"
    using assms(1-6) txs unfolding s1
    by (simp_all add: FinishTx_def FinishTxDuration_def upd_tx_def Seal_def slice_of_def pool_put_def)
  have s2': "s2 = s1\<lparr>sysCallPool := sysCallPool s @ cs,
      d_calls := (d_calls s)[a := (d_calls s ! a)\<lparr>sc_OpType := GET_STATE_REQUEST, sc_StartTime := start,
        sc_StorageDuration := 0, sc_TotalDuration := 0\<rparr>],
      d_txs := (d_txs s1)[u := (d_txs s1 ! u)\<lparr>td_SysCallList := Some (slice_of (td_SysCallList (d_txs s1 ! u)) @ [a])\<rparr>]\<rparr>"
    unfolding s2 by (simp add: StartSysCall_def pool_get_def root1 nth_append upd_call_def upd_tx_def)
  have "GetLatestSysCall root s2 = Inr a" "GetLatestSysCall u s2 = Inr a"
    using assms(5,6) root1 len by (simp_all add: GetLatestSysCall_def s2' slice_of_def)
  then show ?thesis
    using assms(4-6) len unfolding s3
    by (simp add: EndSysCall_def s2' upd_call_def upd_tx_def addSysCallDuration_def)
qed

theorem cross_call_record_lost_witness:
  "td_SysCallDuration (d_txs (fst (EndSysCall 30 0 (StartSysCall (Some 0) 20 2 GET_STATE_REQUEST
     (FinishTx ''block'' 1 (fst sample_two) (snd sample_two))))) ! 0) = 10"
proof -
  have "map_of (blockDurations (fst sample_two)) ''block'' = Some \<lparr>bt_txs = Some [(''tx'', 0), (''other'', 2)]\<rparr>"
    "map_of (slice_of (bt_txs \<lparr>bt_txs = Some [(''tx'', 0), (''other'', 2)]\<rparr>)) (td_OriginalTxId (d_txs (snd sample_two) ! 1)) = Some 0"
    "td_SysCallList (d_txs (snd sample_two) ! 0) = Some ([] @ [0])" "0 < length (d_calls (snd sample_two))"
    "distinct [0, 1, 2 :: nat]" "length (d_txs (snd sample_two)) = 3" "sysCallPool (snd sample_two) = []"
    "td_SysCallDuration (d_txs (FinishTx ''block'' 1 (fst sample_two) (snd sample_two)) ! 0) = 0"
    by code_simp+
  with cross_call_record_lost[OF this(1-5) _ refl refl refl, of 20 30] show ?thesis by simp
qed

end
