(* ===== verification/Runtime_Base.thy ===== *)
theory Runtime_Base
  imports Gas Tx_Duration
begin

text \<open>
  What the handlers of the runtime share, \<open>runtime_handler.go\<close> and \<open>config/config.go\<close>: the keys of
  the payloads, the interface of the chain, the state of a runtime instance and the merging of
  read and write maps into the simulation context.

  The chain is a parameter: the simulation context of a transaction is an opaque state, its
  operations and the helpers of the chain's packages are the fields of a record, and iterators are
  references into that state.  The JSON and protocol buffer decoders are fields too, as nothing
  here depends on their formats.
\<close>

section \<open>Keys\<close>

definition FuncKvIteratorCreate :: string where "FuncKvIteratorCreate = ''createKvIterator''"
definition FuncKvPreIteratorCreate :: string where "FuncKvPreIteratorCreate = ''createKvPreIterator''"
definition FuncKvIteratorHasNext :: string where "FuncKvIteratorHasNext = ''kvIteratorHasNext''"
definition FuncKvIteratorNext :: string where "FuncKvIteratorNext = ''kvIteratorNext''"
definition FuncKvIteratorClose :: string where "FuncKvIteratorClose = ''kvIteratorClose''"
definition FuncKeyHistoryIterHasNext :: string where "FuncKeyHistoryIterHasNext = ''keyHistoryIterHasNext''"
definition FuncKeyHistoryIterNext :: string where "FuncKeyHistoryIterNext = ''keyHistoryIterNext''"
definition FuncKeyHistoryIterClose :: string where "FuncKeyHistoryIterClose = ''keyHistoryIterClose''"
definition BoolTrue :: "32 word" where "BoolTrue = 1"
definition BoolFalse :: "32 word" where "BoolFalse = 0"
definition KeySenderAddr :: string where "KeySenderAddr = ''KEY_SENDER_ADDR''"
definition KeyCallContractResp :: string where "KeyCallContractResp = ''KEY_CALL_CONTRACT_RESPONSE''"
definition KeyCallContractReq :: string where "KeyCallContractReq = ''KEY_CALL_CONTRACT_REQUEST''"
definition KeyStateKey :: string where "KeyStateKey = ''KEY_STATE_KEY''"
definition KeyUserKey :: string where "KeyUserKey = ''KEY_USER_KEY''"
definition KeyUserField :: string where "KeyUserField = ''KEY_USER_FIELD''"
definition KeyStateValue :: string where "KeyStateValue = ''KEY_STATE_VALUE''"
definition KeyIterIndex :: string where "KeyIterIndex = ''KEY_KV_ITERATOR_INDEX''"
definition KeyContractName :: string where "KeyContractName = ''KEY_CONTRACT_NAME''"
definition KeyIteratorFuncName :: string where "KeyIteratorFuncName = ''KEY_ITERATOR_FUNC_NAME''"
definition KeyWriteMap :: string where "KeyWriteMap = ''KEY_WRITE_MAP''"
definition KeyIteratorHasNext :: string where "KeyIteratorHasNext = ''KEY_ITERATOR_HAS_NEXT''"
definition KeyTxId :: string where "KeyTxId = ''KEY_TX_ID''"
definition KeyBlockHeight :: string where "KeyBlockHeight = ''KEY_BLOCK_HEIGHT''"
definition KeyIsDelete :: string where "KeyIsDelete = ''KEY_IS_DELETE''"
definition KeyTimestamp :: string where "KeyTimestamp = ''KEY_TIMESTAMP''"
definition mountContractDir :: string where "mountContractDir = ''contract-bins''"
definition msgIterIsNil :: string where "msgIterIsNil = ''iterator is nil''"
definition version2310 :: "32 word" where "version2310 = 2030100"
definition version2312 :: "32 word" where "version2312 = 2030102"

section \<open>The chain\<close>

record Contract =
  con_Name :: string
  con_Version :: string

record ContractResult =
  cr_Code :: "32 word"
  cr_Result :: bytes
  cr_Message :: string
  cr_GasUsed :: "64 word"
  cr_ContractEvent :: "ContractEvent list"

datatype ExecOrderTxType = ExecOrderTxTypeNormal | ExecOrderTxTypeIterator | OtherExecOrderTxType int

datatype TxStatusCode = SUCCESS | OtherStatus string

fun TxStatusCode_String :: "TxStatusCode \<Rightarrow> string" where
  "TxStatusCode_String SUCCESS = ''SUCCESS''"
| "TxStatusCode_String (OtherStatus s) = s"

record KV =
  kv_Key :: bytes
  kv_Value :: bytes

record KeyModification =
  km_TxId :: string
  km_Value :: bytes
  km_Timestamp :: int
  km_IsDelete :: bool
  km_BlockHeight :: "64 word"

record CallContractRequest =
  ccr_ContractName :: string
  ccr_ContractMethod :: string
  ccr_Args :: "(string, bytes) gomap"

record Response =
  rsp_Status :: "32 word"
  rsp_Message :: string
  rsp_Payload :: bytes

record ContractResponse =
  crsp_ReadMap :: "(string, bytes) gomap"
  crsp_WriteMap :: "(string, bytes) gomap"
  crsp_Response :: Response

record TxRW =
  rw_Value :: bytes

record AccountConfig =
  acc_DefaultGas :: "64 word"

text \<open>A handle is an interface value: nil, one of the two kinds of iterators, or something else.\<close>

datatype 'i iter_handle = NilHandle | StateIterator 'i | KeyHistoryIterator 'i | OtherHandle

text \<open>
  The operations of the simulation context \<open>'c\<close> with iterators \<open>'i\<close> and batch keys \<open>'k\<close>.  The
  field \<open>range_order\<close> is the order in which a \<open>range\<close> loop visits the entries of a map.
\<close>

record ('c, 'i, 'k) sim_lib =
  sl_gas :: gas_lib
  SdkSuccess :: DockerVMCode
  SdkFail :: DockerVMCode
  sl_CallContractDepth :: "32 word"
  AddrType_ZXL :: int
  NewGasConfig :: "AccountConfig option \<Rightarrow> GasConfig option"
  CheckKeyFieldStr :: "string \<Rightarrow> string \<Rightarrow> error option"
  GetKeyStr :: "string \<Rightarrow> string \<Rightarrow> string"
  IntToBytes :: "32 word \<Rightarrow> string"
  BytesToInt :: "bytes \<Rightarrow> 32 word res"
  UnmarshalWriteMap :: "bytes \<Rightarrow> (string, bytes) gomap \<times> error option"
  UnmarshalCallRequest :: "bytes \<Rightarrow> CallContractRequest res"
  MarshalContractResponse :: "ContractResponse \<Rightarrow> string res"
  UnmarshalBatchKeys :: "bytes \<Rightarrow> 'k list res"
  MarshalBatchKeys :: "'k list \<Rightarrow> string res"
  range_order :: "(string \<times> bytes) list \<Rightarrow> (string \<times> bytes) list"
  GetBlockVersion :: "'c \<Rightarrow> 32 word"
  GetAccountConfig :: "'c \<Rightarrow> AccountConfig option"
  GetVmAddrType :: "'c \<Rightarrow> int option"
  GetTxId :: "'c \<Rightarrow> string"
  GetTxType :: "'c \<Rightarrow> int"
  GetCrossInfo :: "'c \<Rightarrow> 64 word"
  GetDepth :: "'c \<Rightarrow> int"
  GetBlockFingerprint :: "'c \<Rightarrow> string"
  GetSenderAddr :: "'c \<Rightarrow> string res \<times> 'c"
  ctx_Get :: "string \<Rightarrow> bytes \<Rightarrow> 'c \<Rightarrow> bytes res \<times> 'c"
  ctx_GetKeys :: "'k list \<Rightarrow> 'c \<Rightarrow> 'k list res \<times> 'c"
  ctx_Put :: "string \<Rightarrow> string \<Rightarrow> bytes \<Rightarrow> 'c \<Rightarrow> error option \<times> 'c"
  PutIntoReadSet :: "string \<Rightarrow> string \<Rightarrow> bytes \<Rightarrow> 'c \<Rightarrow> 'c"
  ctx_Select :: "string \<Rightarrow> string \<Rightarrow> string \<Rightarrow> 'c \<Rightarrow> 'i res \<times> 'c"
  GetHistoryIterForKey :: "string \<Rightarrow> string \<Rightarrow> 'c \<Rightarrow> 'i res \<times> 'c"
  SetIterHandle :: "32 word \<Rightarrow> 'i iter_handle \<Rightarrow> 'c \<Rightarrow> 'c"
  GetIterHandle :: "32 word \<Rightarrow> 'c \<Rightarrow> 'i iter_handle option"
  iter_Next :: "'i \<Rightarrow> 'c \<Rightarrow> bool \<times> 'c"
  iter_Value :: "'i \<Rightarrow> 'c \<Rightarrow> KV res \<times> 'c"
  hist_Value :: "'i \<Rightarrow> 'c \<Rightarrow> KeyModification res \<times> 'c"
  iter_Release :: "'i \<Rightarrow> 'c \<Rightarrow> 'c"
  GetContractByName :: "string \<Rightarrow> 'c \<Rightarrow> Contract res \<times> 'c"
  GetContractBytecode :: "string \<Rightarrow> 'c \<Rightarrow> bytes res \<times> 'c"
  CallContract :: "Contract \<Rightarrow> Contract \<Rightarrow> string \<Rightarrow> (string, bytes) gomap \<Rightarrow> 64 word \<Rightarrow> int \<Rightarrow> 'c \<Rightarrow>
    ContractResult \<times> ExecOrderTxType \<times> TxStatusCode \<times> 'c"
  GetTxRWMapByContractName :: "string \<Rightarrow> 'c \<Rightarrow> (string, TxRW) gomap \<times> (string, TxRW) gomap"

abbreviation gas_config :: "('c, 'i, 'k) sim_lib \<Rightarrow> 'c \<Rightarrow> GasConfig option" where
  "gas_config L c \<equiv> NewGasConfig L (GetAccountConfig L c)"

section \<open>A runtime instance\<close>

text \<open>
  The state of a runtime instance that the handlers use, with the store of the time statistics.
  Logging is left out.
\<close>

record RuntimeInstance =
  rowIndex :: "32 word"
  rt_chainId :: string
  rt_event :: "ContractEvent list"
  rt_txDuration :: nat
  rt_durs :: durs

definition newEmptyResponse :: "RuntimeInstance \<Rightarrow> string \<Rightarrow> DockerVMType \<Rightarrow> DockerVMMessage" where
  "newEmptyResponse r txId msgType =
     zero_msg\<lparr>m_ChainId := rt_chainId r, m_TxId := txId, m_Type := msgType,
       m_SysCallMessage := Some \<lparr>sys_Code = OK, sys_Message = '''', sys_Payload = []\<rparr>,
       m_Response := None, m_Request := None\<rparr>"

definition upd_sys :: "(SysCallMessage \<Rightarrow> SysCallMessage) \<Rightarrow> DockerVMMessage \<Rightarrow> DockerVMMessage" where
  "upd_sys f m = m\<lparr>m_SysCallMessage := map_option f (m_SysCallMessage m)\<rparr>"

definition setError :: "string \<Rightarrow> DockerVMMessage \<Rightarrow> DockerVMMessage" where
  "setError errMsg response = upd_sys (\<lambda>s. s\<lparr>sys_Code := FAIL, sys_Message := errMsg\<rparr>) response"

text \<open>The assignments of the handlers to the three fields of their response.\<close>

definition set_code :: "DockerVMCode \<Rightarrow> DockerVMMessage \<Rightarrow> DockerVMMessage" where
  "set_code c = upd_sys (\<lambda>s. s\<lparr>sys_Code := c\<rparr>)"

definition set_message :: "string \<Rightarrow> DockerVMMessage \<Rightarrow> DockerVMMessage" where
  "set_message msg = upd_sys (\<lambda>s. s\<lparr>sys_Message := msg\<rparr>)"

definition set_payload :: "(string, bytes) gomap \<Rightarrow> DockerVMMessage \<Rightarrow> DockerVMMessage" where
  "set_payload p = upd_sys (\<lambda>s. s\<lparr>sys_Payload := p\<rparr>)"

definition fail_with :: "('c, 'i, 'k) sim_lib \<Rightarrow> error \<Rightarrow> DockerVMMessage \<Rightarrow> DockerVMMessage" where
  "fail_with L err resp = set_payload [] (set_message err (set_code (SdkFail L) resp))"

definition errorResult :: "ContractResult \<Rightarrow> string \<Rightarrow> ContractResult \<times> ExecOrderTxType" where
  "errorResult contractResult errMsg =
     (contractResult\<lparr>cr_Code := 1, cr_Message := errMsg\<rparr>, ExecOrderTxTypeNormal)"

definition add_storage :: "int \<Rightarrow> RuntimeInstance \<Rightarrow> RuntimeInstance" where
  "add_storage spent r = r\<lparr>rt_durs := fst (AddLatestStorageDuration (rt_txDuration r) spent (rt_durs r))\<rparr>"

section \<open>Read and write maps\<close>

fun merge_reads ::
  "('c, 'i, 'k) sim_lib \<Rightarrow> string \<Rightarrow> (string \<times> bytes) list \<Rightarrow> 'c \<Rightarrow> error option \<times> 'c" where
  "merge_reads L txContractName [] c = (None, c)"
| "merge_reads L txContractName ((key, val) # m) c =
     (let keyList = go_split CHR ''#'' key; keyLen = length keyList
      in if keyLen < 2 then
           (Some (key @ CHR 0x27 # ''s key list length == '' @ Itoa (int keyLen) @ '', needs to be >= 2''), c)
         else let contractName = keyList ! 0
         in if contractName \<noteq> txContractName then
              (Some (''wrong contract name ['' @ contractName @ ''] of read map key, need ['' @ txContractName @ '']''), c)
            else let contractKey = keyList ! 1; contractField = (if keyLen = 3 then keyList ! 2 else '''')
              in merge_reads L txContractName m (PutIntoReadSet L contractName (GetKeyStr L contractKey contractField) val c))"

definition mergeSimContextReadMap ::
  "('c, 'i, 'k) sim_lib \<Rightarrow> (string, bytes) gomap \<Rightarrow> string \<Rightarrow> 'c \<Rightarrow> error option \<times> 'c" where
  "mergeSimContextReadMap L readMap txContractName c = merge_reads L txContractName (range_order L readMap) c"

fun merge_writes ::
  "('c, 'i, 'k) sim_lib \<Rightarrow> 32 word \<Rightarrow> GasConfig option \<Rightarrow> string \<Rightarrow> (string \<times> bytes) list \<Rightarrow> 64 word \<Rightarrow> 'c \<Rightarrow>
     (64 word \<times> error option) \<times> 'c" where
  "merge_writes L blockVersion gasConfig txContractName [] gasUsed c = ((gasUsed, None), c)"
| "merge_writes L blockVersion gasConfig txContractName ((key, val) # m) gasUsed c =
     (let keyList = go_split CHR ''#'' key; keyLen = length keyList
      in if keyLen < 2 then ((gasUsed, Some (''key list length == '' @ Itoa (int keyLen) @ '', needs to be >= 2'')), c)
         else let contractName = keyList ! 0
         in if contractName \<noteq> txContractName then
              ((gasUsed, Some (''wrong contract name ['' @ contractName @ ''] of write map key, need ['' @ txContractName @ '']'')), c)
            else let contractKey = keyList ! 1; contractField = (if keyLen = 3 then keyList ! 2 else '''')
              in case PutStateGasUsed (sl_gas L) blockVersion gasConfig gasUsed contractName contractKey contractField val of
                   (gasUsed', Some err) \<Rightarrow> ((gasUsed', Some err), c)
                 | (gasUsed', None) \<Rightarrow>
                     (case ctx_Put L contractName (GetKeyStr L contractKey contractField) val c of
                        (Some err, c') \<Rightarrow> ((gasUsed', Some err), c')
                      | (None, c') \<Rightarrow> merge_writes L blockVersion gasConfig txContractName m gasUsed' c'))"

definition mergeSimContextWriteMap ::
  "('c, 'i, 'k) sim_lib \<Rightarrow> (string, bytes) gomap \<Rightarrow> 64 word \<Rightarrow> string \<Rightarrow> 'c \<Rightarrow> (64 word \<times> error option) \<times> 'c" where
  "mergeSimContextWriteMap L writeMap gasUsed txContractName c =
     merge_writes L (GetBlockVersion L c) (gas_config L c) txContractName (range_order L writeMap) gasUsed c"

end
