(* ===== verification/Runtime_Iter.thy ===== *)
theory Runtime_Iter
  imports Runtime_Base
begin

text \<open>
  The iterators of \<open>runtime_handler.go\<close>: creating, advancing and closing iterators over the keys
  of a contract and over the history of a key, with the gas they are charged.  A handler panics
  when the message it answers has no system call part, as the code reads through the pointer.
\<close>

section \<open>Iterators over keys\<close>

definition kvIteratorCreate ::
  "('c, 'i, 'k) sim_lib \<Rightarrow> GasConfig option \<Rightarrow> string \<Rightarrow> (string, bytes) gomap \<Rightarrow> 64 word \<Rightarrow> 'c \<Rightarrow>
     ('i option \<times> 64 word \<times> error option) \<times> 'c" where
  "kvIteratorCreate L gasConfig calledContractName params gasUsed c =
     (let blockVersion = GetBlockVersion L c;
          startKey = bytes_str (bytes_at params KeyIterStartKey);
          startField = bytes_str (bytes_at params KeyIterStartField);
          limitKey = bytes_str (bytes_at params KeyIterLimitKey);
          limitField = bytes_str (bytes_at params KeyIterLimitField)
      in case CreateKvIteratorGasUsed (sl_gas L) blockVersion gasConfig params gasUsed of
           (gasUsed, Some err) \<Rightarrow> ((None, gasUsed, Some err), c)
         | (gasUsed, None) \<Rightarrow>
             (let key = GetKeyStr L startKey startField
              in case CheckKeyFieldStr L limitKey limitField of
                   Some err \<Rightarrow> ((None, gasUsed, Some err), c)
                 | None \<Rightarrow>
                     (case ctx_Select L calledContractName key (GetKeyStr L limitKey limitField) c of
                        (Inl err, c') \<Rightarrow> ((None, gasUsed, Some err), c')
                      | (Inr iter, c') \<Rightarrow> ((Some iter, gasUsed, None), c'))))"

text \<open>
  The end of the range of a prefix: the last byte of the key plus one, as a byte, and then as a
  string, which encodes the byte's value as a character.
\<close>

definition byte_string :: "8 word \<Rightarrow> string" where
  "byte_string b = (if unat b < 128 then [char_of (unat b)]
     else [char_of (192 + unat b div 64), char_of (128 + unat b mod 64)])"

definition pre_limit :: "string \<Rightarrow> string go" where
  "pre_limit keyStr =
     (if keyStr = [] then Panic
      else let limitLast = (word_of_nat (of_char (last keyStr)) :: 8 word) + 1
        in Val (butlast keyStr @ byte_string limitLast))"

text \<open>After an error the handler charges for the iterator, and stops only if that fails too.\<close>

definition charge_after_error ::
  "('c, 'i, 'k) sim_lib \<Rightarrow> 32 word \<Rightarrow> GasConfig option \<Rightarrow> (string, bytes) gomap \<Rightarrow> error \<Rightarrow>
     DockerVMMessage \<Rightarrow> 64 word \<Rightarrow> bool \<times> DockerVMMessage \<times> 64 word" where
  "charge_after_error L blockVersion gasConfig payload err resp gasUsed =
     (let resp = set_message err resp
      in case CreateKvIteratorGasUsed (sl_gas L) blockVersion gasConfig payload gasUsed of
           (gasUsed, Some err') \<Rightarrow> (True, set_payload [] (set_code (SdkFail L) resp), gasUsed)
         | (gasUsed, None) \<Rightarrow> (False, resp, gasUsed))"

definition new_handle ::
  "('c, 'i, 'k) sim_lib \<Rightarrow> 'i iter_handle \<Rightarrow> DockerVMMessage \<Rightarrow> 64 word \<Rightarrow> RuntimeInstance \<Rightarrow> 'c \<Rightarrow>
     DockerVMMessage \<times> 64 word \<times> RuntimeInstance \<times> 'c" where
  "new_handle L iter resp gasUsed r c =
     (let index = rowIndex r + 1
      in (set_payload [(KeyIterIndex, Some (IntToBytes L index))] (set_code (SdkSuccess L) resp), gasUsed,
          r\<lparr>rowIndex := index\<rparr>, SetIterHandle L index iter c))"

definition createKvSwitch ::
  "('c, 'i, 'k) sim_lib \<Rightarrow> 32 word \<Rightarrow> GasConfig option \<Rightarrow> (string, bytes) gomap \<Rightarrow> DockerVMMessage \<Rightarrow> 64 word \<Rightarrow>
     RuntimeInstance \<Rightarrow> 'c \<Rightarrow> (DockerVMMessage \<times> 64 word \<times> RuntimeInstance \<times> 'c) go" where
  "createKvSwitch L blockVersion gasConfig payload resp gasUsed r c =
     (let calledContractName = bytes_str (bytes_at payload KeyContractName);
          createFunc = bytes_str (bytes_at payload KeyIteratorFuncName);
          key = GetKeyStr L (bytes_str (bytes_at payload KeyIterStartKey)) (bytes_str (bytes_at payload KeyIterStartField))
      in if createFunc = FuncKvIteratorCreate then
           (case kvIteratorCreate L gasConfig calledContractName payload gasUsed c of
              ((_, gasUsed, Some err), c') \<Rightarrow> Val (fail_with L err resp, gasUsed, r, c')
            | ((iter, gasUsed, None), c') \<Rightarrow>
                Val (new_handle L (case iter of None \<Rightarrow> NilHandle | Some i \<Rightarrow> StateIterator i) resp gasUsed r c'))
         else if createFunc = FuncKvPreIteratorCreate then
           (case CreateKvIteratorGasUsed (sl_gas L) blockVersion gasConfig payload gasUsed of
              (gasUsed, Some err) \<Rightarrow> Val (fail_with L err resp, gasUsed, r, c)
            | (gasUsed, None) \<Rightarrow> go_bind (pre_limit key) (\<lambda>lt.
                (case ctx_Select L calledContractName key lt c of
                   (Inl err, c') \<Rightarrow> Val (fail_with L err resp, gasUsed, r, c')
                 | (Inr iter, c') \<Rightarrow> Val (new_handle L (StateIterator iter) resp gasUsed r c'))))
         else Val (new_handle L NilHandle resp gasUsed r c))"

definition handleCreateKvIterator ::
  "('c, 'i, 'k) sim_lib \<Rightarrow> string \<Rightarrow> DockerVMMessage \<Rightarrow> 64 word \<Rightarrow> string \<Rightarrow> RuntimeInstance \<Rightarrow> 'c \<Rightarrow>
     (DockerVMMessage \<times> 64 word \<times> RuntimeInstance \<times> 'c) go" where
  "handleCreateKvIterator L txId recvMsg gasUsed contractName r c = (case m_SysCallMessage recvMsg of
       None \<Rightarrow> Panic
     | Some sys \<Rightarrow>
         (let resp = newEmptyResponse r txId CREATE_KV_ITERATOR_RESPONSE;
              blockVersion = GetBlockVersion L c; gasConfig = gas_config L c;
              payload = sys_Payload sys;
              startKey = bytes_str (bytes_at payload KeyIterStartKey);
              startField = bytes_str (bytes_at payload KeyIterStartField);
              charge = charge_after_error L blockVersion gasConfig payload;
              (writeMap, err1) = UnmarshalWriteMap L (bytes_at payload KeyWriteMap);
              (stop1, resp1, gas1) = (case err1 of None \<Rightarrow> (False, resp, gasUsed) | Some err \<Rightarrow> charge err resp gasUsed)
          in if stop1 then Val (resp1, gas1, r, c)
             else let ((gas2, err2), c2) = mergeSimContextWriteMap L writeMap gas1 contractName c;
                      (stop2, resp2, gas2) = (case err2 of None \<Rightarrow> (False, resp1, gas2) | Some err \<Rightarrow> charge err resp1 gas2)
             in if stop2 then Val (resp2, gas2, r, c2)
                else let (stop3, resp3, gas3) = (case CheckKeyFieldStr L startKey startField of
                            None \<Rightarrow> (False, resp2, gas2) | Some err \<Rightarrow> charge err resp2 gas2)
                in if stop3 then Val (resp3, gas3, r, c2)
                   else createKvSwitch L blockVersion gasConfig payload resp3 gas3 r c2))"

definition kvIteratorClose ::
  "('c, 'i, 'k) sim_lib \<Rightarrow> 32 word \<Rightarrow> GasConfig option \<Rightarrow> 'i option \<Rightarrow> 64 word \<Rightarrow> DockerVMMessage \<Rightarrow> 'c \<Rightarrow>
     ((DockerVMMessage \<times> 64 word) \<times> 'c) go" where
  "kvIteratorClose L blockVersion gasConfig kvIterator gasUsed resp c =
     (case ConsumeKvIteratorGasUsed (sl_gas L) blockVersion gasConfig gasUsed of
        (gasUsed, Some err) \<Rightarrow> Val ((fail_with L err resp, gasUsed), c)
      | (gasUsed, None) \<Rightarrow> (case kvIterator of
            None \<Rightarrow> Panic
          | Some i \<Rightarrow> Val ((set_payload [] (set_code (SdkSuccess L) resp), gasUsed), iter_Release L i c)))"

definition has_next_payload :: "('c, 'i, 'k) sim_lib \<Rightarrow> bool \<Rightarrow> (string, bytes) gomap" where
  "has_next_payload L b = [(KeyIteratorHasNext, Some (IntToBytes L (if b then BoolTrue else BoolFalse)))]"

definition kvIteratorHasNext ::
  "('c, 'i, 'k) sim_lib \<Rightarrow> 32 word \<Rightarrow> GasConfig option \<Rightarrow> 'i option \<Rightarrow> 64 word \<Rightarrow> DockerVMMessage \<Rightarrow> 'c \<Rightarrow>
     ((DockerVMMessage \<times> 64 word) \<times> 'c) go" where
  "kvIteratorHasNext L blockVersion gasConfig kvIterator gasUsed resp c =
     (case ConsumeKvIteratorGasUsed (sl_gas L) blockVersion gasConfig gasUsed of
        (gasUsed, Some err) \<Rightarrow> Val ((fail_with L err resp, gasUsed), c)
      | (gasUsed, None) \<Rightarrow> (case kvIterator of
            None \<Rightarrow> Panic
          | Some i \<Rightarrow> (let (b, c') = iter_Next L i c
              in Val ((set_payload (has_next_payload L b) (set_code (SdkSuccess L) resp), gasUsed), c'))))"

definition kvIteratorNext ::
  "('c, 'i, 'k) sim_lib \<Rightarrow> 32 word \<Rightarrow> GasConfig option \<Rightarrow> 'i option \<Rightarrow> 64 word \<Rightarrow> DockerVMMessage \<Rightarrow> 'c \<Rightarrow>
     ((DockerVMMessage \<times> 64 word) \<times> 'c) go" where
  "kvIteratorNext L blockVersion gasConfig kvIterator gasUsed resp c =
     (case (if blockVersion < blockVersion2312 then ConsumeKvIteratorGasUsedLt2312 (sl_gas L) gasUsed else (gasUsed, None)) of
        (gasUsed, Some err) \<Rightarrow> Val ((fail_with L err resp, gasUsed), c)
      | (gasUsed, None) \<Rightarrow> (case kvIterator of
            None \<Rightarrow> Val ((fail_with L msgIterIsNil resp, gasUsed), c)
          | Some i \<Rightarrow> (case iter_Value L i c of
                (Inl err, c') \<Rightarrow> Val ((fail_with L err resp, gasUsed), c')
              | (Inr kvRow, c') \<Rightarrow>
                  (let arrKey = go_split CHR ''#'' (bytes_str (kv_Key kvRow));
                       key = arrKey ! 0; field = (if length arrKey > 1 then arrKey ! 1 else '''');
                       resp' = set_payload [(KeyUserKey, Some key), (KeyUserField, Some field), (KeyStateValue, kv_Value kvRow)]
                                 (set_code (SdkSuccess L) resp)
                   in if blockVersion2312 \<le> blockVersion then
                        (case ConsumeKvIteratorNextGasUsed2312 gasConfig gasUsed key field (kv_Value kvRow) of
                           (gasUsed, Some err) \<Rightarrow> Val ((fail_with L err resp', gasUsed), c')
                         | (gasUsed, None) \<Rightarrow> Val ((resp', gasUsed), c'))
                      else Val ((resp', gasUsed), c')))))"

text \<open>A request for an iterator that cannot be found is charged, and only a failed charge is reported as failed.\<close>

definition charge_consume ::
  "('c, 'i, 'k) sim_lib \<Rightarrow> 32 word \<Rightarrow> GasConfig option \<Rightarrow> DockerVMMessage \<Rightarrow> 64 word \<Rightarrow> DockerVMMessage \<times> 64 word" where
  "charge_consume L blockVersion gasConfig resp gasUsed =
     (case ConsumeKvIteratorGasUsed (sl_gas L) blockVersion gasConfig gasUsed of
        (gasUsed, Some err) \<Rightarrow> (fail_with L err resp, gasUsed)
      | (gasUsed, None) \<Rightarrow> (resp, gasUsed))"

definition handleConsumeKvIterator ::
  "('c, 'i, 'k) sim_lib \<Rightarrow> string \<Rightarrow> DockerVMMessage \<Rightarrow> 64 word \<Rightarrow> RuntimeInstance \<Rightarrow> 'c \<Rightarrow>
     ((DockerVMMessage \<times> 64 word) \<times> 'c) go" where
  "handleConsumeKvIterator L txId recvMsg gasUsed r c = (case m_SysCallMessage recvMsg of
       None \<Rightarrow> Panic
     | Some sys \<Rightarrow>
         (let resp = newEmptyResponse r txId CONSUME_KV_ITERATOR_RESPONSE;
              blockVersion = GetBlockVersion L c; gasConfig = gas_config L c;
              consumeFunc = bytes_str (bytes_at (sys_Payload sys) KeyIteratorFuncName)
          in case BytesToInt L (bytes_at (sys_Payload sys) KeyIterIndex) of
               Inl err \<Rightarrow> Val (charge_consume L blockVersion gasConfig resp gasUsed, c)
             | Inr index \<Rightarrow> (case GetIterHandle L index c of
                   None \<Rightarrow> Val (charge_consume L blockVersion gasConfig (set_message
                     (''[kv iterator consume] can not found iterator index ['' @ Itoa (sint index) @ '']'') resp) gasUsed, c)
                 | Some (StateIterator i) \<Rightarrow>
                     if consumeFunc = FuncKvIteratorHasNext then kvIteratorHasNext L blockVersion gasConfig (Some i) gasUsed resp c
                     else if consumeFunc = FuncKvIteratorNext then kvIteratorNext L blockVersion gasConfig (Some i) gasUsed resp c
                     else if consumeFunc = FuncKvIteratorClose then kvIteratorClose L blockVersion gasConfig (Some i) gasUsed resp c
                     else Val ((fail_with L (consumeFunc @ '' not found'') resp, gasUsed), c)
                 | Some _ \<Rightarrow> Val (charge_consume L blockVersion gasConfig (set_message
                     (''[kv iterator consume] failed, iterator '' @ Itoa (sint index) @ '' assertion failed'') resp) gasUsed, c))))"

section \<open>Iterators over the history of a key\<close>

definition handleCreateKeyHistoryIterator ::
  "('c, 'i, 'k) sim_lib \<Rightarrow> string \<Rightarrow> DockerVMMessage \<Rightarrow> 64 word \<Rightarrow> string \<Rightarrow> RuntimeInstance \<Rightarrow> 'c \<Rightarrow>
     (DockerVMMessage \<times> 64 word \<times> RuntimeInstance \<times> 'c) go" where
  "handleCreateKeyHistoryIterator L txId recvMsg gasUsed contractName r c = (case m_SysCallMessage recvMsg of
       None \<Rightarrow> Panic
     | Some sys \<Rightarrow>
         (let resp = newEmptyResponse r txId CREATE_KEY_HISTORY_TER_RESPONSE;
              blockVersion = GetBlockVersion L c; gasConfig = gas_config L c;
              payload = sys_Payload sys;
              calledContractName = bytes_str (bytes_at payload KeyContractName);
              keyStr = bytes_str (bytes_at payload KeyHistoryIterKey);
              field = bytes_str (bytes_at payload KeyHistoryIterField)
          in case CreateKeyHistoryIterGasUsed (sl_gas L) blockVersion gasConfig payload gasUsed of
               (gasUsed, Some err) \<Rightarrow> Val (fail_with L err resp, gasUsed, r, c)
             | (gasUsed, None) \<Rightarrow> (case UnmarshalWriteMap L (bytes_at payload KeyWriteMap) of
                 (writeMap, Some err) \<Rightarrow> Val (fail_with L err resp, gasUsed, r, c)
               | (writeMap, None) \<Rightarrow> (case mergeSimContextWriteMap L writeMap gasUsed contractName c of
                   ((gasUsed, Some err), c) \<Rightarrow> Val (fail_with L err resp, gasUsed, r, c)
                 | ((gasUsed, None), c) \<Rightarrow> (case CheckKeyFieldStr L keyStr field of
                     Some err \<Rightarrow> Val (fail_with L err resp, gasUsed, r, c)
                   | None \<Rightarrow> (case GetHistoryIterForKey L calledContractName (GetKeyStr L keyStr field) c of
                       (Inl err, c) \<Rightarrow> Val (fail_with L err resp, gasUsed, r, c)
                     | (Inr iter, c) \<Rightarrow> Val (new_handle L (KeyHistoryIterator iter) resp gasUsed r c)))))))"

definition keyHistoryIterHasNext ::
  "('c, 'i, 'k) sim_lib \<Rightarrow> 32 word \<Rightarrow> GasConfig option \<Rightarrow> 'i option \<Rightarrow> 64 word \<Rightarrow> DockerVMMessage \<Rightarrow> 'c \<Rightarrow>
     ((DockerVMMessage \<times> 64 word) \<times> 'c) go" where
  "keyHistoryIterHasNext L blockVersion gasConfig iter gasUsed resp c =
     (case ConsumeKeyHistoryIterGasUsed (sl_gas L) blockVersion gasConfig gasUsed of
        (gasUsed, Some err) \<Rightarrow> Val ((fail_with L err resp, gasUsed), c)
      | (gasUsed, None) \<Rightarrow> (case iter of
            None \<Rightarrow> Panic
          | Some i \<Rightarrow> (let (b, c') = iter_Next L i c
              in Val ((set_payload (has_next_payload L b) (set_code (SdkSuccess L) resp), gasUsed), c'))))"

definition keyHistoryIterNext ::
  "('c, 'i, 'k) sim_lib \<Rightarrow> 32 word \<Rightarrow> GasConfig option \<Rightarrow> 'i option \<Rightarrow> 64 word \<Rightarrow> DockerVMMessage \<Rightarrow> 'c \<Rightarrow>
     ((DockerVMMessage \<times> 64 word) \<times> 'c) go" where
  "keyHistoryIterNext L blockVersion gasConfig iter gasUsed resp c =
     (case (if blockVersion < blockVersion2312 then ConsumeKeyHistoryIterGasUsedLt2312 (sl_gas L) gasUsed else (gasUsed, None)) of
        (gasUsed, Some err) \<Rightarrow> Val ((fail_with L err resp, gasUsed), c)
      | (gasUsed, None) \<Rightarrow> (case iter of
            None \<Rightarrow> Val ((fail_with L msgIterIsNil resp, gasUsed), c)
          | Some i \<Rightarrow> (case hist_Value L i c of
                (Inl err, c') \<Rightarrow> Val ((fail_with L err resp, gasUsed), c')
              | (Inr historyValue, c') \<Rightarrow>
                  (let resp' = set_code (SdkSuccess L) resp;
                       blockHeight = IntToBytes L (ucast (km_BlockHeight historyValue));
                       timestampStr = Itoa (km_Timestamp historyValue);
                       isDelete = (if \<not> km_IsDelete historyValue then BoolFalse else BoolTrue);
                       payload = [(KeyTxId, Some (km_TxId historyValue)), (KeyBlockHeight, Some blockHeight),
                         (KeyStateValue, km_Value historyValue), (KeyIsDelete, Some (IntToBytes L isDelete)),
                         (KeyTimestamp, Some timestampStr)]
                   in if blockVersion2312 \<le> blockVersion then
                        (case ConsumeKeyHistoryIterNextGasUsed2312 gasConfig gasUsed (km_Value historyValue) of
                           (gasUsed, Some err) \<Rightarrow> Val ((fail_with L err resp', gasUsed), c')
                         | (gasUsed, None) \<Rightarrow> Val ((set_payload payload resp', gasUsed), c'))
                      else Val ((set_payload payload resp', gasUsed), c')))))"

definition keyHistoryIterClose ::
  "('c, 'i, 'k) sim_lib \<Rightarrow> 32 word \<Rightarrow> GasConfig option \<Rightarrow> 'i option \<Rightarrow> 64 word \<Rightarrow> DockerVMMessage \<Rightarrow> 'c \<Rightarrow>
     ((DockerVMMessage \<times> 64 word) \<times> 'c) go" where
  "keyHistoryIterClose L blockVersion gasConfig iter gasUsed resp c =
     (case ConsumeKeyHistoryIterGasUsed (sl_gas L) blockVersion gasConfig gasUsed of
        (gasUsed, Some err) \<Rightarrow> Val ((fail_with L err resp, gasUsed), c)
      | (gasUsed, None) \<Rightarrow> (case iter of
            None \<Rightarrow> Panic
          | Some i \<Rightarrow> Val ((set_payload [] (set_code (SdkSuccess L) resp), gasUsed), iter_Release L i c)))"

definition handleConsumeKeyHistoryIterator ::
  "('c, 'i, 'k) sim_lib \<Rightarrow> string \<Rightarrow> DockerVMMessage \<Rightarrow> 64 word \<Rightarrow> RuntimeInstance \<Rightarrow> 'c \<Rightarrow>
     ((DockerVMMessage \<times> 64 word) \<times> 'c) go" where
  "handleConsumeKeyHistoryIterator L txId recvMsg gasUsed r c =
     (let resp = newEmptyResponse r txId CONSUME_KEY_HISTORY_ITER_RESPONSE;
          blockVersion = GetBlockVersion L c; gasConfig = gas_config L c
      in case (if blockVersion < blockVersion2312 then ConsumeKvIteratorGasUsedLt2312 (sl_gas L) gasUsed else (0, None)) of
           (currentGasUsed, Some err) \<Rightarrow> Val ((fail_with L err resp, currentGasUsed), c)
         | (currentGasUsed, None) \<Rightarrow> (case m_SysCallMessage recvMsg of
               None \<Rightarrow> Panic
             | Some sys \<Rightarrow>
                 (let consumeFunc = bytes_str (bytes_at (sys_Payload sys) KeyIteratorFuncName)
                  in case BytesToInt L (bytes_at (sys_Payload sys) KeyIterIndex) of
                       Inl err \<Rightarrow> Val ((fail_with L err resp, currentGasUsed), c)
                     | Inr index \<Rightarrow> (case GetIterHandle L index c of
                           None \<Rightarrow> Val ((fail_with L (''[key history iterator consume] can not found iterator index ['' @
                             Itoa (sint index) @ '']'') resp, currentGasUsed), c)
                         | Some (KeyHistoryIterator i) \<Rightarrow>
                             if consumeFunc = FuncKeyHistoryIterHasNext then
                               keyHistoryIterHasNext L blockVersion gasConfig (Some i) gasUsed resp c
                             else if consumeFunc = FuncKeyHistoryIterNext then
                               keyHistoryIterNext L blockVersion gasConfig (Some i) gasUsed resp c
                             else if consumeFunc = FuncKeyHistoryIterClose then
                               keyHistoryIterClose L blockVersion gasConfig (Some i) gasUsed resp c
                             else Val ((fail_with L (consumeFunc @ '' not found'') resp, currentGasUsed), c)
                         | Some _ \<Rightarrow> Val ((fail_with L ''assertion failed'' resp, currentGasUsed), c)))))"

end
