(* ===== verification/Paths.thy ===== *)
theory Paths
  imports Prelude
begin

text \<open>
  \<open>filepath.Clean\<close> and \<open>filepath.Join\<close> of Go's standard library on Unix, which the engine and the
  runtime use to build the paths of contract binaries, sockets and mount directories.
\<close>

fun clean_elems :: "bool \<Rightarrow> string list \<Rightarrow> string list \<Rightarrow> string list" where
  "clean_elems rooted acc [] = rev acc"
| "clean_elems rooted acc (e # es) =
     (if e = [] \<or> e = ''.'' then clean_elems rooted acc es
      else if e = ''..''
      then (case acc of
          a # as \<Rightarrow> if a = ''..'' then clean_elems rooted (e # acc) es else clean_elems rooted as es
        | [] \<Rightarrow> clean_elems rooted (if rooted then [] else [e]) es)
      else clean_elems rooted (e # acc) es)"

definition filepath_Clean :: "string \<Rightarrow> string" where
  "filepath_Clean p =
     (if p = [] then ''.''
      else let rooted = (hd p = CHR ''/'');
               s = go_join ''/'' (clean_elems rooted [] (go_split CHR ''/'' p))
           in if rooted then CHR ''/'' # s else if s = [] then ''.'' else s)"

definition filepath_Join :: "string list \<Rightarrow> string" where
  "filepath_Join xs =
     (let ys = dropWhile (\<lambda>x. x = []) xs
      in if ys = [] then [] else filepath_Clean (go_join ''/'' ys))"

text \<open>A plain file name: not empty, no slash, neither of the two special entries.\<close>

definition plain_name :: "string \<Rightarrow> bool" where
  "plain_name s \<longleftrightarrow> s \<noteq> [] \<and> CHR ''/'' \<notin> set s \<and> s \<noteq> ''.'' \<and> s \<noteq> ''..''"

lemma clean_plain: "\<forall>e\<in>set es. plain_name e \<Longrightarrow> clean_elems rooted acc es = rev acc @ es"
  by (induction es arbitrary: acc) (auto simp: plain_name_def)

definition abs_path :: "string list \<Rightarrow> string" where
  "abs_path ds = CHR ''/'' # go_join ''/'' ds"

lemma go_join_snoc: "ds \<noteq> [] \<Longrightarrow> go_join sep (ds @ [n]) = go_join sep ds @ sep @ n"
proof (induction ds)
  case (Cons d ds)
  then show ?case by (cases ds) auto
qed simp

lemma join_plain:
  assumes "ds \<noteq> []" "\<forall>d\<in>set ds. plain_name d" "plain_name n"
  shows "filepath_Join [abs_path ds, n] = abs_path (ds @ [n])"
proof -
  have p: "\<forall>e\<in>set (ds @ [n]). plain_name e" using assms by auto
  have "go_join ''/'' [abs_path ds, n] = CHR ''/'' # go_join ''/'' (ds @ [n])"
    using assms(1) by (simp add: abs_path_def go_join_snoc)
  moreover have "go_split CHR ''/'' (CHR ''/'' # go_join ''/'' (ds @ [n])) = [] # ds @ [n]"
    using go_split_join[of "ds @ [n]" "CHR ''/''"] p by (auto simp: plain_name_def)
  moreover have "clean_elems True [] ([] # ds @ [n]) = ds @ [n]" using clean_plain[OF p] by simp
  ultimately show ?thesis
    by (simp add: filepath_Join_def filepath_Clean_def abs_path_def)
qed

lemma abs_path_inject: "ds \<noteq> [] \<Longrightarrow> abs_path (ds @ [m]) = abs_path (ds @ [n]) \<longleftrightarrow> m = n"
  by (simp add: abs_path_def go_join_snoc)

end
