(* ===== verification/Runtime_Handler.thy ===== *)
theory Runtime_Handler
  imports Runtime_Iter Paths
begin

text \<open>
  The other handlers of \<open>runtime_handler.go\<close>: reading states, calling other contracts, the sender's
  address, the response of a transaction, and the binary of a contract for the engine.
\<close>

section \<open>States\<close>

definition handleGetStateRequest ::
  "('c, 'i, 'k) sim_lib \<Rightarrow> int \<Rightarrow> string \<Rightarrow> DockerVMMessage \<Rightarrow> 64 word \<Rightarrow> RuntimeInstance \<Rightarrow> 'c \<Rightarrow>
     (DockerVMMessage \<times> 64 word \<times> RuntimeInstance \<times> 'c) go" where
  "handleGetStateRequest L spent txId recvMsg gasUsed r c = (case m_SysCallMessage recvMsg of
       None \<Rightarrow> Panic
     | Some sys \<Rightarrow>
         (let resp = newEmptyResponse r txId GET_STATE_RESPONSE;
              blockVersion = GetBlockVersion L c; gasConfig = gas_config L c
          in case map_of (sys_Payload sys) KeyContractName of
               None \<Rightarrow> Val (set_code (SdkFail L) (set_message ''unknown contract name'' resp), gasUsed, r, c)
             | Some contractNameBytes \<Rightarrow>
                 (let stateKey = bytes_at (sys_Payload sys) KeyStateKey;
                      contractName = bytes_str contractNameBytes;
                      r' = add_storage spent r
                  in case ctx_Get L contractName stateKey c of
                       (Inl err, c') \<Rightarrow> Val (set_code (SdkFail L) (set_message err resp), gasUsed, r', c')
                     | (Inr val, c') \<Rightarrow>
                         (let resp1 = set_code (SdkSuccess L) resp;
                              resp2 = (if GetBlockVersion L c' < version2310 \<or> val \<noteq> None
                                then set_payload [(KeyStateValue, val)] resp1 else resp1);
                              keyList = go_split CHR ''#'' (bytes_str stateKey);
                              key = keyList ! 0; field = (if length keyList = 2 then keyList ! 1 else '''')
                          in case GetStateGasUsed (sl_gas L) blockVersion gasConfig gasUsed contractName key field val of
                               (gasUsed, Some err) \<Rightarrow> Val (set_code (SdkFail L) (set_message err resp2), gasUsed, r', c')
                             | (gasUsed, None) \<Rightarrow> Val (resp2, gasUsed, r', c')))))"

definition handleGetBatchStateRequest ::
  "('c, 'i, 'k) sim_lib \<Rightarrow> int \<Rightarrow> string \<Rightarrow> DockerVMMessage \<Rightarrow> 64 word \<Rightarrow> RuntimeInstance \<Rightarrow> 'c \<Rightarrow>
     (DockerVMMessage \<times> 64 word \<times> RuntimeInstance \<times> 'c) go" where
  "handleGetBatchStateRequest L spent txId recvMsg gasUsed r c = (case m_SysCallMessage recvMsg of
       None \<Rightarrow> Panic
     | Some sys \<Rightarrow>
         (let resp = newEmptyResponse r txId GET_BATCH_STATE_RESPONSE;
              blockVersion = GetBlockVersion L c; gasConfig = gas_config L c
          in case UnmarshalBatchKeys L (bytes_at (sys_Payload sys) KeyStateKey) of
               Inl err \<Rightarrow> Val (set_code (SdkFail L) (set_message err resp), gasUsed, r, c)
             | Inr keys \<Rightarrow>
                 (let r' = add_storage spent r
                  in case ctx_GetKeys L keys c of
                       (Inl err, c') \<Rightarrow> Val (set_message err resp, gasUsed, r', c')
                     | (Inr getKeys, c') \<Rightarrow> (case MarshalBatchKeys L getKeys of
                           Inl err \<Rightarrow> Val (set_message err resp, gasUsed, r', c')
                         | Inr payload \<Rightarrow>
                             (let resp1 = set_payload [(KeyStateValue, Some payload)] (set_code (SdkSuccess L) resp)
                              in case GetBatchStateGasUsed (sl_gas L) blockVersion gasConfig gasUsed (Some payload) of
                                   (gasUsed, Some err) \<Rightarrow> Val (set_code (SdkFail L) (set_message err resp1), gasUsed, r', c')
                                 | (gasUsed, None) \<Rightarrow> Val (resp1, gasUsed, r', c'))))))"

section \<open>The sender's address\<close>

definition handleGetSenderAddress ::
  "('c, 'i, 'k) sim_lib \<Rightarrow> string \<Rightarrow> 64 word \<Rightarrow> RuntimeInstance \<Rightarrow> 'c \<Rightarrow> ((DockerVMMessage \<times> 64 word) \<times> 'c) go" where
  "handleGetSenderAddress L txId gasUsed r c =
     (let resp = newEmptyResponse r txId GET_SENDER_ADDRESS_RESPONSE
      in case GetSenderAddressGasUsed (sl_gas L) gasUsed of
           (gasUsed, Some err) \<Rightarrow> Val ((fail_with L err resp, gasUsed), c)
         | (gasUsed, None) \<Rightarrow> (case GetSenderAddr L c of
               (Inl err, c') \<Rightarrow> Val ((fail_with L err resp, gasUsed), c')
             | (Inr address, c') \<Rightarrow> (case GetVmAddrType L c' of
                   None \<Rightarrow> Panic
                 | Some ty \<Rightarrow>
                     (let address = (if ty = AddrType_ZXL L then ''ZX'' @ address else address)
                      in Val ((set_payload [(KeySenderAddr, Some address)] (set_code (SdkSuccess L) resp), gasUsed), c')))))"

section \<open>Contract calls\<close>

fun emit_events ::
  "('c, 'i, 'k) sim_lib \<Rightarrow> 32 word \<Rightarrow> GasConfig option \<Rightarrow> ContractEvent list \<Rightarrow> 64 word \<Rightarrow> RuntimeInstance \<Rightarrow>
     (64 word \<times> error option) \<times> RuntimeInstance" where
  "emit_events L blockVersion gasConfig [] gasUsed r = ((gasUsed, None), r)"
| "emit_events L blockVersion gasConfig (event # es) gasUsed r =
     (case EmitEventGasUsed (sl_gas L) blockVersion gasConfig gasUsed event of
        (gasUsed, Some err) \<Rightarrow> ((gasUsed, Some err), r)
      | (gasUsed, None) \<Rightarrow> emit_events L blockVersion gasConfig es gasUsed (r\<lparr>rt_event := rt_event r @ [event]\<rparr>))"

definition constructCallContractResponse ::
  "('c, 'i, 'k) sim_lib \<Rightarrow> ContractResult \<Rightarrow> string \<Rightarrow> 'c \<Rightarrow> ContractResponse" where
  "constructCallContractResponse L result contractName c =
     (let (txReadMap, txWriteMap) = GetTxRWMapByContractName L contractName c
      in \<lparr>crsp_ReadMap = map (\<lambda>(k, v). (k, rw_Value v)) txReadMap,
          crsp_WriteMap = map (\<lambda>(k, v). (k, rw_Value v)) txWriteMap,
          crsp_Response = \<lparr>rsp_Status = cr_Code result, rsp_Message = cr_Message result, rsp_Payload = cr_Result result\<rparr>\<rparr>)"

definition callContractResult ::
  "('c, 'i, 'k) sim_lib \<Rightarrow> 32 word \<Rightarrow> GasConfig option \<Rightarrow> ContractResult \<Rightarrow> Contract \<Rightarrow> DockerVMMessage \<Rightarrow>
     RuntimeInstance \<Rightarrow> 'c \<Rightarrow> DockerVMMessage \<times> 64 word \<times> RuntimeInstance" where
  "callContractResult L blockVersion gasConfig result caller resp r c =
     (let resp = set_code OK resp
      in case emit_events L blockVersion gasConfig (cr_ContractEvent result) (cr_GasUsed result) r of
           ((gasUsed, Some err), r') \<Rightarrow> (set_message err (set_code FAIL resp), gasUsed, r')
         | ((gasUsed, None), r') \<Rightarrow>
             (case MarshalContractResponse L (constructCallContractResponse L result (con_Name caller) c) of
                Inl err \<Rightarrow> (set_message err (set_code FAIL resp), gasUsed, r')
              | Inr respBytes \<Rightarrow>
                  (set_code OK (set_payload [(KeyCallContractResp, Some respBytes)] resp), gasUsed, r')))"

definition handlerCallContract ::
  "('c, 'i, 'k) sim_lib \<Rightarrow> string \<Rightarrow> DockerVMMessage \<Rightarrow> 64 word \<Rightarrow> Contract \<Rightarrow> RuntimeInstance \<Rightarrow> 'c \<Rightarrow>
     (DockerVMMessage \<times> 64 word \<times> ExecOrderTxType \<times> RuntimeInstance \<times> 'c) go" where
  "handlerCallContract L txId recvMsg gasUsed caller r c = (case m_SysCallMessage recvMsg of
       None \<Rightarrow> Panic
     | Some sys \<Rightarrow>
         (let resp = newEmptyResponse r txId CALL_CONTRACT_RESPONSE;
              blockVersion = GetBlockVersion L c; gasConfig = gas_config L c;
              normal = (\<lambda>resp gasUsed c. Val (resp, gasUsed, ExecOrderTxTypeNormal, r, c))
          in case UnmarshalCallRequest L (bytes_at (sys_Payload sys) KeyCallContractReq) of
               Inl err \<Rightarrow> normal (set_message err (set_code FAIL resp)) gasUsed c
             | Inr req \<Rightarrow>
                 if ccr_ContractName req = [] then normal (setError ''missing contract name'' resp) gasUsed c
                 else if ccr_ContractMethod req = [] then normal (setError ''missing contract method'' resp) gasUsed c
                 else (case m_CrossContext recvMsg of
                     None \<Rightarrow> Panic
                   | Some x \<Rightarrow>
                       if CurrentDepth x > sl_CallContractDepth L then normal (setError ''exceed max depth'' resp) gasUsed c
                       else (case GetContractByName L (ccr_ContractName req) c of
                           (Inl err, c) \<Rightarrow> normal (setError (''[call contract] failed to get contract by ['' @
                             ccr_ContractName req @ ''], err: '' @ err) resp) gasUsed c
                         | (Inr contract, c) \<Rightarrow>
                             (case CallContractGasUsed (sl_gas L) blockVersion gasConfig gasUsed
                                (ccr_ContractName req) (ccr_ContractMethod req) (ccr_Args req) of
                                (gasUsed, Some err) \<Rightarrow> normal (setError (''[call contract] failed to subtract gas by ['' @
                                  ccr_ContractName req @ ''], err: '' @ err) resp) gasUsed c
                              | (gasUsed, None) \<Rightarrow>
                                  (let (result, specialTxType, code, c) = CallContract L caller contract (ccr_ContractMethod req)
                                         (ccr_Args req) gasUsed (GetTxType L c) c
                                   in if code \<noteq> SUCCESS then
                                        Val (set_payload [(KeyCallContractResp, cr_Result result)]
                                          (setError (''[call contract] execute error code: '' @ TxStatusCode_String code @
                                             '', msg: '' @ cr_Message result) resp), gasUsed, specialTxType, r, c)
                                      else let (resp, gasUsed, r) = callContractResult L blockVersion gasConfig result caller resp r c
                                        in Val (resp, gasUsed, specialTxType, r, c)))))))"

section \<open>The response of a transaction\<close>

text \<open>
  Besides the result, the handler enters two steps into the log of the message; the report about
  a slow transaction is a log line.
\<close>

fun tx_events ::
  "('c, 'i, 'k) sim_lib \<Rightarrow> 32 word \<Rightarrow> GasConfig option \<Rightarrow> string \<Rightarrow> DockerContractEvent list \<Rightarrow> 64 word \<Rightarrow> RuntimeInstance \<Rightarrow>
     (64 word \<times> error option) \<times> RuntimeInstance" where
  "tx_events L blockVersion gasConfig txId [] gasUsed r = ((gasUsed, None), r)"
| "tx_events L blockVersion gasConfig txId (event # es) gasUsed r =
     (let contractEvent = \<lparr>ce_Topic = ev_Topic event, ce_TxId = txId, ce_ContractName = ev_ContractName event,
            ce_EventData = ev_Data event\<rparr>
      in case EmitEventGasUsed (sl_gas L) blockVersion gasConfig gasUsed contractEvent of
           (gasUsed, Some err) \<Rightarrow> ((gasUsed, Some err), r)
         | (gasUsed, None) \<Rightarrow>
             tx_events L blockVersion gasConfig txId es gasUsed (r\<lparr>rt_event := rt_event r @ [contractEvent]\<rparr>))"

definition tx_result ::
  "('c, 'i, 'k) sim_lib \<Rightarrow> string \<Rightarrow> DockerVMMessage \<Rightarrow> 64 word \<Rightarrow> ExecOrderTxType \<Rightarrow> string \<Rightarrow> RuntimeInstance \<Rightarrow> 'c \<Rightarrow>
     ((ContractResult \<times> ExecOrderTxType) \<times> RuntimeInstance \<times> 'c) go" where
  "tx_result L txId recvMsg gasUsed txType contractName r c = (case m_Response recvMsg of
       None \<Rightarrow> Panic
     | Some txResponse \<Rightarrow>
         (let blockVersion = GetBlockVersion L c; gasConfig = gas_config L c;
              res = \<lparr>cr_Code = 0, cr_Result = resp_Result txResponse, cr_Message = resp_Message txResponse,
                     cr_GasUsed = 0, cr_ContractEvent = []\<rparr>
          in if resp_Code txResponse \<noteq> OK then
               Val ((res\<lparr>cr_Code := 1, cr_GasUsed := gasUsed\<rparr>, ExecOrderTxTypeNormal), r, c)
             else (case mergeSimContextReadMap L (resp_ReadMap txResponse) contractName c of
                 (Some err, c) \<Rightarrow> Val (errorResult res ''fail to put in sim context'', r, c)
               | (None, c) \<Rightarrow> (case mergeSimContextWriteMap L (resp_WriteMap txResponse) gasUsed contractName c of
                   ((gasUsed, Some err), c) \<Rightarrow>
                     Val (errorResult (res\<lparr>cr_GasUsed := gasUsed\<rparr>) ''fail to put in sim context'', r, c)
                 | ((gasUsed, None), c) \<Rightarrow> (case tx_events L blockVersion gasConfig txId (resp_Events txResponse) gasUsed r of
                     ((gasUsed, Some err), r) \<Rightarrow> Val (errorResult (res\<lparr>cr_GasUsed := gasUsed\<rparr>) err, r, c)
                   | ((gasUsed, None), r) \<Rightarrow>
                       Val ((res\<lparr>cr_GasUsed := gasUsed, cr_ContractEvent := rt_event r\<rparr>, txType), r, c))))))"

definition response_steps :: "SlowConfig \<Rightarrow> (nat \<Rightarrow> int) \<Rightarrow> (nat \<Rightarrow> int) \<Rightarrow> int \<Rightarrow> DockerVMMessage \<Rightarrow> DockerVMMessage" where
  "response_steps sl clk clk' msgSize recvMsg =
     rt_EnterNextStep sl clk' (rt_EnterNextStep sl clk recvMsg RUNTIME_HANDLER_RECEIVE_TX_RESPONSE (''msgSize:'' @ Itoa msgSize))
       RUNTIME_HANDLE_TX_RESPONSE []"

definition handleTxResponse ::
  "('c, 'i, 'k) sim_lib \<Rightarrow> SlowConfig \<Rightarrow> (nat \<Rightarrow> int) \<Rightarrow> (nat \<Rightarrow> int) \<Rightarrow> int \<Rightarrow>
     string \<Rightarrow> DockerVMMessage \<Rightarrow> 64 word \<Rightarrow> ExecOrderTxType \<Rightarrow> string \<Rightarrow> RuntimeInstance \<Rightarrow> 'c \<Rightarrow>
     ((ContractResult \<times> ExecOrderTxType) \<times> DockerVMMessage \<times> RuntimeInstance \<times> 'c) go" where
  "handleTxResponse L sl clk clk' msgSize txId recvMsg gasUsed txType contractName r c =
     go_bind (tx_result L txId recvMsg gasUsed txType contractName r c)
       (\<lambda>(res, r, c). Val (res, response_steps sl clk clk' msgSize recvMsg, r, c))"

end
