(* ===== verification/Files.thy ===== *)
theory Files
  imports Messages "HOL-Library.List_Lexorder" "HOL-Library.Char_ord"
begin

text \<open>
  Files and directories: the calls of the operating system that the engine and the runtime make,
  and the file helpers of \<open>vm_mgr/utils/utils.go\<close>.  A disk is a map from paths to files and
  directories, without permission bits.  Other failures of the operating system are read from
  \<open>fs_env\<close>.
\<close>

datatype node = Dir | File string

type_synonym disk = "(string, node) gomap"

text \<open>
  Failures the operating system may report although the path is in the state the call needs.  A
  failed write gives the contents it left behind, if it got as far as truncating the file.
\<close>

record fs_env =
  fs_statErr :: "string \<Rightarrow> error option"
  fs_readDirErr :: "string \<Rightarrow> error option"
  fs_chmodErr :: "string \<Rightarrow> error option"
  fs_removeErr :: "string \<Rightarrow> error option"
  fs_writeErr :: "string \<Rightarrow> (error \<times> string option) option"
  fs_mkdirErr :: "string \<Rightarrow> error option"

text \<open>The system that reports no such failure.\<close>

definition quiet_fs :: fs_env where
  "quiet_fs = \<lparr>fs_statErr = (\<lambda>_. None), fs_readDirErr = (\<lambda>_. None), fs_chmodErr = (\<lambda>_. None), fs_removeErr = (\<lambda>_. None),
     fs_writeErr = (\<lambda>_. None), fs_mkdirErr = (\<lambda>_. None)\<rparr>"

definition path_error :: "string \<Rightarrow> string \<Rightarrow> string \<Rightarrow> error" where
  "path_error op path e = op @ '' '' @ path @ '': '' @ e"

definition exists_path :: "fs_env \<Rightarrow> string \<Rightarrow> disk \<Rightarrow> bool res" where
  "exists_path en path d = (case fs_statErr en path of
       Some e \<Rightarrow> Inl e
     | None \<Rightarrow> Inr (map_of d path \<noteq> None))"

text \<open>\<open>ioutil.WriteFile\<close>.\<close>

definition WriteFile :: "fs_env \<Rightarrow> string \<Rightarrow> string \<Rightarrow> disk \<Rightarrow> disk \<times> error option" where
  "WriteFile en path value d =
     (if map_of d path = Some Dir then (d, Some (path_error ''open'' path ''is a directory''))
      else case fs_writeErr en path of
        None \<Rightarrow> (AList.update path (File value) d, None)
      | Some (e, None) \<Rightarrow> (d, Some e)
      | Some (e, Some left) \<Rightarrow> (AList.update path (File left) d, Some e))"

definition WriteToFile :: "fs_env \<Rightarrow> string \<Rightarrow> string \<Rightarrow> disk \<Rightarrow> disk \<times> error option" where
  "WriteToFile en path value d = WriteFile en path value d"

definition RemoveDir :: "fs_env \<Rightarrow> string \<Rightarrow> disk \<Rightarrow> disk \<times> error option" where
  "RemoveDir en path d =
     (case (if map_of d path = None then Some (path_error ''chmod'' path ''no such file or directory'')
            else fs_chmodErr en path) of
        Some e \<Rightarrow> (d, Some (''failed to set mod of '' @ path @ '', '' @ e))
      | None \<Rightarrow> (case fs_removeErr en path of
          Some e \<Rightarrow> (d, Some (''failed to remove file '' @ path @ '', '' @ e))
        | None \<Rightarrow> (AList.delete path d, None)))"

definition Mkdir :: "fs_env \<Rightarrow> string \<Rightarrow> disk \<Rightarrow> disk \<times> error option" where
  "Mkdir en path d =
     (if exists_path en path d = Inr True then RemoveDir en path d
      else case (if map_of d path \<noteq> None then Some (path_error ''mkdir'' path ''file exists'')
                 else fs_mkdirErr en path) of
        Some e \<Rightarrow> (d, Some (''failed to create directory, ['' @ e @ '']''))
      | None \<Rightarrow> (AList.update path Dir d, None))"

text \<open>\<open>os.Mkdir\<close>.\<close>

definition os_Mkdir :: "fs_env \<Rightarrow> string \<Rightarrow> disk \<Rightarrow> disk \<times> error option" where
  "os_Mkdir en path d =
     (case (if map_of d path \<noteq> None then Some (path_error ''mkdir'' path ''file exists'') else fs_mkdirErr en path) of
        Some e \<Rightarrow> (d, Some e)
      | None \<Rightarrow> (AList.update path Dir d, None))"

text \<open>\<open>os.MkdirAll\<close> of an absolute path: the missing ancestors, outermost first, then the path.\<close>

fun ancestors :: "string \<Rightarrow> string \<Rightarrow> string list" where
  "ancestors pre [] = [pre]"
| "ancestors pre (c # cs) =
     (if c = CHR ''/'' \<and> pre \<noteq> [] then pre # ancestors (pre @ [c]) cs else ancestors (pre @ [c]) cs)"

definition add_dir :: "string \<Rightarrow> disk \<Rightarrow> disk" where
  "add_dir path d = (if map_of d path = None then AList.update path Dir d else d)"

definition MkdirAll :: "fs_env \<Rightarrow> string \<Rightarrow> disk \<Rightarrow> disk \<times> error option" where
  "MkdirAll en path d = (case (if path = [] then Some (path_error ''mkdir'' path ''no such file or directory'') else fs_mkdirErr en path) of
       Some e \<Rightarrow> (d, Some e)
     | None \<Rightarrow> (fold add_dir (ancestors [] path) d, None))"

definition CreateDir :: "fs_env \<Rightarrow> string \<Rightarrow> disk \<Rightarrow> disk \<times> error option" where
  "CreateDir en directory d = (case exists_path en directory d of
       Inl e \<Rightarrow> (d, Some e)
     | Inr exist \<Rightarrow> if \<not> exist then MkdirAll en directory d else (d, None))"

text \<open>\<open>ioutil.ReadDir\<close>: the names of the directory's entries in increasing order.\<close>

definition child_name :: "string \<Rightarrow> string \<Rightarrow> string option" where
  "child_name dir path =
     (let n = length dir + 1; name = drop n path
      in if take n path = dir @ ''/'' \<and> name \<noteq> [] \<and> CHR ''/'' \<notin> set name then Some name else None)"

definition ReadDir :: "fs_env \<Rightarrow> string \<Rightarrow> disk \<Rightarrow> string list res" where
  "ReadDir en dir d = (case fs_readDirErr en dir of
       Some e \<Rightarrow> Inl e
     | None \<Rightarrow> if map_of d dir \<noteq> Some Dir then Inl (path_error ''open'' dir ''no such file or directory'')
               else Inr (sort (remdups (List.map_filter (child_name dir) (map fst d)))))"

end
