(* ===== verification/Runtime_Bytecode.thy ===== *)
theory Runtime_Bytecode
  imports Runtime_Base Files Paths
begin

text \<open>
  How the runtime answers the engine's request for the binary of a contract,
  \<open>handleGetByteCodeRequest\<close> of \<open>runtime_handler.go\<close>: the binary passed to the invocation, or the
  archive stored on the chain, which is unpacked in a temporary directory.  Over a domain socket
  the binary is left in the directory shared with the engine, over TCP it is sent.

  The archiver is an external program and the random name of the directory comes from a library:
  both are parameters.
\<close>

datatype cmd_result = CmdDone | StartErr error string | WaitErr error string

record bc_env =
  be_fs :: fs_env
  be_readErr :: "string \<Rightarrow> error option"
  be_removeAllLeft :: "disk option"
  be_exec :: "string list \<Rightarrow> disk \<Rightarrow> cmd_result \<times> disk"
  be_uuid :: string
  NeedSendContractByteCode :: bool
  DockerVMMountPath :: string

text \<open>\<open>ioutil.ReadFile\<close> and \<open>os.RemoveAll\<close>.\<close>

definition ReadFile :: "bc_env \<Rightarrow> string \<Rightarrow> disk \<Rightarrow> string res" where
  "ReadFile en path d = (case be_readErr en path of
       Some e \<Rightarrow> Inl e
     | None \<Rightarrow> (case map_of d path of
           Some (File s) \<Rightarrow> Inr s
         | Some Dir \<Rightarrow> Inl (path_error ''read'' path ''is a directory'')
         | None \<Rightarrow> Inl (path_error ''open'' path ''no such file or directory'')))"

definition below_dir :: "string \<Rightarrow> string \<Rightarrow> bool" where
  "below_dir dir p \<longleftrightarrow> p = dir \<or> HasPrefix p (dir @ ''/'')"

definition RemoveAll :: "bc_env \<Rightarrow> string \<Rightarrow> disk \<Rightarrow> disk" where
  "RemoveAll en dir d = (case be_removeAllLeft en of
       Some d' \<Rightarrow> d'
     | None \<Rightarrow> filter (\<lambda>e. \<not> below_dir dir (fst e)) d)"

definition saveBytesToDisk :: "bc_env \<Rightarrow> string \<Rightarrow> string \<Rightarrow> string \<Rightarrow> disk \<Rightarrow> disk \<times> error option" where
  "saveBytesToDisk en bs newFilePath newFileDir d =
     (case (if newFileDir \<noteq> [] \<and> exists_path (be_fs en) newFilePath d = Inr False
            then os_Mkdir (be_fs en) newFileDir d else (d, None)) of
        (d1, Some err) \<Rightarrow> (d1, Some err)
      | (d1, None) \<Rightarrow> WriteFile (be_fs en) newFilePath bs d1)"

definition constructContractKey :: "string list \<Rightarrow> string" where
  "constructContractKey keys = go_join ''#'' keys"

definition runCmd :: "bc_env \<Rightarrow> string \<Rightarrow> disk \<Rightarrow> disk \<times> error option" where
  "runCmd en command d = (case be_exec en (go_split CHR '' '' command) d of
       (StartErr err stderr, d') \<Rightarrow> (d', Some (''failed to run cmd '' @ command @ '' start, '' @ err @ '', '' @ stderr))
     | (WaitErr err stderr, d') \<Rightarrow> (d', Some (''failed to run cmd '' @ command @ '' wait, '' @ err @ '', '' @ stderr))
     | (CmdDone, d') \<Rightarrow> (d', None))"

definition binary_path :: "bc_env \<Rightarrow> string \<Rightarrow> string" where
  "binary_path en contractFullName =
     filepath_Join [filepath_Join [DockerVMMountPath en, mountContractDir], contractFullName]"

text \<open>The loop over the files of the temporary directory, which returns at the first that is not the archive.\<close>

fun pick_binary :: "bc_env \<Rightarrow> string \<Rightarrow> string \<Rightarrow> bool \<Rightarrow> string list \<Rightarrow> disk \<Rightarrow> disk \<times> string res" where
  "pick_binary en dir contractFullName sendContract [] d = (d, Inl ''no contract binaries satisfied'')"
| "pick_binary en dir contractFullName sendContract (name # names) d =
     (if HasSuffix name ''.7z'' then pick_binary en dir contractFullName sendContract names d
      else let fp = filepath_Join [dir, name]
        in case ReadFile en fp d of
             Inl err \<Rightarrow> (d, Inl (''read from byteCode file '' @ fp @ '' failed, '' @ err))
           | Inr extBytecode \<Rightarrow>
               if \<not> sendContract then
                 (case saveBytesToDisk en extBytecode (binary_path en contractFullName) [] d of
                    (d', Some err) \<Rightarrow> (d', Inl (''failed to save bytecode to disk: '' @ err))
                  | (d', None) \<Rightarrow> (d', Inr extBytecode))
               else (d, Inr extBytecode))"

definition extractContract :: "bc_env \<Rightarrow> string \<Rightarrow> string \<Rightarrow> bool \<Rightarrow> disk \<Rightarrow> disk \<times> string res" where
  "extractContract en bytecode contractFullName sendContract d =
     (let tmpContractDir = ''tmp-contract-'' @ be_uuid en;
          contractZipPath = filepath_Join [tmpContractDir, contractFullName @ ''.7z'']
      in case saveBytesToDisk en bytecode contractZipPath tmpContractDir d of
           (d1, Some err) \<Rightarrow> (d1, Inl ''failed to save tmp contract bin for version query'')
         | (d1, None) \<Rightarrow> (case runCmd en (''7z e '' @ contractZipPath @ '' -o'' @ tmpContractDir @ '' -y'') d1 of
             (d2, Some err) \<Rightarrow> (d2, Inl (''failed to extract contract, '' @ err))
           | (d2, None) \<Rightarrow>
               (let (d3, res) = (case ReadDir (be_fs en) tmpContractDir d2 of
                      Inl err \<Rightarrow> (d2, Inl (''failed to read tmp contract dir '' @ tmpContractDir @ '', '' @ err))
                    | Inr names \<Rightarrow>
                        if length names \<noteq> 2 then (d2, Inl (''file num in contract dir '' @ tmpContractDir @ '' != 2''))
                        else pick_binary en tmpContractDir contractFullName sendContract names d2)
                in (RemoveAll en tmpContractDir d3, res))))"

definition bytecode_response :: "RuntimeInstance \<Rightarrow> TxRequest \<Rightarrow> TxResponse" where
  "bytecode_response r req =
     zero_resp\<lparr>resp_ChainId := rt_chainId r, resp_Result := Some [CHR 0x00],
       resp_ContractName := req_ContractName req, resp_ContractVersion := req_ContractVersion req, resp_Code := FAIL\<rparr>"

definition handleGetByteCodeRequest ::
  "('c, 'i, 'k) sim_lib \<Rightarrow> bc_env \<Rightarrow> int \<Rightarrow> string \<Rightarrow> DockerVMMessage \<Rightarrow> bytes \<Rightarrow> RuntimeInstance \<Rightarrow> 'c \<Rightarrow> disk \<Rightarrow>
     (DockerVMMessage \<times> RuntimeInstance \<times> 'c \<times> disk) go" where
  "handleGetByteCodeRequest L en spent txId recvMsg byteCode r c d = (case m_Request recvMsg of
       None \<Rightarrow> Panic
     | Some req \<Rightarrow>
         (let resp = bytecode_response r req;
              msg = (\<lambda>resp. zero_msg\<lparr>m_ChainId := rt_chainId r, m_TxId := txId, m_Type := GET_BYTECODE_RESPONSE,
                       m_Response := Some resp\<rparr>);
              contractFullName = constructContractKey [req_ChainId req, req_ContractName req, req_ContractVersion req];
              sendContract = NeedSendContractByteCode en
          in if blen byteCode = 0 then
               (case GetContractBytecode L (req_ContractName req) c of
                  (res, c') \<Rightarrow>
                    (let (durs', err') = AddLatestStorageDuration (rt_txDuration r) spent (rt_durs r);
                         r' = r\<lparr>rt_durs := durs'\<rparr>
                     in case res of
                          Inr (Some (b # bs)) \<Rightarrow> (case extractContract en (b # bs) contractFullName sendContract d of
                              (d', Inl err) \<Rightarrow> Val (msg (resp\<lparr>resp_Message := err\<rparr>), r', c', d')
                            | (d', Inr extracted) \<Rightarrow>
                                Val (msg ((if sendContract then resp\<lparr>resp_Result := Some extracted\<rparr> else resp)\<lparr>resp_Code := OK\<rparr>), r', c', d'))
                        | _ \<Rightarrow> Val (msg (resp\<lparr>resp_Message := (case err' of
                              Some err \<Rightarrow> err | None \<Rightarrow> ''contract byte is nil'')\<rparr>), r', c', d)))
             else if \<not> sendContract then
               (case saveBytesToDisk en (bytes_str byteCode) (binary_path en contractFullName) [] d of
                  (d', Some err) \<Rightarrow> Val (msg (resp\<lparr>resp_Message := err, resp_Code := OK\<rparr>), r, c, d')
                | (d', None) \<Rightarrow> Val (msg (resp\<lparr>resp_Code := OK\<rparr>), r, c, d'))
             else Val (msg (resp\<lparr>resp_Code := OK, resp_Result := byteCode\<rparr>), r, c, d)))"

end
