(* ===== verification/Runtime_Config.thy ===== *)
theory Runtime_Config
  imports Tx_Duration Files
begin

text \<open>
  The configuration of the runtime, \<open>config/config.go\<close>, and its helpers, \<open>utils/utils.go\<close>.
\<close>

record RuntimeServerConfig =
  rs_Host :: string
  rs_Port :: int

record ContractEngineConfig =
  eng_Host :: string
  eng_Port :: int
  eng_MaxConnection :: "64 word"

record DockerVMConfig =
  vm_EnableDockerVM :: bool
  vm_DockerVMMountPath :: string
  vm_DockerVMLogPath :: string
  vm_ConnectionProtocol :: string
  vm_TxTimeout :: "32 word"
  vm_MaxConcurrency :: "32 word"
  vm_MaxSendMsgSize :: "32 word"
  vm_MaxRecvMsgSize :: "32 word"
  vm_RuntimeServer :: RuntimeServerConfig
  vm_ContractEngine :: ContractEngineConfig
  vm_Slow :: SlowConfig

record DockerContainerConfig =
  HostMountDir :: string
  HostLogDir :: string

definition DefaultMaxSendSize :: "32 word" where "DefaultMaxSendSize = 100"
definition DefaultMaxRecvSize :: "32 word" where "DefaultMaxRecvSize = 100"
definition rt_ContractsDir :: string where "rt_ContractsDir = ''contract-bins''"
definition SockDir :: string where "SockDir = ''contract-engine-sock''"
definition EngineSockName :: string where "EngineSockName = ''chain.sock''"
definition TCPProtocol :: string where "TCPProtocol = ''tcp''"
definition UDSProtocol :: string where "UDSProtocol = ''uds''"
definition DefaultTxTimeout :: "32 word" where "DefaultTxTimeout = 9"
definition DefaultSlowStepLogTime :: int where "DefaultSlowStepLogTime = 3"
definition DefaultSlowTxLogTime :: int where "DefaultSlowTxLogTime = 6"
definition DefaultMaxConnection :: "32 word" where "DefaultMaxConnection = 1"

definition SplitContractName :: "string \<Rightarrow> string" where
  "SplitContractName contractNameAndVersion = go_split CHR ''#'' contractNameAndVersion ! 0"

definition GetMaxSendMsgSizeFromConfig :: "DockerVMConfig \<Rightarrow> 32 word" where
  "GetMaxSendMsgSizeFromConfig cfg =
     (if vm_MaxSendMsgSize cfg < DefaultMaxSendSize then DefaultMaxSendSize else vm_MaxSendMsgSize cfg)"

definition GetMaxRecvMsgSizeFromConfig :: "DockerVMConfig \<Rightarrow> 32 word" where
  "GetMaxRecvMsgSizeFromConfig cfg =
     (if vm_MaxRecvMsgSize cfg < DefaultMaxRecvSize then DefaultMaxRecvSize else vm_MaxRecvMsgSize cfg)"

definition GetMaxConnectionFromConfig :: "DockerVMConfig \<Rightarrow> 32 word" where
  "GetMaxConnectionFromConfig cfg =
     (if eng_MaxConnection (vm_ContractEngine cfg) = 0 then DefaultMaxConnection
      else ucast (eng_MaxConnection (vm_ContractEngine cfg)))"

definition ConstructNotifyMapKey :: "string list \<Rightarrow> string" where
  "ConstructNotifyMapKey names = go_join ''#'' names"

definition ConstructUniqueTxKey :: "string list \<Rightarrow> string" where
  "ConstructUniqueTxKey names = go_join ''#'' names"

definition rt_Exists :: "fs_env \<Rightarrow> string \<Rightarrow> disk \<Rightarrow> bool res" where
  "rt_Exists en path d = (case fs_statErr en path of
       Some e \<Rightarrow> Inl e
     | None \<Rightarrow> Inr (map_of d path \<noteq> None))"

definition rt_CreateDir :: "fs_env \<Rightarrow> string \<Rightarrow> disk \<Rightarrow> disk \<times> error option" where
  "rt_CreateDir en directory d = (case rt_Exists en directory d of
       Inl e \<Rightarrow> (d, Some e)
     | Inr exist \<Rightarrow> if \<not> exist then (case MkdirAll en directory d of
           (d', Some err) \<Rightarrow> (d', Some (''failed to create ['' @ directory @ ''], err: ['' @ err @ '']''))
         | (d', None) \<Rightarrow> (d', None))
       else (d, None))"

text \<open>The keys of the maps of notifications are unambiguous for the keys that the runtime makes.\<close>

lemma unique_key_inject:
  "CHR ''#'' \<notin> set a \<Longrightarrow> CHR ''#'' \<notin> set b \<Longrightarrow>
   ConstructUniqueTxKey [a, FormatUint m] = ConstructUniqueTxKey [b, FormatUint n] \<longleftrightarrow> a = b \<and> m = n"
  by (auto simp: ConstructUniqueTxKey_def append_eq_append_conv2 Cons_eq_append_conv append_eq_Cons_conv)

end
