(* ===== verification/Client_Manager.thy ===== *)
theory Client_Manager
  imports Runtime_Config
begin

text \<open>
  The manager of the runtime's connections to the contract engine,
  \<open>rpc/contract_engine_client_manager.go\<close>: the channels to the engine, the notifications of the
  running transactions and the goroutines that connect and reconnect.

  A notification is the number of the runtime instance it belongs to.  Operations under one of the
  locks are single steps.  Dialing is the choice of the environment.
\<close>

section \<open>State\<close>

definition txSize :: int where "txSize = 50000"
definition byteCodeRespChSize :: int where "byteCodeRespChSize = 8"
definition eventSize :: int where "eventSize = 100"

datatype Event = ConnectionStopped "64 word" | OtherEvent

text \<open>
  A goroutine of \<open>establishConnections\<close> or \<open>reconnect\<close>: about to take its index, at the test of
  \<open>cm.stop\<close>, starting its client, connected but not registered, finished, or gone because the
  manager was stopped.  The first kind reports to the wait group.
\<close>

datatype conn_state =
  TakeIndex | Check "64 word" | Dial "64 word" | Connected "64 word" | Finished | Stopped

record conn_gor =
  cg_waits :: bool
  cg_state :: conn_state

record ContractEngineClientManager =
  cm_count :: "64 word"
  cm_index :: "64 word"
  cm_config :: DockerVMConfig
  aliveClientMap :: "64 word list"
  txSendCh :: "DockerVMMessage list"
  byteCodeRespCh :: "DockerVMMessage list"
  cm_notify :: "(string, nat) gomap"
  eventCh :: "Event list"
  cm_stop :: bool
  cm_gors :: "conn_gor list"
  cm_wg :: nat
  cm_started :: bool
  cm_listening :: bool

text \<open>The manager is made once: a later call returns the one that exists, with its configuration.\<close>

definition NewClientManager :: "ContractEngineClientManager option \<Rightarrow> DockerVMConfig \<Rightarrow> ContractEngineClientManager" where
  "NewClientManager mgrInstance vmConfig = (case mgrInstance of
       Some cm \<Rightarrow> cm
     | None \<Rightarrow> \<lparr>cm_count = 0, cm_index = 0, cm_config = vmConfig, aliveClientMap = [],
         txSendCh = [], byteCodeRespCh = [], cm_notify = [], eventCh = [], cm_stop = False, cm_gors = [], cm_wg = 0,
         cm_started = False, cm_listening = False\<rparr>)"

section \<open>For the runtime\<close>

definition registerNotify :: "string \<Rightarrow> string \<Rightarrow> nat \<Rightarrow> ContractEngineClientManager \<Rightarrow> ContractEngineClientManager" where
  "registerNotify chainId txId notify cm =
     cm\<lparr>cm_notify := AList.update (ConstructNotifyMapKey [chainId, txId]) notify (cm_notify cm)\<rparr>"

definition PutTxRequestWithNotify ::
  "DockerVMMessage \<Rightarrow> string \<Rightarrow> nat \<Rightarrow> ContractEngineClientManager \<Rightarrow> ContractEngineClientManager go" where
  "PutTxRequestWithNotify txRequest chainId notify cm =
     (let cm' = registerNotify chainId (m_TxId txRequest) notify cm
      in if int (length (txSendCh cm')) < txSize then Val (cm'\<lparr>txSendCh := txSendCh cm' @ [txRequest]\<rparr>) else Block)"

definition PutByteCodeResp :: "DockerVMMessage \<Rightarrow> ContractEngineClientManager \<Rightarrow> ContractEngineClientManager go" where
  "PutByteCodeResp getByteCodeResp cm =
     (if int (length (byteCodeRespCh cm)) < byteCodeRespChSize
      then Val (cm\<lparr>byteCodeRespCh := byteCodeRespCh cm @ [getByteCodeResp]\<rparr>) else Block)"

definition DeleteNotify :: "string \<Rightarrow> string \<Rightarrow> ContractEngineClientManager \<Rightarrow> ContractEngineClientManager \<times> bool" where
  "DeleteNotify chainId txId cm =
     (let notifyKey = ConstructNotifyMapKey [chainId, txId]
      in if map_of (cm_notify cm) notifyKey \<noteq> None
         then (cm\<lparr>cm_notify := AList.delete notifyKey (cm_notify cm)\<rparr>, True) else (cm, False))"

definition GetUniqueTxKey :: "string \<Rightarrow> ContractEngineClientManager \<Rightarrow> ContractEngineClientManager \<times> string" where
  "GetUniqueTxKey txId cm =
     (let nextCount = cm_count cm + 1
      in (cm\<lparr>cm_count := nextCount\<rparr>, ConstructUniqueTxKey [txId, FormatUint nextCount]))"

definition cm_NeedSendContractByteCode :: "ContractEngineClientManager \<Rightarrow> bool" where
  "cm_NeedSendContractByteCode cm \<longleftrightarrow> vm_ConnectionProtocol (cm_config cm) = TCPProtocol"

definition HasActiveConnections :: "ContractEngineClientManager \<Rightarrow> bool" where
  "HasActiveConnections cm \<longleftrightarrow> length (aliveClientMap cm) > 0"

definition GetTxSendChLen :: "ContractEngineClientManager \<Rightarrow> int" where
  "GetTxSendChLen cm = int (length (txSendCh cm))"

definition GetByteCodeRespChLen :: "ContractEngineClientManager \<Rightarrow> int" where
  "GetByteCodeRespChLen cm = int (length (byteCodeRespCh cm))"

section \<open>For the clients\<close>

definition PutEvent :: "Event \<Rightarrow> ContractEngineClientManager \<Rightarrow> ContractEngineClientManager go" where
  "PutEvent event cm =
     (if int (length (eventCh cm)) < eventSize then Val (cm\<lparr>eventCh := eventCh cm @ [event]\<rparr>) else Block)"

definition GetReceiveNotify :: "string \<Rightarrow> string \<Rightarrow> ContractEngineClientManager \<Rightarrow> nat option" where
  "GetReceiveNotify chainId txId cm = map_of (cm_notify cm) (ConstructNotifyMapKey [chainId, txId])"

section \<open>Connections\<close>

definition getNextIndex :: "ContractEngineClientManager \<Rightarrow> ContractEngineClientManager \<times> 64 word" where
  "getNextIndex cm = (cm\<lparr>cm_index := cm_index cm + 1\<rparr>, cm_index cm)"

text \<open>\<open>establishConnections\<close> up to the wait for its goroutines.\<close>

definition establishConnections :: "ContractEngineClientManager \<Rightarrow> ContractEngineClientManager" where
  "establishConnections cm =
     (let totalConnections = unat (GetMaxConnectionFromConfig (cm_config cm))
      in cm\<lparr>cm_wg := cm_wg cm + totalConnections,
            cm_gors := cm_gors cm @ replicate totalConnections \<lparr>cg_waits = True, cg_state = TakeIndex\<rparr>\<rparr>)"

text \<open>
  \<open>Start\<close>: the first call starts the goroutines and waits for them; when all are connected the
  manager listens to events, and the call returns.
\<close>

definition cm_Start :: "ContractEngineClientManager \<Rightarrow> ContractEngineClientManager" where
  "cm_Start cm = (if cm_started cm then cm else establishConnections (cm\<lparr>cm_started := True\<rparr>))"

definition cm_startWait :: "ContractEngineClientManager \<Rightarrow> ContractEngineClientManager go" where
  "cm_startWait cm = (if cm_wg cm = 0 then Val (cm\<lparr>cm_listening := True\<rparr>) else Block)"

text \<open>
  A step of the connecting goroutine \<open>i\<close>; \<open>ok\<close> is the outcome of starting the client.  The loops of
  \<open>establishConnections\<close> and \<open>reconnect\<close> differ only in the wait group.
\<close>

definition conn_step :: "nat \<Rightarrow> bool \<Rightarrow> ContractEngineClientManager \<Rightarrow> ContractEngineClientManager" where
  "conn_step i ok cm =
     (let g = cm_gors cm ! i; upd = (\<lambda>st cm. cm\<lparr>cm_gors := (cm_gors cm)[i := g\<lparr>cg_state := st\<rparr>]\<rparr>)
      in case cg_state g of
           TakeIndex \<Rightarrow> (let (cm', newIndex) = getNextIndex cm in upd (Check newIndex) cm')
         | Check newIndex \<Rightarrow> upd (if cm_stop cm then Stopped else Dial newIndex) cm
         | Dial newIndex \<Rightarrow> upd (if ok then Connected newIndex else Check newIndex) cm
         | Connected newIndex \<Rightarrow>
             (let cm' = cm\<lparr>aliveClientMap := List.insert newIndex (aliveClientMap cm)\<rparr>
              in upd Finished (if cg_waits g then cm'\<lparr>cm_wg := cm_wg cm' - 1\<rparr> else cm'))
         | _ \<Rightarrow> cm)"

definition dropConnection :: "64 word \<Rightarrow> ContractEngineClientManager \<Rightarrow> ContractEngineClientManager" where
  "dropConnection i cm = cm\<lparr>aliveClientMap := remove1 i (aliveClientMap cm)\<rparr>"

definition reconnect :: "ContractEngineClientManager \<Rightarrow> ContractEngineClientManager" where
  "reconnect cm = cm\<lparr>cm_gors := cm_gors cm @ [\<lparr>cg_waits = False, cg_state = TakeIndex\<rparr>]\<rparr>"

text \<open>One iteration of the loop over the events; without an event, or before the loop, it waits.\<close>

definition cm_listen :: "ContractEngineClientManager \<Rightarrow> ContractEngineClientManager go" where
  "cm_listen cm = (case (if cm_listening cm then eventCh cm else []) of
       [] \<Rightarrow> Block
     | event # es \<Rightarrow>
         (let cm1 = cm\<lparr>eventCh := es\<rparr>
          in case event of
               ConnectionStopped i \<Rightarrow> Val (reconnect (dropConnection i cm1))
             | OtherEvent \<Rightarrow> Val cm1))"

text \<open>\<open>Stop\<close> also closes the streams of the clients that are alive.\<close>

definition closeAllConnections :: "ContractEngineClientManager \<Rightarrow> ContractEngineClientManager \<times> 64 word list" where
  "closeAllConnections cm = (cm\<lparr>cm_stop := True\<rparr>, aliveClientMap cm)"

section \<open>Runs\<close>

text \<open>
  The runs after \<open>Start\<close>: the goroutines that connect, events of the clients, and \<open>Stop\<close>.
\<close>

inductive mgr_run :: "ContractEngineClientManager \<Rightarrow> ContractEngineClientManager \<Rightarrow> bool" where
  mr_refl: "mgr_run cm cm"
| mr_conn: "mgr_run cm cm1 \<Longrightarrow> i < length (cm_gors cm1) \<Longrightarrow> mgr_run cm (conn_step i ok cm1)"
| mr_event: "mgr_run cm cm1 \<Longrightarrow> PutEvent ev cm1 = Val cm2 \<Longrightarrow> mgr_run cm cm2"
| mr_listen: "mgr_run cm cm1 \<Longrightarrow> cm_listen cm1 = Val cm2 \<Longrightarrow> mgr_run cm cm2"
| mr_wait: "mgr_run cm cm1 \<Longrightarrow> cm_startWait cm1 = Val cm2 \<Longrightarrow> mgr_run cm cm2"
| mr_stop: "mgr_run cm cm1 \<Longrightarrow> mgr_run cm (fst (closeAllConnections cm1))"

definition pending :: "conn_gor \<Rightarrow> bool" where
  "pending g \<longleftrightarrow> cg_waits g \<and> cg_state g \<noteq> Finished"

text \<open>The wait group counts the goroutines it waits for that have not finished.\<close>

definition wg_ok :: "ContractEngineClientManager \<Rightarrow> bool" where
  "wg_ok cm \<longleftrightarrow> cm_wg cm = length (filter pending (cm_gors cm))"

definition stuck :: "nat \<Rightarrow> ContractEngineClientManager \<Rightarrow> bool" where
  "stuck i cm \<longleftrightarrow> i < length (cm_gors cm) \<and> cg_waits (cm_gors cm ! i) \<and> cm_stop cm \<and>
     (case cg_state (cm_gors cm ! i) of TakeIndex \<Rightarrow> True | Check _ \<Rightarrow> True | Stopped \<Rightarrow> True | _ \<Rightarrow> False)"

lemma filter_update_same:
  "i < length xs \<Longrightarrow> P x = P (xs ! i) \<Longrightarrow> length (filter P (xs[i := x])) = length (filter P xs)"
  by (induction xs arbitrary: i) (auto split: nat.splits)

lemma filter_update_drop:
  "i < length xs \<Longrightarrow> P (xs ! i) \<Longrightarrow> \<not> P x \<Longrightarrow> Suc (length (filter P (xs[i := x]))) = length (filter P xs)"
  by (induction xs arbitrary: i) (auto split: nat.splits)

lemma conn_step_wg:
  assumes "wg_ok cm" "i < length (cm_gors cm)"
  shows "wg_ok (conn_step i ok cm)"
proof (cases "cg_state (cm_gors cm ! i)")
  case (Connected x)
  then show ?thesis
    using assms filter_update_drop[of i "cm_gors cm" pending "(cm_gors cm ! i)\<lparr>cg_state := Finished\<rparr>"]
    by (auto simp: conn_step_def wg_ok_def Let_def pending_def filter_update_same)
qed (use assms in \<open>auto simp: conn_step_def wg_ok_def getNextIndex_def Let_def pending_def filter_update_same\<close>)

lemma conn_step_stuck:
  assumes "stuck i cm" "j < length (cm_gors cm)"
  shows "stuck i (conn_step j ok cm)"
proof (cases "j = i")
  case True
  then show ?thesis
    using assms by (auto simp: conn_step_def stuck_def getNextIndex_def Let_def split: conn_state.splits)
next
  case False
  then show ?thesis
    using assms by (cases "cg_state (cm_gors cm ! j)") (auto simp: conn_step_def stuck_def getNextIndex_def Let_def)
qed

lemma cm_listen_gors:
  assumes "cm_listen cm = Val cm'"
  shows "cm_gors cm' = cm_gors cm \<or> cm_gors cm' = cm_gors cm @ [\<lparr>cg_waits = False, cg_state = TakeIndex\<rparr>]"
    and "cm_wg cm' = cm_wg cm" and "cm_stop cm' = cm_stop cm"
  using assms by (auto simp: cm_listen_def Let_def reconnect_def dropConnection_def split: list.splits Event.splits if_splits)

lemma stuck_append: "stuck i cm \<Longrightarrow> cm_gors cm' = cm_gors cm @ gs \<Longrightarrow> cm_stop cm' = cm_stop cm \<Longrightarrow> stuck i cm'"
  by (auto simp: stuck_def nth_append)

lemma mgr_run_wg: "mgr_run cm cm' \<Longrightarrow> wg_ok cm \<Longrightarrow> wg_ok cm'"
proof (induction rule: mgr_run.induct)
  case (mr_listen cm cm1 cm2)
  then show ?case
    using cm_listen_gors[OF mr_listen(2)] by (auto simp: wg_ok_def pending_def)
qed (auto simp: conn_step_wg, auto simp: wg_ok_def PutEvent_def cm_startWait_def closeAllConnections_def split: if_splits)

lemma mgr_run_stuck: "mgr_run cm cm' \<Longrightarrow> stuck i cm \<Longrightarrow> stuck i cm'"
proof (induction rule: mgr_run.induct)
  case (mr_listen cm cm1 cm2)
  then show ?case
    using cm_listen_gors[OF mr_listen(2)] stuck_append[of i cm1 cm2 "[]"] stuck_append[of i cm1 cm2] by auto
qed (auto simp: conn_step_stuck, auto simp: stuck_def PutEvent_def cm_startWait_def closeAllConnections_def split: if_splits)

lemma wg_ok_start: "wg_ok (cm_Start (NewClientManager None vmConfig))"
  by (simp add: cm_Start_def NewClientManager_def establishConnections_def wg_ok_def pending_def Let_def)

lemma stuck_wg: "stuck i cm \<Longrightarrow> wg_ok cm \<Longrightarrow> cm_wg cm \<noteq> 0"
  by (auto simp: stuck_def wg_ok_def pending_def filter_empty_conv in_set_conv_nth split: conn_state.splits intro!: exI[of _ i])

definition sample_vm :: DockerVMConfig where
  "sample_vm = \<lparr>vm_EnableDockerVM = True, vm_DockerVMMountPath = ''/mount'', vm_DockerVMLogPath = ''/log'',
     vm_ConnectionProtocol = TCPProtocol, vm_TxTimeout = 9, vm_MaxConcurrency = 1, vm_MaxSendMsgSize = 100,
     vm_MaxRecvMsgSize = 100, vm_RuntimeServer = \<lparr>rs_Host = [], rs_Port = 1\<rparr>,
     vm_ContractEngine = \<lparr>eng_Host = [], eng_Port = 1, eng_MaxConnection = 1\<rparr>,
     vm_Slow = \<lparr>slow_Disable = True, slow_StepTime = 3, slow_TxTime = 6\<rparr>\<rparr>"

definition sample_start :: ContractEngineClientManager where
  "sample_start = cm_Start (NewClientManager None sample_vm)"

definition sample_stopped :: ContractEngineClientManager where
  "sample_stopped = fst (closeAllConnections sample_start)"

text \<open>
  C37: A stop while a first connection is not being made blocks the start for ever.  Once the manager
  is stopped and one of the goroutines of \<open>establishConnections\<close> has not passed its test of
  \<open>cm.stop\<close>, that goroutine can only return without \<open>wg.Done()\<close>: in every later state \<open>Start\<close> still
  waits, and the loop over the events never runs.
\<close>

theorem stop_hangs_start:
  assumes "mgr_run (cm_Start (NewClientManager None vmConfig)) cm" "stuck i cm" "mgr_run cm cm'"
  shows "cm_startWait cm' = Block"
  using mgr_run_wg[OF assms(3) mgr_run_wg[OF assms(1) wg_ok_start]] mgr_run_stuck[OF assms(3,2)] stuck_wg
  by (auto simp: cm_startWait_def)

theorem stop_hangs_start_witness:
  "cg_state (cm_gors (conn_step 0 True (conn_step 0 True sample_stopped)) ! 0) = Stopped \<and>
   cm_startWait (conn_step 0 True (conn_step 0 True sample_stopped)) = Block"
proof -
  have s: "stuck 0 sample_stopped" by code_simp
  have l: "length (cm_gors sample_stopped) = 1" "length (cm_gors (conn_step 0 True sample_stopped)) = 1"
    by code_simp+
  have r: "mgr_run (cm_Start (NewClientManager None sample_vm)) sample_stopped"
    unfolding sample_stopped_def sample_start_def by (intro mr_stop mr_refl)
  have "mgr_run sample_stopped (conn_step 0 True (conn_step 0 True sample_stopped))"
    using l by (intro mr_conn mr_refl) simp_all
  from stop_hangs_start[OF r s this] show ?thesis by (intro conjI) (code_simp, assumption)
qed

end
