(* ===== verification/Rpc_Streams.thy ===== *)
theory Rpc_Streams
  imports Client_Manager Paths
begin

text \<open>
  The two ends of the runtime's streams: the client of a connection to the contract engine,
  \<open>rpc/contract_engine_client.go\<close>, and the service for the sandboxes, \<open>rpc/runtime_service.go\<close>.
  Each stream has a routine that receives and one that sends; the routine that fails closes a
  channel that stops the other one.

  The stream is the environment: what it receives and whether sending works are inputs of the
  steps.  Closing a closed channel panics.
\<close>

section \<open>A pair of routines\<close>

record duplex =
  dx_stopSend :: bool
  dx_stopReceive :: bool
  dx_recvEnded :: bool
  dx_sendEnded :: bool

definition new_duplex :: duplex where
  "new_duplex = \<lparr>dx_stopSend = False, dx_stopReceive = False, dx_recvEnded = False, dx_sendEnded = False\<rparr>"

definition close_stopSend :: "'a duplex_scheme \<Rightarrow> 'a duplex_scheme go" where
  "close_stopSend d = (if dx_stopSend d then Panic else Val (d\<lparr>dx_stopSend := True\<rparr>))"

definition close_stopReceive :: "'a duplex_scheme \<Rightarrow> 'a duplex_scheme go" where
  "close_stopReceive d = (if dx_stopReceive d then Panic else Val (d\<lparr>dx_stopReceive := True\<rparr>))"

datatype recv_input = RecvErr | RecvMsg DockerVMMessage

datatype send_result = SendOk | SendExhausted | SendErr

section \<open>The client of a connection\<close>

record ContractEngineClient = duplex +
  cl_id :: "64 word"
  cl_connClosed :: bool
  cl_sent :: "DockerVMMessage list"
  cl_lost :: "DockerVMMessage list"

definition NewContractEngineClient :: "64 word \<Rightarrow> ContractEngineClient" where
  "NewContractEngineClient i = \<lparr>dx_stopSend = False, dx_stopReceive = False, dx_recvEnded = False, dx_sendEnded = False,
     cl_id = i, cl_connClosed = False, cl_sent = [], cl_lost = []\<rparr>"

text \<open>The address and the message sizes, in bytes, with which a client dials.\<close>

datatype dial = DialTCP string | DialUnix string

definition NewClientConn :: "DockerVMConfig \<Rightarrow> dial \<times> int \<times> int" where
  "NewClientConn cfg =
     (let recvSize = uint (GetMaxRecvMsgSizeFromConfig cfg) * 1024 * 1024;
          sendSize = uint (GetMaxSendMsgSizeFromConfig cfg) * 1024 * 1024
      in (if vm_ConnectionProtocol cfg = TCPProtocol
          then DialTCP (eng_Host (vm_ContractEngine cfg) @ '':'' @ Itoa (eng_Port (vm_ContractEngine cfg)))
          else DialUnix (filepath_Join [vm_DockerVMMountPath cfg, SockDir, EngineSockName]), recvSize, sendSize))"

datatype send_choice = TakeTx | TakeByteCode | TakeStop

text \<open>
  One iteration of \<open>sendMsgRoutine\<close>: which ready case the select takes, the clock and the message
  size for the step log, and the result of sending.  A case that is not ready waits.
\<close>

definition after_send :: "DockerVMMessage \<Rightarrow> send_result \<Rightarrow> ContractEngineClient \<Rightarrow> ContractEngineClient go" where
  "after_send msg res c = (case res of
       SendOk \<Rightarrow> Val (c\<lparr>cl_sent := cl_sent c @ [msg]\<rparr>)
     | SendExhausted \<Rightarrow> Val (c\<lparr>cl_lost := cl_lost c @ [msg]\<rparr>)
     | SendErr \<Rightarrow> go_bind (close_stopReceive (c\<lparr>cl_lost := cl_lost c @ [msg]\<rparr>)) (\<lambda>c. Val (c\<lparr>dx_sendEnded := True\<rparr>)))"

definition sendMsgRoutine ::
  "SlowConfig \<Rightarrow> (nat \<Rightarrow> int) \<Rightarrow> int \<Rightarrow> send_choice \<Rightarrow> send_result \<Rightarrow> ContractEngineClient \<times> ContractEngineClientManager \<Rightarrow>
     (ContractEngineClient \<times> ContractEngineClientManager) go" where
  "sendMsgRoutine sl clk msgSize ch res = (\<lambda>(c, cm).
     if dx_sendEnded c then Block
     else case ch of
       TakeTx \<Rightarrow> (case txSendCh cm of
           [] \<Rightarrow> Block
         | txReq # reqs \<Rightarrow>
             (let txReq = rt_EnterNextStep sl clk txReq RUNTIME_GRPC_SEND_TX_REQUEST (''msgSize:'' @ Itoa msgSize)
              in go_bind (after_send txReq res c) (\<lambda>c. Val (c, cm\<lparr>txSendCh := reqs\<rparr>))))
     | TakeByteCode \<Rightarrow> (case byteCodeRespCh cm of
           [] \<Rightarrow> Block
         | resp # resps \<Rightarrow> go_bind (after_send resp res c) (\<lambda>c. Val (c, cm\<lparr>byteCodeRespCh := resps\<rparr>)))
     | TakeStop \<Rightarrow> if dx_stopSend c then Val (c\<lparr>dx_sendEnded := True\<rparr>, cm) else Block)"

text \<open>
  One iteration of \<open>receiveMsgRoutine\<close>, with the message that it hands to a runtime instance.  It
  looks at the stop channel before it waits for a message; \<open>late\<close> says that the channel was closed
  during the wait.  When the routine ends, it reports the end of the connection.
\<close>

definition recv_end ::
  "ContractEngineClient \<times> ContractEngineClientManager \<Rightarrow>
     ((ContractEngineClient \<times> ContractEngineClientManager) \<times> (nat \<times> DockerVMMessage) option) go" where
  "recv_end = (\<lambda>(c, cm). go_bind (PutEvent (ConnectionStopped (cl_id c)) cm)
     (\<lambda>cm. Val ((c\<lparr>dx_recvEnded := True\<rparr>, cm), None)))"

definition receiveMsgRoutine ::
  "bool \<Rightarrow> recv_input \<Rightarrow> ContractEngineClient \<times> ContractEngineClientManager \<Rightarrow>
     ((ContractEngineClient \<times> ContractEngineClientManager) \<times> (nat \<times> DockerVMMessage) option) go" where
  "receiveMsgRoutine late inp = (\<lambda>(c, cm).
     if dx_recvEnded c then Block
     else if dx_stopReceive c \<and> \<not> late then recv_end (c, cm)
     else case inp of
       RecvErr \<Rightarrow> go_bind (close_stopSend c) (\<lambda>c. recv_end (c, cm))
     | RecvMsg msg \<Rightarrow>
         if m_Type msg \<in> {TX_RESPONSE, GET_BYTECODE_REQUEST, ERROR}
         then Val ((c, cm), map_option (\<lambda>n. (n, msg)) (GetReceiveNotify (m_ChainId msg) (m_TxId msg) cm))
         else Val ((c, cm), None))"

text \<open>The goroutine of \<open>Start\<close> that waits for either stop channel and closes the connection.\<close>

definition watch_stop :: "ContractEngineClient \<Rightarrow> ContractEngineClient go" where
  "watch_stop c = (if cl_connClosed c then Block
     else if dx_stopReceive c \<or> dx_stopSend c then Val (c\<lparr>cl_connClosed := True\<rparr>) else Block)"

section \<open>The service for the sandboxes\<close>

text \<open>
  The concurrent map of a library, by its operations; a notification is the number of the runtime
  instance it belongs to.
\<close>

record 'm cmap_ops =
  cmap_New :: 'm
  cmap_Get :: "string \<Rightarrow> 'm \<Rightarrow> nat option"
  cmap_Set :: "string \<Rightarrow> nat \<Rightarrow> 'm \<Rightarrow> 'm"
  cmap_Remove :: "string \<Rightarrow> 'm \<Rightarrow> 'm"

record 'm RuntimeService =
  streamCounter :: "64 word"
  sandboxMsgNotify :: 'm

text \<open>The service is made once, as the manager.\<close>

definition NewRuntimeService :: "'m cmap_ops \<Rightarrow> 'm RuntimeService option \<Rightarrow> 'm RuntimeService" where
  "NewRuntimeService C runtimeServiceInstance = (case runtimeServiceInstance of
       Some s \<Rightarrow> s
     | None \<Rightarrow> \<lparr>streamCounter = 0, sandboxMsgNotify = cmap_New C\<rparr>)"

definition getStreamId :: "'m RuntimeService \<Rightarrow> 'm RuntimeService \<times> 64 word" where
  "getStreamId s = (s\<lparr>streamCounter := streamCounter s + 1\<rparr>, streamCounter s + 1)"

definition RegisterSandboxMsgNotify ::
  "'m cmap_ops \<Rightarrow> string \<Rightarrow> string \<Rightarrow> nat \<Rightarrow> 'm RuntimeService \<Rightarrow> 'm RuntimeService" where
  "RegisterSandboxMsgNotify C chainId txKey respNotify s =
     s\<lparr>sandboxMsgNotify := cmap_Set C (ConstructNotifyMapKey [chainId, txKey]) respNotify (sandboxMsgNotify s)\<rparr>"

definition getNotify :: "'m cmap_ops \<Rightarrow> string \<Rightarrow> string \<Rightarrow> 'm RuntimeService \<Rightarrow> nat option" where
  "getNotify C chainId txId s = cmap_Get C (ConstructNotifyMapKey [chainId, txId]) (sandboxMsgNotify s)"

definition DeleteSandboxMsgNotify ::
  "'m cmap_ops \<Rightarrow> string \<Rightarrow> string \<Rightarrow> 'm RuntimeService \<Rightarrow> 'm RuntimeService \<times> bool" where
  "DeleteSandboxMsgNotify C chainId txId s =
     (let notifyKey = ConstructNotifyMapKey [chainId, txId]
      in if cmap_Get C notifyKey (sandboxMsgNotify s) = None then (s, False)
         else (s\<lparr>sandboxMsgNotify := cmap_Remove C notifyKey (sandboxMsgNotify s)\<rparr>, True))"

record serviceStream = duplex +
  ss_streamId :: "64 word"
  sendResponseCh :: "DockerVMMessage list"
  ss_sent :: "DockerVMMessage list"
  ss_wg :: nat

definition putResp :: "DockerVMMessage \<Rightarrow> serviceStream \<Rightarrow> serviceStream go" where
  "putResp msg ss = (if length (sendResponseCh ss) < 1 then Val (ss\<lparr>sendResponseCh := sendResponseCh ss @ [msg]\<rparr>) else Block)"

text \<open>\<open>DockerVMCommunicate\<close> up to the wait for its two routines.\<close>

definition DockerVMCommunicate :: "'m RuntimeService \<Rightarrow> 'm RuntimeService \<times> serviceStream" where
  "DockerVMCommunicate s = (let (s', i) = getStreamId s
     in (s', \<lparr>dx_stopSend = False, dx_stopReceive = False, dx_recvEnded = False, dx_sendEnded = False,
              ss_streamId = i, sendResponseCh = [], ss_sent = [], ss_wg = 2\<rparr>))"

definition sandbox_types :: "DockerVMType list" where
  "sandbox_types = [TX_RESPONSE, CALL_CONTRACT_REQUEST, GET_STATE_REQUEST, GET_BATCH_STATE_REQUEST,
     CREATE_KV_ITERATOR_REQUEST, CONSUME_KV_ITERATOR_REQUEST, CREATE_KEY_HISTORY_ITER_REQUEST,
     CONSUME_KEY_HISTORY_ITER_REQUEST, GET_SENDER_ADDRESS_REQUEST]"

definition recvRoutine ::
  "'m cmap_ops \<Rightarrow> 'm RuntimeService \<Rightarrow> bool \<Rightarrow> recv_input \<Rightarrow> serviceStream \<Rightarrow> (serviceStream \<times> (nat \<times> DockerVMMessage) option) go" where
  "recvRoutine C s late inp ss =
     (if dx_recvEnded ss then Block
      else if dx_stopReceive ss \<and> \<not> late then Val (ss\<lparr>ss_wg := ss_wg ss - 1, dx_recvEnded := True\<rparr>, None)
      else case inp of
        RecvErr \<Rightarrow> go_bind (close_stopSend ss) (\<lambda>ss. Val (ss\<lparr>ss_wg := ss_wg ss - 1, dx_recvEnded := True\<rparr>, None))
      | RecvMsg msg \<Rightarrow>
          if m_Type msg \<in> set sandbox_types
          then Val (ss, map_option (\<lambda>n. (n, msg)) (getNotify C (m_ChainId msg) (m_TxId msg) s))
          else Val (ss, None))"

definition sendRoutine :: "bool \<Rightarrow> send_result \<Rightarrow> serviceStream \<Rightarrow> serviceStream go" where
  "sendRoutine take_stop res ss =
     (if dx_sendEnded ss then Block
      else if take_stop then
        (if dx_stopSend ss then Val (ss\<lparr>ss_wg := ss_wg ss - 1, dx_sendEnded := True\<rparr>) else Block)
      else case sendResponseCh ss of
        [] \<Rightarrow> Block
      | msg # msgs \<Rightarrow>
          (let ss = ss\<lparr>sendResponseCh := msgs\<rparr>
           in case res of
                SendOk \<Rightarrow> Val (ss\<lparr>ss_sent := ss_sent ss @ [msg]\<rparr>)
              | SendExhausted \<Rightarrow> Val ss
              | SendErr \<Rightarrow> go_bind (close_stopReceive ss) (\<lambda>ss. Val (ss\<lparr>ss_wg := ss_wg ss - 1, dx_sendEnded := True\<rparr>))))"

section \<open>The contract of a pair of routines\<close>

text \<open>
  What either kind of stream promises of its two routines: a step changes the flags of the other
  routine only by closing its stop channel, and only when the stepping routine ends; it panics only
  when the channel it would close is closed already; and a routine whose stop channel is closed can
  end.
\<close>

definition recv_keeps :: "'a duplex_scheme \<Rightarrow> 'b duplex_scheme \<Rightarrow> bool" where
  "recv_keeps d d' \<longleftrightarrow> \<not> dx_recvEnded d \<and> dx_sendEnded d' = dx_sendEnded d \<and> dx_stopReceive d' = dx_stopReceive d \<and>
     (dx_stopSend d' = dx_stopSend d \<or> dx_stopSend d' \<and> dx_recvEnded d') \<and>
     (dx_recvEnded d' \<longrightarrow> dx_stopSend d' \<or> dx_stopReceive d')"

definition send_keeps :: "'a duplex_scheme \<Rightarrow> 'b duplex_scheme \<Rightarrow> bool" where
  "send_keeps d d' \<longleftrightarrow> \<not> dx_sendEnded d \<and> dx_recvEnded d' = dx_recvEnded d \<and> dx_stopSend d' = dx_stopSend d \<and>
     (dx_stopReceive d' = dx_stopReceive d \<or> dx_stopReceive d' \<and> dx_sendEnded d') \<and>
     (dx_sendEnded d' \<longrightarrow> dx_stopSend d' \<or> dx_stopReceive d')"

definition duplex_ok :: "'a duplex_scheme \<Rightarrow> bool" where
  "duplex_ok d \<longleftrightarrow> (dx_stopSend d \<longrightarrow> dx_recvEnded d) \<and> (dx_stopReceive d \<longrightarrow> dx_sendEnded d) \<and>
     (dx_recvEnded d \<longrightarrow> dx_stopSend d \<or> dx_stopReceive d) \<and> (dx_sendEnded d \<longrightarrow> dx_stopSend d \<or> dx_stopReceive d)"

text \<open>The interleavings of the two routines.\<close>

fun duplex_run :: "('r \<Rightarrow> 's \<Rightarrow> 's go) \<Rightarrow> ('w \<Rightarrow> 's \<Rightarrow> 's go) \<Rightarrow> ('r + 'w) list \<Rightarrow> 's \<Rightarrow> 's go" where
  "duplex_run recv send [] s = Val s"
| "duplex_run recv send (Inl r # es) s = go_bind (recv r s) (duplex_run recv send es)"
| "duplex_run recv send (Inr w # es) s = go_bind (send w s) (duplex_run recv send es)"

text \<open>
  No interleaving panics, and when the receiver has ended, the sender has ended or has a step with
  which it ends.
\<close>

definition stops_safely ::
  "('s \<Rightarrow> duplex) \<Rightarrow> ('r \<Rightarrow> 's \<Rightarrow> 's go) \<Rightarrow> ('w \<Rightarrow> 's \<Rightarrow> 's go) \<Rightarrow> 's \<Rightarrow> bool" where
  "stops_safely dx recv send s \<longleftrightarrow> (\<forall>es. duplex_run recv send es s \<noteq> Panic \<and>
     (\<forall>s'. duplex_run recv send es s = Val s' \<and> dx_recvEnded (dx s') \<longrightarrow>
        dx_sendEnded (dx s') \<or> (\<exists>w s''. send w s' = Val s'' \<and> dx_sendEnded (dx s''))))"

locale stream_routines =
  fixes dx :: "'s \<Rightarrow> duplex"
    and recv :: "'r \<Rightarrow> 's \<Rightarrow> 's go"
    and send :: "'w \<Rightarrow> 's \<Rightarrow> 's go"
  assumes recv_val: "recv r s = Val s' \<Longrightarrow> recv_keeps (dx s) (dx s')"
    and send_val: "send w s = Val s' \<Longrightarrow> send_keeps (dx s) (dx s')"
    and recv_panic: "recv r s = Panic \<Longrightarrow> dx_stopSend (dx s) \<and> \<not> dx_recvEnded (dx s)"
    and send_panic: "send w s = Panic \<Longrightarrow> dx_stopReceive (dx s) \<and> \<not> dx_sendEnded (dx s)"
    and send_can_end: "dx_stopSend (dx s) \<Longrightarrow> \<not> dx_sendEnded (dx s) \<Longrightarrow> \<exists>w s'. send w s = Val s' \<and> dx_sendEnded (dx s')"
begin

lemma receiver_ok: "duplex_ok (dx s) \<Longrightarrow> recv r s = Val s' \<Longrightarrow> duplex_ok (dx s')"
  using recv_val[of r s s'] by (auto simp: duplex_ok_def recv_keeps_def)

lemma sender_ok: "duplex_ok (dx s) \<Longrightarrow> send w s = Val s' \<Longrightarrow> duplex_ok (dx s')"
  using send_val[of w s s'] by (auto simp: duplex_ok_def send_keeps_def)

lemma run_no_panic: "duplex_ok (dx s) \<Longrightarrow> duplex_run recv send es s \<noteq> Panic"
proof (induction es arbitrary: s)
  case (Cons e es)
  show ?case
  proof (cases e)
    case (Inl r)
    then show ?thesis
      using Cons recv_panic[of r s] receiver_ok[of s r] by (cases "recv r s") (auto simp: duplex_ok_def)
  next
    case (Inr w)
    then show ?thesis
      using Cons send_panic[of w s] sender_ok[of s w] by (cases "send w s") (auto simp: duplex_ok_def)
  qed
qed simp

lemma run_ok: "duplex_ok (dx s) \<Longrightarrow> duplex_run recv send es s = Val s' \<Longrightarrow> duplex_ok (dx s')"
proof (induction es arbitrary: s)
  case (Cons e es)
  then show ?case by (cases e) (auto dest: receiver_ok sender_ok)
qed simp

lemma run_send_ends:
  assumes "duplex_ok (dx s)" "duplex_run recv send es s = Val s'" "dx_recvEnded (dx s')"
  shows "dx_sendEnded (dx s') \<or> (\<exists>w s''. send w s' = Val s'' \<and> dx_sendEnded (dx s''))"
  using send_can_end[of s'] run_ok[OF assms(1,2)] assms(3) by (auto simp: duplex_ok_def)

lemma ok_stops_safely: "duplex_ok (dx s) \<Longrightarrow> stops_safely dx recv send s"
  using run_no_panic run_send_ends unfolding stops_safely_def by blast

end

definition flags :: "'a duplex_scheme \<Rightarrow> duplex" where
  "flags d = \<lparr>dx_stopSend = dx_stopSend d, dx_stopReceive = dx_stopReceive d, dx_recvEnded = dx_recvEnded d,
     dx_sendEnded = dx_sendEnded d\<rparr>"

text \<open>
  The steps of the routines on the state of their stream alone: what the routine shares with other
  goroutines, the manager or the channel of responses, is as they left it at that step.
\<close>

definition client_recv :: "bool \<times> recv_input \<times> ContractEngineClientManager \<Rightarrow> ContractEngineClient \<Rightarrow> ContractEngineClient go" where
  "client_recv = (\<lambda>(late, inp, cm) c. go_bind (receiveMsgRoutine late inp (c, cm)) (\<lambda>((c', cm'), out). Val c'))"

definition client_send ::
  "SlowConfig \<Rightarrow> (nat \<Rightarrow> int) \<times> int \<times> send_choice \<times> send_result \<times> ContractEngineClientManager \<Rightarrow>
     ContractEngineClient \<Rightarrow> ContractEngineClient go" where
  "client_send sl = (\<lambda>(clk, msgSize, ch, res, cm) c.
     go_bind (sendMsgRoutine sl clk msgSize ch res (c, cm)) (\<lambda>(c', cm'). Val c'))"

definition service_recv :: "'m cmap_ops \<Rightarrow> 'm RuntimeService \<times> bool \<times> recv_input \<Rightarrow> serviceStream \<Rightarrow> serviceStream go" where
  "service_recv C = (\<lambda>(s, late, inp) ss. go_bind (recvRoutine C s late inp ss) (\<lambda>(ss', out). Val ss'))"

definition service_send :: "DockerVMMessage list \<times> bool \<times> send_result \<Rightarrow> serviceStream \<Rightarrow> serviceStream go" where
  "service_send = (\<lambda>(msgs, take_stop, res) ss. sendRoutine take_stop res (ss\<lparr>sendResponseCh := msgs\<rparr>))"

lemmas routine_defs =
  flags_def recv_keeps_def send_keeps_def close_stopSend_def close_stopReceive_def Let_def

lemma PutEvent_no_panic [simp]: "PutEvent ev cm \<noteq> Panic"
  by (simp add: PutEvent_def)

lemma recv_end_cases:
  "recv_end (c, cm) \<noteq> Panic"
  "recv_end (c, cm) = Val ((c', cm'), out) \<Longrightarrow> c' = c\<lparr>dx_recvEnded := True\<rparr>"
  by (auto simp: recv_end_def PutEvent_def)

lemma client_recv_val: "client_recv r c = Val c' \<Longrightarrow> recv_keeps (flags c) (flags c')"
  by (cases r) (auto simp: client_recv_def receiveMsgRoutine_def routine_defs
    dest!: recv_end_cases(2) split: if_splits recv_input.splits)

lemma client_recv_panic: "client_recv r c = Panic \<Longrightarrow> dx_stopSend (flags c) \<and> \<not> dx_recvEnded (flags c)"
  by (cases r) (auto simp: client_recv_def receiveMsgRoutine_def routine_defs go_bind_eq_Panic
    recv_end_cases(1) split: if_splits recv_input.splits)

lemma after_send_val: "after_send msg res c = Val c' \<Longrightarrow> \<not> dx_sendEnded c \<Longrightarrow> send_keeps (flags c) (flags c')"
  by (cases res) (auto simp: after_send_def routine_defs split: if_splits)

lemma after_send_panic: "after_send msg res c = Panic \<Longrightarrow> dx_stopReceive c"
  by (cases res) (auto simp: after_send_def close_stopReceive_def split: if_splits)

lemma client_send_val: "client_send sl w c = Val c' \<Longrightarrow> send_keeps (flags c) (flags c')"
  by (cases w)
    (auto simp: client_send_def sendMsgRoutine_def Let_def flags_def send_keeps_def
      split: if_splits send_choice.splits list.splits dest!: after_send_val)

lemma client_send_panic: "client_send sl w c = Panic \<Longrightarrow> dx_stopReceive (flags c) \<and> \<not> dx_sendEnded (flags c)"
  by (cases w)
    (auto simp: client_send_def sendMsgRoutine_def Let_def flags_def go_bind_eq_Panic
      split: if_splits send_choice.splits list.splits dest!: after_send_panic)

lemma client_send_can_end:
  "dx_stopSend (flags c) \<Longrightarrow> \<not> dx_sendEnded (flags c) \<Longrightarrow> \<exists>w c'. client_send sl w c = Val c' \<and> dx_sendEnded (flags c')"
  by (rule exI[of _ "(\<lambda>_. 0, 0, TakeStop, SendOk, undefined)"]) (simp add: client_send_def sendMsgRoutine_def flags_def)

interpretation engine_client: stream_routines flags client_recv "client_send sl" for sl
  by unfold_locales (rule client_recv_val client_send_val client_recv_panic client_send_panic client_send_can_end; assumption)+

lemma service_recv_val: "service_recv C r ss = Val ss' \<Longrightarrow> recv_keeps (flags ss) (flags ss')"
  by (cases r) (auto simp: service_recv_def recvRoutine_def routine_defs split: if_splits recv_input.splits)

lemma service_recv_panic: "service_recv C r ss = Panic \<Longrightarrow> dx_stopSend (flags ss) \<and> \<not> dx_recvEnded (flags ss)"
  by (cases r) (auto simp: service_recv_def recvRoutine_def routine_defs go_bind_eq_Panic split: if_splits recv_input.splits)

lemma service_send_val: "service_send w ss = Val ss' \<Longrightarrow> send_keeps (flags ss) (flags ss')"
  by (cases w) (auto simp: service_send_def sendRoutine_def routine_defs split: if_splits send_result.splits list.splits)

lemma service_send_panic: "service_send w ss = Panic \<Longrightarrow> dx_stopReceive (flags ss) \<and> \<not> dx_sendEnded (flags ss)"
  by (cases w) (auto simp: service_send_def sendRoutine_def routine_defs go_bind_eq_Panic split: if_splits send_result.splits list.splits)

lemma service_send_can_end:
  "dx_stopSend (flags ss) \<Longrightarrow> \<not> dx_sendEnded (flags ss) \<Longrightarrow> \<exists>w ss'. service_send w ss = Val ss' \<and> dx_sendEnded (flags ss')"
  by (auto simp: service_send_def sendRoutine_def flags_def intro!: exI[of _ True])

interpretation service: stream_routines flags "service_recv C" service_send for C
  by unfold_locales (rule service_recv_val service_send_val service_recv_panic service_send_panic service_send_can_end; assumption)+

lemma new_client_ok: "duplex_ok (flags (NewContractEngineClient i))"
  by (simp add: NewContractEngineClient_def duplex_ok_def flags_def)

lemma new_stream_ok: "duplex_ok (flags (snd (DockerVMCommunicate s)))"
  by (simp add: DockerVMCommunicate_def getStreamId_def duplex_ok_def flags_def)

definition sample_cmap :: "(string, nat) gomap cmap_ops" where
  "sample_cmap = \<lparr>cmap_New = [], cmap_Get = (\<lambda>k m. map_of m k), cmap_Set = AList.update, cmap_Remove = AList.delete\<rparr>"

end
