(* ===== verification/Runtime.thy ===== *)
theory Runtime
  imports Runtime_Handler Runtime_Bytecode Rpc_Streams
begin

text \<open>
  The invocation of a contract, \<open>Invoke\<close> of \<open>runtime.go\<close>: the request to the contract engine, the
  loop that serves the requests of the sandbox and of the engine until the transaction's response,
  an error or the timeout, and the cleaning up.

  The messages that arrive and the timeout are the inputs of the loop.  Responses for the sandbox
  are collected in \<open>iv_sys\<close>, those for the engine are in the channels of the client manager.
\<close>

section \<open>State\<close>

record ('c, 'm) inv_state =
  iv_gas :: "64 word"
  iv_type :: ExecOrderTxType
  iv_rt :: RuntimeInstance
  iv_ctx :: 'c
  iv_disk :: disk
  iv_cm :: ContractEngineClientManager
  iv_svc :: "'m RuntimeService"
  iv_blocks :: BlockTxsDurationMgr
  iv_sys :: "DockerVMMessage list"

text \<open>The arguments of the call, and the number of the runtime instance in the notifications.\<close>

record inv_args =
  ia_contract :: Contract
  ia_method :: string
  ia_byteCode :: bytes
  ia_parameters :: "(string, bytes) gomap"
  ia_self :: nat

text \<open>
  What the environment decides in one iteration: the record from the pool, the readings of the
  clock, the size of the message, and the file system.
\<close>

record tick =
  tk_pick :: "nat option"
  tk_start :: int
  tk_spent :: int
  tk_end :: int
  tk_clk :: "nat \<Rightarrow> int"
  tk_clk2 :: "nat \<Rightarrow> int"
  tk_size :: int
  tk_files :: bc_env

datatype inv_event = FromEngine DockerVMMessage | FromSandbox DockerVMMessage | TxTimeout

datatype ('c, 'm) inv_out = Running "('c, 'm) inv_state" | Returned "ContractResult \<times> ExecOrderTxType" "('c, 'm) inv_state"

definition empty_result :: ContractResult where
  "empty_result = \<lparr>cr_Code = 1, cr_Result = None, cr_Message = [], cr_GasUsed = 0, cr_ContractEvent = []\<rparr>"

section \<open>Before the loop\<close>

definition getChainConfigDefaultGas :: "('c, 'i, 'k) sim_lib \<Rightarrow> 'c \<Rightarrow> 64 word" where
  "getChainConfigDefaultGas L c = (case GetAccountConfig L c of
       None \<Rightarrow> 0
     | Some a \<Rightarrow> if acc_DefaultGas a > 0 then acc_DefaultGas a else 0)"

definition init_gas :: "('c, 'i, 'k) sim_lib \<Rightarrow> inv_args \<Rightarrow> 'c \<Rightarrow> 64 word \<Rightarrow> gas_res" where
  "init_gas L args c gasUsed =
     (if GetBlockVersion L c < version2312 then
        (case InitFuncGasUsedLt2312 (sl_gas L) gasUsed (getChainConfigDefaultGas L c) of
           (gasUsed, Some err) \<Rightarrow> (gasUsed, Some err)
         | (gasUsed, None) \<Rightarrow>
             ContractGasUsed (sl_gas L) gasUsed (ia_method args) (con_Name (ia_contract args)) (ia_byteCode args))
      else (gasUsed, None))"

fun Contains :: "string \<Rightarrow> string \<Rightarrow> bool" where
  "Contains [] sub = (sub = [])"
| "Contains (x # s) sub = (HasPrefix (x # s) sub \<or> Contains s sub)"

text \<open>The request, in a message from the pool whose fields are all set again.\<close>

definition invoke_request ::
  "('c, 'i, 'k) sim_lib \<Rightarrow> inv_args \<Rightarrow> string \<Rightarrow> string \<Rightarrow> DockerVMMessage \<Rightarrow> 'c \<Rightarrow> DockerVMMessage go" where
  "invoke_request L args chainId uniqueTxKey pooled c = (case (m_Request pooled, m_CrossContext pooled) of
       (Some req, Some x) \<Rightarrow> Val (pooled\<lparr>m_ChainId := chainId, m_TxId := uniqueTxKey, m_Type := TX_REQUEST,
         m_Request := Some (req\<lparr>req_ChainId := chainId, req_ContractName := con_Name (ia_contract args),
           req_ContractVersion := con_Version (ia_contract args), req_Method := ia_method args,
           req_Parameters := filter (\<lambda>(k, v). \<not> Contains k ''CONTRACT'') (ia_parameters args)\<rparr>),
         m_CrossContext := Some (x\<lparr>CrossInfo := GetCrossInfo L c, CurrentDepth := word_of_int (GetDepth L c)\<rparr>),
         m_StepDurations := []\<rparr>)
     | _ \<Rightarrow> Panic)"

text \<open>The statistics of the transaction, the two notifications and the request itself.\<close>

definition enter_loop ::
  "('c, 'i, 'k) sim_lib \<Rightarrow> 'm cmap_ops \<Rightarrow> inv_args \<Rightarrow> string \<Rightarrow> tick \<Rightarrow> DockerVMMessage \<Rightarrow> ('c, 'm) inv_state \<Rightarrow>
     ('c, 'm) inv_state go" where
  "enter_loop L C args key tk msg s =
     (let msg = rt_EnterNextStep (vm_Slow (cm_config (iv_cm s))) (tk_clk tk) msg RUNTIME_PREPARE_TX_REQUEST
            (''pos:'' @ Itoa (GetTxSendChLen (iv_cm s)));
          (n, durs) = new_tx (NewTxDuration (GetTxId L (iv_ctx s)) key (tk_start tk)) (rt_durs (iv_rt s));
          fingerprint = GetBlockFingerprint L (iv_ctx s)
      in case (if fingerprint \<noteq> [] then AddTx fingerprint n (iv_blocks s) durs else Some (iv_blocks s, durs)) of
           None \<Rightarrow> Block
         | Some (blocks, durs) \<Rightarrow>
             go_bind (PutTxRequestWithNotify msg (rt_chainId (iv_rt s)) (ia_self args) (iv_cm s)) (\<lambda>cm.
               Val (s\<lparr>iv_cm := cm, iv_blocks := blocks,
                 iv_rt := (iv_rt s)\<lparr>rt_durs := durs, rt_txDuration := n\<rparr>,
                 iv_svc := RegisterSandboxMsgNotify C (rt_chainId (iv_rt s)) key (ia_self args) (iv_svc s)\<rparr>)))"

text \<open>Up to the loop: an early result, or the state with which the loop starts, and the key.\<close>

definition invoke_start ::
  "('c, 'i, 'k) sim_lib \<Rightarrow> 'm cmap_ops \<Rightarrow> inv_args \<Rightarrow> DockerVMMessage \<Rightarrow> tick \<Rightarrow> ('c, 'm) inv_state \<Rightarrow>
     (('c, 'm) inv_out \<times> string) go" where
  "invoke_start L C args pooled tk s0 =
     (let (cm, key) = GetUniqueTxKey (GetTxId L (iv_ctx s0)) (iv_cm s0);
          s = s0\<lparr>iv_cm := cm, iv_type := ExecOrderTxTypeNormal\<rparr>
      in if \<not> HasActiveConnections cm then
           Val (Returned (errorResult empty_result ''contract engine client not connected'') s, key)
         else case init_gas L args (iv_ctx s) (iv_gas s) of
           (gasUsed, Some err) \<Rightarrow> Val (Returned (errorResult (empty_result\<lparr>cr_GasUsed := gasUsed\<rparr>) err) s, key)
         | (gasUsed, None) \<Rightarrow>
             go_bind (invoke_request L args (rt_chainId (iv_rt s)) key pooled (iv_ctx s)) (\<lambda>msg.
               go_bind (enter_loop L C args key tk msg (s\<lparr>iv_gas := gasUsed\<rparr>)) (\<lambda>s. Val (Running s, key))))"

section \<open>The loop\<close>

definition start_call :: "tick \<Rightarrow> DockerVMType \<Rightarrow> ('c, 'm) inv_state \<Rightarrow> ('c, 'm) inv_state" where
  "start_call tk ty s = s\<lparr>iv_rt := (iv_rt s)\<lparr>rt_durs :=
     StartSysCall (tk_pick tk) (tk_start tk) (rt_txDuration (iv_rt s)) ty (rt_durs (iv_rt s))\<rparr>\<rparr>"

definition end_call :: "tick \<Rightarrow> ('c, 'm) inv_state \<Rightarrow> ('c, 'm) inv_state" where
  "end_call tk s = s\<lparr>iv_rt := (iv_rt s)\<lparr>rt_durs :=
     fst (EndSysCall (tk_end tk) (rt_txDuration (iv_rt s)) (rt_durs (iv_rt s)))\<rparr>\<rparr>"

definition fail_invoke :: "string \<Rightarrow> ('c, 'm) inv_state \<Rightarrow> ('c, 'm) inv_out go" where
  "fail_invoke msg s = Val (Returned (errorResult (empty_result\<lparr>cr_GasUsed := iv_gas s\<rparr>) msg) s)"

text \<open>The case of a message from the engine.\<close>

definition engine_case ::
  "('c, 'i, 'k) sim_lib \<Rightarrow> inv_args \<Rightarrow> string \<Rightarrow> tick \<Rightarrow> DockerVMMessage \<Rightarrow> ('c, 'm) inv_state \<Rightarrow> ('c, 'm) inv_out go" where
  "engine_case L args key tk recvMsg s0 =
     (let s = start_call tk (m_Type recvMsg) s0
      in if m_Type recvMsg = GET_BYTECODE_REQUEST then
           (let en = (tk_files tk)\<lparr>NeedSendContractByteCode := cm_NeedSendContractByteCode (iv_cm s),
                   DockerVMMountPath := vm_DockerVMMountPath (cm_config (iv_cm s))\<rparr>
            in go_bind (handleGetByteCodeRequest L en (tk_spent tk) key recvMsg (ia_byteCode args) (iv_rt s) (iv_ctx s) (iv_disk s))
                 (\<lambda>(resp, r, c, d). go_bind (PutByteCodeResp resp (iv_cm s)) (\<lambda>cm.
                    Val (Running (end_call tk (s\<lparr>iv_rt := r, iv_ctx := c, iv_disk := d, iv_cm := cm\<rparr>))))))
         else if m_Type recvMsg = ERROR then
           (case m_Response recvMsg of None \<Rightarrow> Panic | Some resp \<Rightarrow> fail_invoke (resp_Message resp) s)
         else fail_invoke ''unknown msg type'' s)"

text \<open>The requests of the sandbox that are answered: the response and the state after it.\<close>

definition serve ::
  "('c, 'i, 'k) sim_lib \<Rightarrow> inv_args \<Rightarrow> string \<Rightarrow> tick \<Rightarrow> DockerVMMessage \<Rightarrow> ('c, 'm) inv_state \<Rightarrow>
     (DockerVMMessage \<times> ('c, 'm) inv_state) go option" where
  "serve L args key tk recvMsg s =
     (let g = iv_gas s; r = iv_rt s; c = iv_ctx s; name = con_Name (ia_contract args);
          four = (\<lambda>s (resp, g, r, c). Val (resp, s\<lparr>iv_gas := g, iv_rt := r, iv_ctx := c\<rparr>));
          three = (\<lambda>s ((resp, g), c). Val (resp, s\<lparr>iv_gas := g, iv_ctx := c\<rparr>));
          it = s\<lparr>iv_type := ExecOrderTxTypeIterator\<rparr>
      in case m_Type recvMsg of
           GET_STATE_REQUEST \<Rightarrow> Some (go_bind (handleGetStateRequest L (tk_spent tk) key recvMsg g r c) (four s))
         | GET_BATCH_STATE_REQUEST \<Rightarrow> Some (go_bind (handleGetBatchStateRequest L (tk_spent tk) key recvMsg g r c) (four s))
         | CALL_CONTRACT_REQUEST \<Rightarrow> Some (go_bind (handlerCallContract L key recvMsg g (ia_contract args) r c)
             (\<lambda>(resp, g, ty, r, c). Val (resp, s\<lparr>iv_gas := g, iv_rt := r, iv_ctx := c,
                iv_type := (if ty \<noteq> ExecOrderTxTypeNormal then ty else iv_type s)\<rparr>)))
         | CREATE_KV_ITERATOR_REQUEST \<Rightarrow> Some (go_bind (handleCreateKvIterator L key recvMsg g name r c) (four it))
         | CONSUME_KV_ITERATOR_REQUEST \<Rightarrow> Some (go_bind (handleConsumeKvIterator L key recvMsg g r c) (three it))
         | CREATE_KEY_HISTORY_ITER_REQUEST \<Rightarrow> Some (go_bind (handleCreateKeyHistoryIterator L key recvMsg g name r c) (four it))
         | CONSUME_KEY_HISTORY_ITER_REQUEST \<Rightarrow> Some (go_bind (handleConsumeKeyHistoryIterator L key recvMsg g r c) (three it))
         | GET_SENDER_ADDRESS_REQUEST \<Rightarrow> Some (go_bind (handleGetSenderAddress L key g r c) (three s))
         | _ \<Rightarrow> None)"

text \<open>The case of a message from the sandbox.  Old blocks get no response to a batch request.\<close>

definition sandbox_case ::
  "('c, 'i, 'k) sim_lib \<Rightarrow> inv_args \<Rightarrow> string \<Rightarrow> tick \<Rightarrow> DockerVMMessage \<Rightarrow> ('c, 'm) inv_state \<Rightarrow> ('c, 'm) inv_out go" where
  "sandbox_case L args key tk recvMsg s0 =
     (let s = start_call tk (m_Type recvMsg) s0
      in if m_Type recvMsg = TX_RESPONSE then
           go_bind (handleTxResponse L (vm_Slow (cm_config (iv_cm s))) (tk_clk tk) (tk_clk2 tk) (tk_size tk)
               (GetTxId L (iv_ctx s)) recvMsg (iv_gas s) (iv_type s) (con_Name (ia_contract args)) (iv_rt s) (iv_ctx s))
             (\<lambda>(res, _, r, c). Val (Returned res (end_call tk (s\<lparr>iv_rt := r, iv_ctx := c\<rparr>))))
         else if m_Type recvMsg = GET_BATCH_STATE_REQUEST \<and> GetBlockVersion L (iv_ctx s) < version2310 then
           Val (Running (end_call tk s))
         else case serve L args key tk recvMsg s of
           None \<Rightarrow> fail_invoke ''unknown msg type'' s
         | Some res \<Rightarrow> go_bind res (\<lambda>(resp, s). Val (Running (end_call tk (s\<lparr>iv_sys := iv_sys s @ [resp]\<rparr>)))))"

definition inv_step ::
  "('c, 'i, 'k) sim_lib \<Rightarrow> inv_args \<Rightarrow> string \<Rightarrow> tick \<Rightarrow> inv_event \<Rightarrow> ('c, 'm) inv_state \<Rightarrow> ('c, 'm) inv_out go" where
  "inv_step L args key tk ev s = (case ev of
       FromEngine msg \<Rightarrow> engine_case L args key tk msg s
     | TxTimeout \<Rightarrow> fail_invoke ''tx timeout'' s
     | FromSandbox msg \<Rightarrow> sandbox_case L args key tk msg s)"

fun inv_loop ::
  "('c, 'i, 'k) sim_lib \<Rightarrow> inv_args \<Rightarrow> string \<Rightarrow> (tick \<times> inv_event) list \<Rightarrow> ('c, 'm) inv_state \<Rightarrow> ('c, 'm) inv_out go" where
  "inv_loop L args key [] s = Val (Running s)"
| "inv_loop L args key ((tk, ev) # evs) s = go_bind (inv_step L args key tk ev s) (\<lambda>out. (case out of
       Returned res s' \<Rightarrow> Val (Returned res s')
     | Running s' \<Rightarrow> inv_loop L args key evs s'))"

section \<open>After the loop\<close>

definition invoke_end ::
  "('c, 'i, 'k) sim_lib \<Rightarrow> 'm cmap_ops \<Rightarrow> string \<Rightarrow> int \<Rightarrow> ('c, 'm) inv_state \<Rightarrow> ('c, 'm) inv_state" where
  "invoke_end L C key spentAll s =
     (let chainId = rt_chainId (iv_rt s);
          svc = fst (DeleteSandboxMsgNotify C chainId key (iv_svc s));
          cm = fst (DeleteNotify chainId key (iv_cm s));
          n = rt_txDuration (iv_rt s);
          durs = upd_tx n (\<lambda>t. t\<lparr>td_TotalDuration := spentAll\<rparr>) (rt_durs (iv_rt s));
          durs = FinishTx (GetBlockFingerprint L (iv_ctx s)) n (iv_blocks s) durs
      in s\<lparr>iv_svc := svc, iv_cm := cm, iv_rt := (iv_rt s)\<lparr>rt_durs := durs\<rparr>\<rparr>)"

text \<open>
  The whole call: its result, or nothing as long as it waits for the next message.
\<close>

definition Invoke ::
  "('c, 'i, 'k) sim_lib \<Rightarrow> 'm cmap_ops \<Rightarrow> inv_args \<Rightarrow> DockerVMMessage \<Rightarrow> tick \<Rightarrow> int \<Rightarrow> (tick \<times> inv_event) list \<Rightarrow>
     ('c, 'm) inv_state \<Rightarrow> ((ContractResult \<times> ExecOrderTxType) option \<times> ('c, 'm) inv_state) go" where
  "Invoke L C args pooled tk spentAll evs s = go_bind (invoke_start L C args pooled tk s) (\<lambda>(out, key). (case out of
       Returned res s' \<Rightarrow> Val (Some res, s')
     | Running s' \<Rightarrow> go_bind (inv_loop L args key evs s') (\<lambda>out. (case out of
         Running s'' \<Rightarrow> Val (None, s'')
       | Returned res s'' \<Rightarrow> Val (Some res, invoke_end L C key spentAll s'')))))"

end
