(* ===== verification/Runtime_Props.thy ===== *)
theory Runtime_Props
  imports Runtime "HOL-Library.Sublist"
begin

text \<open>
  What the handlers of the runtime promise: every request is answered by a response of its kind,
  and the gas stays within the limit.
\<close>

section \<open>Responses\<close>

definition answers :: "DockerVMType \<Rightarrow> string \<Rightarrow> string \<Rightarrow> DockerVMMessage \<Rightarrow> bool" where
  "answers ty key chainId resp \<longleftrightarrow> m_Type resp = ty \<and> m_TxId resp = key \<and> m_ChainId resp = chainId \<and>
     m_SysCallMessage resp \<noteq> None"

lemma answers_upd [simp]: "answers ty key ch (upd_sys f m) = answers ty key ch m"
  by (simp add: answers_def upd_sys_def)

lemma answers_set [simp]:
  "answers ty key ch (set_code co m) = answers ty key ch m"
  "answers ty key ch (set_message msg m) = answers ty key ch m"
  "answers ty key ch (set_payload p m) = answers ty key ch m"
  "answers ty key ch (fail_with L e m) = answers ty key ch m"
  "answers ty key ch (setError e m) = answers ty key ch m"
  by (simp_all add: set_code_def set_message_def set_payload_def fail_with_def setError_def)

lemma answers_new [simp]: "answers ty key (rt_chainId r) (newEmptyResponse r key ty)"
  by (simp add: answers_def newEmptyResponse_def)

section \<open>Gas\<close>

named_theorems gas_le

abbreviation in_limit :: "('c, 'i, 'k) sim_lib \<Rightarrow> 64 word \<Rightarrow> bool" where
  "in_limit L g \<equiv> g \<le> gl_GasLimit (sl_gas L)"

lemmas gas_defs = CheckGasLimit_def Let_def not_less
  GetStateGasUsedLt2312_def GetBatchStateGasUsedLt2312_def PutStateGasUsedLt2312_def EmitEventGasUsedLt2312_def
  InitFuncGasUsedLt2312_def ContractGasUsed_def CreateKeyHistoryIterGasUsedLt2312_def ConsumeKeyHistoryIterGasUsedLt2312_def
  CreateKvIteratorGasUsedLt2312_def ConsumeKvIteratorGasUsedLt2312_def PutStateGasUsed2312_def GetStateGasUsed2312_def
  GetBatchStateGasUsed2312_def EmitEventGasUsed2312_def CreateKeyHistoryIterGasUsed2312_def CreateKvIteratorGasUsed2312_def
  ConsumeKeyHistoryIterGasUsed2312_def ConsumeKvIteratorGasUsed2312_def ConsumeKvIteratorNextGasUsed2312_def
  ConsumeKeyHistoryIterNextGasUsed2312_def CallContractGasUsed2312_def GetSenderAddressGasUsed_def
  PutStateGasUsed_def GetStateGasUsed_def GetBatchStateGasUsed_def EmitEventGasUsed_def CreateKeyHistoryIterGasUsed_def
  ConsumeKeyHistoryIterGasUsed_def CreateKvIteratorGasUsed_def ConsumeKvIteratorGasUsed_def CallContractGasUsed_def

lemma gas_le_op: "gas_step G bv cfg opn g = (g', e) \<Longrightarrow> g \<le> gl_GasLimit G \<Longrightarrow> g' \<le> gl_GasLimit G"
  by (cases opn) (auto simp: gas_defs split: if_splits sum.splits)

lemma gas_le_ops [gas_le]:
  "PutStateGasUsed G bv cfg g n k f v = (g', e) \<Longrightarrow> g \<le> gl_GasLimit G \<Longrightarrow> g' \<le> gl_GasLimit G"
  "GetStateGasUsed G bv cfg g n k f v = (g', e) \<Longrightarrow> g \<le> gl_GasLimit G \<Longrightarrow> g' \<le> gl_GasLimit G"
  "GetBatchStateGasUsed G bv cfg g v = (g', e) \<Longrightarrow> g \<le> gl_GasLimit G \<Longrightarrow> g' \<le> gl_GasLimit G"
  "EmitEventGasUsed G bv cfg g ev = (g', e) \<Longrightarrow> g \<le> gl_GasLimit G \<Longrightarrow> g' \<le> gl_GasLimit G"
  "CreateKeyHistoryIterGasUsed G bv cfg ps g = (g', e) \<Longrightarrow> g \<le> gl_GasLimit G \<Longrightarrow> g' \<le> gl_GasLimit G"
  "ConsumeKeyHistoryIterGasUsed G bv cfg g = (g', e) \<Longrightarrow> g \<le> gl_GasLimit G \<Longrightarrow> g' \<le> gl_GasLimit G"
  "CreateKvIteratorGasUsed G bv cfg ps g = (g', e) \<Longrightarrow> g \<le> gl_GasLimit G \<Longrightarrow> g' \<le> gl_GasLimit G"
  "ConsumeKvIteratorGasUsed G bv cfg g = (g', e) \<Longrightarrow> g \<le> gl_GasLimit G \<Longrightarrow> g' \<le> gl_GasLimit G"
  "CallContractGasUsed G bv cfg g n m ps = (g', e) \<Longrightarrow> g \<le> gl_GasLimit G \<Longrightarrow> g' \<le> gl_GasLimit G"
  "GetSenderAddressGasUsed G g = (g', e) \<Longrightarrow> g \<le> gl_GasLimit G \<Longrightarrow> g' \<le> gl_GasLimit G"
  "InitFuncGasUsedLt2312 G g d = (g', e) \<Longrightarrow> g \<le> gl_GasLimit G \<Longrightarrow> g' \<le> gl_GasLimit G"
  "ContractGasUsed G g m n code = (g', e) \<Longrightarrow> g \<le> gl_GasLimit G \<Longrightarrow> g' \<le> gl_GasLimit G"
  using gas_le_op[of G bv cfg "OpPut n k f v" g] gas_le_op[of G bv cfg "OpGet n k f v" g] gas_le_op[of G bv cfg "OpBatch v" g]
    gas_le_op[of G bv cfg "OpEvent ev" g] gas_le_op[of G bv cfg "OpHistoryCreate ps" g] gas_le_op[of G bv cfg OpHistoryConsume g]
    gas_le_op[of G bv cfg "OpKvCreate ps" g] gas_le_op[of G bv cfg OpKvConsume g] gas_le_op[of G bv cfg "OpCall n m ps" g]
    gas_le_op[of G bv cfg OpSender g] gas_le_op[of G bv cfg "OpInit d" g] gas_le_op[of G bv cfg "OpContract m n code" g]
  by simp_all

lemma gas_le_rest [gas_le]:
  "ConsumeKvIteratorGasUsedLt2312 G g = (g', e) \<Longrightarrow> g' \<le> gl_GasLimit G"
  "ConsumeKeyHistoryIterGasUsedLt2312 G g = (g', e) \<Longrightarrow> g' \<le> gl_GasLimit G"
  "ConsumeKvIteratorNextGasUsed2312 cfg g k f v = (g', e) \<Longrightarrow> g \<le> gl_GasLimit G \<Longrightarrow> g' \<le> gl_GasLimit G"
  "ConsumeKeyHistoryIterNextGasUsed2312 cfg g v = (g', e) \<Longrightarrow> g \<le> gl_GasLimit G \<Longrightarrow> g' \<le> gl_GasLimit G"
  by (auto simp: gas_defs split: if_splits)

lemma merge_writes_le [gas_le]:
  "merge_writes L bv cfg name m g c = ((g', e), c') \<Longrightarrow> in_limit L g \<Longrightarrow> in_limit L g'"
proof (induction m arbitrary: g c g' e c')
  case (Cons kv m)
  obtain key val where "kv = (key, val)" by (cases kv)
  with Cons(2,3) show ?case
    by (auto simp: Let_def split: if_splits prod.splits option.splits dest: gas_le intro: Cons(1))
qed simp

lemma merge_le [gas_le]:
  "mergeSimContextWriteMap L m g name c = ((g', e), c') \<Longrightarrow> in_limit L g \<Longrightarrow> in_limit L g'"
  by (auto simp: mergeSimContextWriteMap_def dest: merge_writes_le)

lemma emit_events_le [gas_le]:
  "emit_events L bv cfg es g r = ((g', e), r') \<Longrightarrow> in_limit L g \<Longrightarrow> in_limit L g'"
  by (induction L bv cfg es g r arbitrary: g' e r' rule: emit_events.induct)
    (auto split: prod.splits option.splits dest: gas_le)

lemma tx_events_le [gas_le]:
  "tx_events L bv cfg txId es g r = ((g', e), r') \<Longrightarrow> in_limit L g \<Longrightarrow> in_limit L g'"
  by (induction L bv cfg txId es g r arbitrary: g' e r' rule: tx_events.induct)
    (auto simp: Let_def split: prod.splits option.splits dest: gas_le)

section \<open>Handlers\<close>

text \<open>
  The contract of a handler: the response is of its kind, the gas stays within the limit, and the
  instance belongs to the same chain.
\<close>

definition good4 ::
  "('c, 'i, 'k) sim_lib \<Rightarrow> DockerVMType \<Rightarrow> string \<Rightarrow> 64 word \<Rightarrow> RuntimeInstance \<Rightarrow> DockerVMMessage \<times> 64 word \<times> RuntimeInstance \<times> 'c \<Rightarrow> bool" where
  "good4 L ty key g r = (\<lambda>(resp, g', r', c'). answers ty key (rt_chainId r) resp \<and> rt_chainId r' = rt_chainId r \<and>
     (in_limit L g \<longrightarrow> in_limit L g'))"

definition good3 ::
  "('c, 'i, 'k) sim_lib \<Rightarrow> DockerVMType \<Rightarrow> string \<Rightarrow> 64 word \<Rightarrow> RuntimeInstance \<Rightarrow> (DockerVMMessage \<times> 64 word) \<times> 'c \<Rightarrow> bool" where
  "good3 L ty key g r = (\<lambda>((resp, g'), c'). answers ty key (rt_chainId r) resp \<and> (in_limit L g \<longrightarrow> in_limit L g'))"

lemma storage_chain [simp]: "rt_chainId (add_storage spent r) = rt_chainId r"
  by (simp add: add_storage_def)

lemma get_state_good:
  "handleGetStateRequest L spent key m g r c = Val x \<Longrightarrow> good4 L GET_STATE_RESPONSE key g r x"
  by (auto simp: handleGetStateRequest_def good4_def Let_def dest: gas_le
      split: option.splits prod.splits sum.splits if_splits)

lemma get_batch_good:
  "handleGetBatchStateRequest L spent key m g r c = Val x \<Longrightarrow> good4 L GET_BATCH_STATE_RESPONSE key g r x"
  by (auto simp: handleGetBatchStateRequest_def good4_def Let_def dest: gas_le
      split: option.splits prod.splits sum.splits if_splits)

lemma sender_good:
  "handleGetSenderAddress L key g r c = Val x \<Longrightarrow> good3 L GET_SENDER_ADDRESS_RESPONSE key g r x"
  by (auto simp: handleGetSenderAddress_def good3_def Let_def dest: gas_le
      split: option.splits prod.splits sum.splits if_splits)

lemma charge_good [gas_le]:
  assumes "charge_after_error L bv cfg p err resp g = (stop, resp', g')"
  shows "answers ty key ch resp' = answers ty key ch resp" "in_limit L g \<Longrightarrow> in_limit L g'"
  using assms by (auto simp: charge_after_error_def Let_def dest: gas_le split: prod.splits option.splits)

lemma kvIteratorCreate_le [gas_le]:
  "kvIteratorCreate L cfg name p g c = ((i, g', e), c') \<Longrightarrow> in_limit L g \<Longrightarrow> in_limit L g'"
  by (auto simp: kvIteratorCreate_def Let_def dest: gas_le split: prod.splits option.splits sum.splits)

lemma switch_good:
  assumes "createKvSwitch L bv cfg p resp g r c = Val x" "answers ty key (rt_chainId r) resp"
  shows "good4 L ty key g r x"
  using assms
  by (cases "pre_limit (GetKeyStr L (bytes_str (bytes_at p KeyIterStartKey)) (bytes_str (bytes_at p KeyIterStartField)))")
    (auto simp: createKvSwitch_def new_handle_def good4_def Let_def dest: gas_le
      split: option.splits prod.splits sum.splits if_splits)

lemma consume_good:
  "charge_consume L bv cfg resp g = (resp', g') \<Longrightarrow>
    answers ty key ch resp' = answers ty key ch resp \<and> (in_limit L g \<longrightarrow> in_limit L g')"
  by (auto simp: charge_consume_def dest: gas_le split: prod.splits option.splits)

lemma iter_good:
  "kvIteratorHasNext L bv cfg i g resp c = Val x \<Longrightarrow> answers ty key (rt_chainId r) resp \<Longrightarrow> good3 L ty key g r x"
  "kvIteratorNext L bv cfg i g resp c = Val x \<Longrightarrow> answers ty key (rt_chainId r) resp \<Longrightarrow> good3 L ty key g r x"
  "kvIteratorClose L bv cfg i g resp c = Val x \<Longrightarrow> answers ty key (rt_chainId r) resp \<Longrightarrow> good3 L ty key g r x"
  "keyHistoryIterHasNext L bv cfg i g resp c = Val x \<Longrightarrow> answers ty key (rt_chainId r) resp \<Longrightarrow> good3 L ty key g r x"
  "keyHistoryIterNext L bv cfg i g resp c = Val x \<Longrightarrow> answers ty key (rt_chainId r) resp \<Longrightarrow> good3 L ty key g r x"
  "keyHistoryIterClose L bv cfg i g resp c = Val x \<Longrightarrow> answers ty key (rt_chainId r) resp \<Longrightarrow> good3 L ty key g r x"
  by (auto simp: kvIteratorHasNext_def kvIteratorNext_def kvIteratorClose_def keyHistoryIterHasNext_def
      keyHistoryIterNext_def keyHistoryIterClose_def good3_def Let_def dest: gas_le
      split: option.splits prod.splits sum.splits if_splits)

lemma create_kv_good:
  assumes "handleCreateKvIterator L key m g name r c = Val x"
  shows "good4 L CREATE_KV_ITERATOR_RESPONSE key g r x"
proof -
  let ?t = "CREATE_KV_ITERATOR_RESPONSE" and ?ch = "rt_chainId r"
  note u = assms[unfolded handleCreateKvIterator_def Let_def]
  obtain sys where sys: "m_SysCallMessage m = Some sys" using u by (cases "m_SysCallMessage m") auto
  obtain wm e1 where wm: "UnmarshalWriteMap L (bytes_at (sys_Payload sys) KeyWriteMap) = (wm, e1)" by fastforce
  define charge where "charge = charge_after_error L (GetBlockVersion L c) (gas_config L c) (sys_Payload sys)"
  have ch: "answers ?t key ?ch resp' \<and> (in_limit L g0 \<longrightarrow> in_limit L g')"
    if "(case e of None \<Rightarrow> (False, resp, g0) | Some err \<Rightarrow> charge err resp g0) = (stop, resp', g')" "answers ?t key ?ch resp"
    for e resp g0 stop resp' g'
    using that charge_good unfolding charge_def by (fastforce split: option.splits)
  obtain stop1 resp1 g1 where one: "(case e1 of None \<Rightarrow> (False, newEmptyResponse r key ?t, g)
      | Some err \<Rightarrow> charge err (newEmptyResponse r key ?t) g) = (stop1, resp1, g1)" by (metis prod_cases3)
  obtain g2' e2 c2 where merge: "mergeSimContextWriteMap L wm g1 name c = ((g2', e2), c2)" by (metis prod.exhaust)
  obtain stop2 resp2 g2 where two: "(case e2 of None \<Rightarrow> (False, resp1, g2') | Some err \<Rightarrow> charge err resp1 g2') = (stop2, resp2, g2)"
    by (metis prod_cases3)
  obtain stop3 resp3 g3 where three: "(case CheckKeyFieldStr L (bytes_str (bytes_at (sys_Payload sys) KeyIterStartKey))
      (bytes_str (bytes_at (sys_Payload sys) KeyIterStartField)) of None \<Rightarrow> (False, resp2, g2) | Some err \<Rightarrow> charge err resp2 g2) =
      (stop3, resp3, g3)" by (metis prod_cases3)
  note ok1 = ch[OF one answers_new]
  note ok2 = ch[OF two conjunct1[OF ok1]]
  note ok3 = ch[OF three conjunct1[OF ok2]]
  have lim: "in_limit L g \<Longrightarrow> in_limit L g2'" using ok1 merge_le[OF merge] by blast
  have x: "(if stop1 then Val (resp1, g1, r, c) else if stop2 then Val (resp2, g2, r, c2) else if stop3 then Val (resp3, g3, r, c2)
      else createKvSwitch L (GetBlockVersion L c) (gas_config L c) (sys_Payload sys) resp3 g3 r c2) = Val x"
    using u by (cases stop1; cases stop2; cases stop3)
      (simp_all add: sys wm one[unfolded charge_def] merge two[unfolded charge_def] three[unfolded charge_def])
  show ?thesis
    using x ok1 ok2 ok3 lim switch_good[of L "GetBlockVersion L c" "gas_config L c" "sys_Payload sys" resp3 g3 r c2 x ?t key]
    by (auto simp: good4_def split: if_splits)
qed

lemma good3_pair [simp]:
  "good3 L ty key g r ((resp, g'), c) \<longleftrightarrow> answers ty key (rt_chainId r) resp \<and> (in_limit L g \<longrightarrow> in_limit L g')"
  by (simp add: good3_def)

lemma good3_consume: "answers ty key (rt_chainId r) resp \<Longrightarrow> good3 L ty key g r (charge_consume L bv cfg resp g, c)"
  using consume_good by (cases "charge_consume L bv cfg resp g") fastforce

lemmas iter_good_new = iter_good[OF _ answers_new]

lemma consume_kv_good:
  assumes "handleConsumeKvIterator L key m g r c = Val x"
  shows "good3 L CONSUME_KV_ITERATOR_RESPONSE key g r x"
proof (cases "m_SysCallMessage m")
  case (Some sys)
  show ?thesis
  proof (cases "BytesToInt L (bytes_at (sys_Payload sys) KeyIterIndex)")
    case (Inr index)
    then show ?thesis using assms Some
      by (cases "GetIterHandle L index c" rule: option.exhaust, goal_cases)
        (auto simp: handleConsumeKvIterator_def Let_def intro!: good3_consume split: if_splits iter_handle.splits
          intro: iter_good_new)
  qed (use assms Some in \<open>auto simp: handleConsumeKvIterator_def Let_def intro!: good3_consume\<close>)
qed (use assms in \<open>simp add: handleConsumeKvIterator_def\<close>)

lemma good4_pair [simp]:
  "good4 L ty key g r (resp, g', r', c) \<longleftrightarrow>
    answers ty key (rt_chainId r) resp \<and> rt_chainId r' = rt_chainId r \<and> (in_limit L g \<longrightarrow> in_limit L g')"
  by (simp add: good4_def)

lemma create_history_good:
  assumes "handleCreateKeyHistoryIterator L key m g name r c = Val x"
  shows "good4 L CREATE_KEY_HISTORY_TER_RESPONSE key g r x"
proof (cases "m_SysCallMessage m")
  case (Some sys)
  show ?thesis
    using assms Some
    by (cases x) (auto simp: handleCreateKeyHistoryIterator_def new_handle_def Let_def dest: gas_le
        split: option.splits prod.splits sum.splits)
qed (use assms in \<open>simp add: handleCreateKeyHistoryIterator_def\<close>)

lemma consume_history_good:
  assumes "handleConsumeKeyHistoryIterator L key m g r c = Val x"
  shows "good3 L CONSUME_KEY_HISTORY_ITER_RESPONSE key g r x"
proof -
  obtain cur e where cur: "(if GetBlockVersion L c < blockVersion2312 then ConsumeKvIteratorGasUsedLt2312 (sl_gas L) g
      else (0, None)) = (cur, e)" by fastforce
  then have lim: "in_limit L cur" by (auto split: if_splits dest: gas_le)
  show ?thesis
  proof (cases e)
    case None
    then obtain sys where sys: "m_SysCallMessage m = Some sys"
      using assms cur by (cases "m_SysCallMessage m") (simp_all add: handleConsumeKeyHistoryIterator_def Let_def)
    show ?thesis
    proof (cases "BytesToInt L (bytes_at (sys_Payload sys) KeyIterIndex)")
      case (Inr index)
      then show ?thesis using assms sys cur None lim
        by (cases "GetIterHandle L index c" rule: option.exhaust, goal_cases)
          (auto simp: handleConsumeKeyHistoryIterator_def Let_def split: if_splits iter_handle.splits intro: iter_good_new)
    qed (use assms sys cur None lim in \<open>auto simp: handleConsumeKeyHistoryIterator_def Let_def\<close>)
  qed (use assms cur lim in \<open>auto simp: handleConsumeKeyHistoryIterator_def Let_def\<close>)
qed

text \<open>A called contract reports gas within the limit.\<close>

definition calls_bounded :: "('c, 'i, 'k) sim_lib \<Rightarrow> bool" where
  "calls_bounded L \<longleftrightarrow> (\<forall>caller callee meth ps g ty c. in_limit L g \<longrightarrow>
     in_limit L (cr_GasUsed (fst (CallContract L caller callee meth ps g ty c))))"

lemma emit_events_chain: "emit_events L bv cfg es g r = (ge, r') \<Longrightarrow> rt_chainId r' = rt_chainId r"
  by (induction L bv cfg es g r arbitrary: ge r' rule: emit_events.induct)
    (auto split: prod.splits option.splits)

lemma tx_events_chain: "tx_events L bv cfg txId es g r = (ge, r') \<Longrightarrow> rt_chainId r' = rt_chainId r"
  by (induction L bv cfg txId es g r arbitrary: ge r' rule: tx_events.induct)
    (auto simp: Let_def split: prod.splits option.splits)

lemma call_result_good:
  assumes "callContractResult L bv cfg res caller resp r c = (resp', g', r')" "answers ty key (rt_chainId r) resp"
  shows "answers ty key (rt_chainId r) resp' \<and> rt_chainId r' = rt_chainId r \<and> (in_limit L (cr_GasUsed res) \<longrightarrow> in_limit L g')"
  using assms by (auto simp: callContractResult_def Let_def dest: gas_le emit_events_chain
      split: prod.splits option.splits sum.splits)

lemma call_contract_good:
  assumes "handlerCallContract L key m g caller r c = Val (resp, g', ty, r', c')"
  shows "answers CALL_CONTRACT_RESPONSE key (rt_chainId r) resp \<and> rt_chainId r' = rt_chainId r \<and>
    (calls_bounded L \<longrightarrow> in_limit L g \<longrightarrow> in_limit L g')"
proof -
  note u = assms[unfolded handlerCallContract_def Let_def]
  obtain sys where sys: "m_SysCallMessage m = Some sys" using u by (cases "m_SysCallMessage m") auto
  show ?thesis
  proof (cases "UnmarshalCallRequest L (bytes_at (sys_Payload sys) KeyCallContractReq)")
    case (Inr req)
    show ?thesis
    proof (cases "ccr_ContractName req = [] \<or> ccr_ContractMethod req = []")
      case False
      then obtain x where x: "m_CrossContext m = Some x" using u sys Inr by (cases "m_CrossContext m") auto
      show ?thesis
        using u sys Inr False x
        by (auto simp: calls_bounded_def dest: gas_le call_result_good
            split: if_splits sum.splits prod.splits option.splits)
          (metis (no_types, lifting) answers_new call_result_good fst_conv gas_le_ops(9))+
    qed (use u sys Inr in \<open>cases "ccr_ContractName req = []"; auto\<close>)
  qed (use u sys in auto)
qed

section \<open>The loop\<close>

fun response_type :: "DockerVMType \<Rightarrow> DockerVMType option" where
  "response_type GET_STATE_REQUEST = Some GET_STATE_RESPONSE"
| "response_type GET_BATCH_STATE_REQUEST = Some GET_BATCH_STATE_RESPONSE"
| "response_type CALL_CONTRACT_REQUEST = Some CALL_CONTRACT_RESPONSE"
| "response_type CREATE_KV_ITERATOR_REQUEST = Some CREATE_KV_ITERATOR_RESPONSE"
| "response_type CONSUME_KV_ITERATOR_REQUEST = Some CONSUME_KV_ITERATOR_RESPONSE"
| "response_type CREATE_KEY_HISTORY_ITER_REQUEST = Some CREATE_KEY_HISTORY_TER_RESPONSE"
| "response_type CONSUME_KEY_HISTORY_ITER_REQUEST = Some CONSUME_KEY_HISTORY_ITER_RESPONSE"
| "response_type GET_SENDER_ADDRESS_REQUEST = Some GET_SENDER_ADDRESS_RESPONSE"
| "response_type _ = None"

lemmas handlers_good = get_state_good get_batch_good sender_good create_kv_good consume_kv_good
  create_history_good consume_history_good

lemma serve_good:
  assumes "serve L args key tk m s = Some (Val (resp, s'))"
  shows "\<exists>ty. response_type (m_Type m) = Some ty \<and> answers ty key (rt_chainId (iv_rt s)) resp"
    "rt_chainId (iv_rt s') = rt_chainId (iv_rt s)" "iv_sys s' = iv_sys s"
    "calls_bounded L \<Longrightarrow> in_limit L (iv_gas s) \<Longrightarrow> in_limit L (iv_gas s')"
  using assms
  by (auto simp: serve_def Let_def split: DockerVMType.splits dest!: handlers_good call_contract_good)

lemma serve_none: "serve L args key tk m s = None \<longleftrightarrow> response_type (m_Type m) = None"
  by (auto simp: serve_def Let_def split: DockerVMType.splits)

lemma calls_frame [simp]:
  "iv_sys (start_call tk ty s) = iv_sys s" "iv_gas (start_call tk ty s) = iv_gas s"
  "rt_chainId (iv_rt (start_call tk ty s)) = rt_chainId (iv_rt s)" "iv_ctx (start_call tk ty s) = iv_ctx s"
  "iv_sys (end_call tk s) = iv_sys s" "iv_gas (end_call tk s) = iv_gas s"
  "rt_chainId (iv_rt (end_call tk s)) = rt_chainId (iv_rt s)" "iv_ctx (end_call tk s) = iv_ctx s"
  "iv_type (start_call tk ty s) = iv_type s" "iv_cm (start_call tk ty s) = iv_cm s"
  by (simp_all add: start_call_def end_call_def)

lemma step_gas:
  assumes "inv_step L args key tk ev s = Val (Running s')" "calls_bounded L" "in_limit L (iv_gas s)"
  shows "in_limit L (iv_gas s')"
proof (cases ev)
  case (FromEngine m)
  then show ?thesis using assms
    by (auto simp: inv_step_def engine_case_def fail_invoke_def Let_def split: if_splits option.splits)
next
  case (FromSandbox m)
  then show ?thesis using assms serve_good(4)[of L args key tk m "start_call tk (m_Type m) s"]
    by (auto simp: inv_step_def sandbox_case_def fail_invoke_def Let_def split: if_splits option.splits)
qed (use assms in \<open>simp add: inv_step_def fail_invoke_def\<close>)

lemma tx_result_gas:
  assumes "tx_result L txId m g ty name r c = Val ((res, ty'), r', c')" "in_limit L g"
  shows "in_limit L (cr_GasUsed res)"
  using assms by (auto simp: tx_result_def errorResult_def Let_def dest: gas_le
      split: option.splits if_splits prod.splits)

lemma result_gas:
  assumes "inv_step L args key tk ev s = Val (Returned (res, ty) s')" "in_limit L (iv_gas s)"
  shows "in_limit L (cr_GasUsed res)"
proof (cases ev)
  case (FromEngine m)
  then show ?thesis using assms
    by (auto simp: inv_step_def engine_case_def fail_invoke_def errorResult_def Let_def split: if_splits option.splits)
next
  case (FromSandbox m)
  then show ?thesis using assms
    by (auto simp: inv_step_def sandbox_case_def handleTxResponse_def fail_invoke_def errorResult_def Let_def
        dest: tx_result_gas split: if_splits option.splits)
qed (use assms in \<open>auto simp: inv_step_def fail_invoke_def errorResult_def\<close>)

lemma loop_gas:
  assumes "inv_loop L args key evs s = Val (Returned (res, ty) s')" "calls_bounded L" "in_limit L (iv_gas s)"
  shows "in_limit L (cr_GasUsed res)"
  using assms
proof (induction evs arbitrary: s)
  case (Cons e evs)
  obtain tk ev where e: "e = (tk, ev)" by (cases e)
  with Cons.prems obtain out where out: "inv_step L args key tk ev s = Val out"
    "(case out of Returned res s' \<Rightarrow> Val (Returned res s') | Running s' \<Rightarrow> inv_loop L args key evs s') = Val (Returned (res, ty) s')"
    by auto
  show ?case
  proof (cases out)
    case (Running s1)
    with Cons.IH out step_gas[OF _ Cons.prems(2,3)] Cons.prems(2) show ?thesis by simp
  next
    case (Returned r s1)
    with out result_gas[OF _ Cons.prems(3)] show ?thesis by simp
  qed
qed simp

lemma enter_loop_frame:
  assumes "enter_loop L C args key tk msg s = Val s'"
  shows "iv_gas s' = iv_gas s" "iv_sys s' = iv_sys s" "iv_ctx s' = iv_ctx s" "rt_chainId (iv_rt s') = rt_chainId (iv_rt s)"
  using assms by (auto simp: enter_loop_def new_tx_def Let_def split: option.splits)

lemma start_gas:
  assumes "invoke_start L C args pooled tk s = Val (out, key)" "in_limit L (iv_gas s)"
  shows "(case out of Returned (res, ty) s' \<Rightarrow> in_limit L (cr_GasUsed res) | Running s' \<Rightarrow> in_limit L (iv_gas s'))"
proof -
  obtain g e where g: "init_gas L args (iv_ctx s) (iv_gas s) = (g, e)" by fastforce
  then have "in_limit L g" using assms(2)
    by (auto simp: init_gas_def dest: gas_le split: if_splits prod.splits option.splits)
  then show ?thesis using assms(1) g
    by (cases e) (auto simp: invoke_start_def errorResult_def empty_result_def Let_def GetUniqueTxKey_def
        split: if_splits dest: enter_loop_frame(1))
qed

section \<open>Prefix iterators\<close>

lemma prefix_snoc_iff: "prefix (p @ [a]) x \<longleftrightarrow> (\<exists>y. x = p @ a # y)"
  by (auto simp: prefix_def)

lemma append_less_iff: "p @ x < p @ (y :: string) \<longleftrightarrow> x < y"
  by (induction p) auto

lemma append_le_iff: "p @ x \<le> p @ (y :: string) \<longleftrightarrow> x \<le> y"
  by (induction p) auto

lemma between_prefix:
  "p @ [a] \<le> x \<Longrightarrow> x < p @ (b # bs) \<Longrightarrow> \<exists>y. x = p @ (y :: string) \<and> [a] \<le> y \<and> y < b # bs"
proof (induction p arbitrary: x)
  case (Cons c p)
  then show ?case by (cases x) auto
qed auto

lemma pre_limit_val:
  assumes "pre_limit key = Val lt"
  shows "key = butlast key @ [last key]" "lt = butlast key @ byte_string (word_of_nat (of_char (last key)) + 1)"
  using assms by (auto simp: pre_limit_def Let_def split: if_splits)

lemma unat_byte: "of_char c < (255 :: nat) \<Longrightarrow> unat (word_of_nat (of_char c) + 1 :: 8 word) = of_char c + 1"
  by (simp add: unat_word_ariths unat_of_nat)

section \<open>A small chain\<close>

text \<open>A chain whose states are an association list, for the witnesses.\<close>

definition sample_lib :: "((string \<times> bytes) list, nat, nat) sim_lib" where
  "sample_lib = \<lparr>sl_gas = sample_gas_lib, SdkSuccess = OK, SdkFail = FAIL, sl_CallContractDepth = 5, AddrType_ZXL = 1,
     NewGasConfig = (\<lambda>_. None), CheckKeyFieldStr = (\<lambda>k f. if k = [] then Some ''empty key'' else None),
     GetKeyStr = (\<lambda>k f. if f = [] then k else k @ ''#'' @ f), IntToBytes = (\<lambda>w. show_nat (unat w)),
     BytesToInt = (\<lambda>b. Inr (word_of_nat (read_nat (bytes_str b)))),
     UnmarshalWriteMap = (\<lambda>b. ([], None)), UnmarshalCallRequest = (\<lambda>b. Inl ''no request''),
     MarshalContractResponse = (\<lambda>x. Inr []), UnmarshalBatchKeys = (\<lambda>b. Inr []), MarshalBatchKeys = (\<lambda>ks. Inr []),
     range_order = (\<lambda>m. m), GetBlockVersion = (\<lambda>c. 2030000), GetAccountConfig = (\<lambda>c. None), GetVmAddrType = (\<lambda>c. Some 0),
     GetTxId = (\<lambda>c. ''tx''), GetTxType = (\<lambda>c. 0), GetCrossInfo = (\<lambda>c. 0), GetDepth = (\<lambda>c. 0),
     GetBlockFingerprint = (\<lambda>c. []), GetSenderAddr = (\<lambda>c. (Inr ''address'', c)),
     ctx_Get = (\<lambda>n k c. (Inr (bytes_at c (bytes_str k)), c)), ctx_GetKeys = (\<lambda>ks c. (Inr ks, c)),
     ctx_Put = (\<lambda>n k v c. (None, AList.update k v c)), PutIntoReadSet = (\<lambda>n k v c. c),
     ctx_Select = (\<lambda>n k l c. (Inr 0, c)), GetHistoryIterForKey = (\<lambda>n k c. (Inr 0, c)),
     SetIterHandle = (\<lambda>i h c. c), GetIterHandle = (\<lambda>i c. None), iter_Next = (\<lambda>i c. (False, c)),
     iter_Value = (\<lambda>i c. (Inl ''no value'', c)), hist_Value = (\<lambda>i c. (Inl ''no value'', c)), iter_Release = (\<lambda>i c. c),
     GetContractByName = (\<lambda>n c. (Inl ''no contract'', c)), GetContractBytecode = (\<lambda>n c. (Inr None, c)),
     CallContract = (\<lambda>caller callee m ps g ty c. (\<lparr>cr_Code = 0, cr_Result = None, cr_Message = [], cr_GasUsed = g,
       cr_ContractEvent = []\<rparr>, ExecOrderTxTypeNormal, SUCCESS, c)),
     GetTxRWMapByContractName = (\<lambda>n c. ([], []))\<rparr>"

definition sample_tick :: tick where
  "sample_tick = \<lparr>tk_pick = None, tk_start = 0, tk_spent = 1, tk_end = 2, tk_clk = (\<lambda>_. 0), tk_clk2 = (\<lambda>_. 0), tk_size = 0,
     tk_files = \<lparr>be_fs = quiet_fs, be_readErr = (\<lambda>_. None), be_removeAllLeft = None, be_exec = (\<lambda>_ d. (CmdDone, d)),
       be_uuid = ''u'', NeedSendContractByteCode = True, DockerVMMountPath = ''/mount''\<rparr>\<rparr>"

definition sample_inv :: "((string \<times> bytes) list, (string, nat) gomap) inv_state" where
  "sample_inv = \<lparr>iv_gas = 9999990, iv_type = ExecOrderTxTypeNormal,
     iv_rt = \<lparr>rowIndex = 0, rt_chainId = ''chain'', rt_event = [], rt_txDuration = 0,
       rt_durs = \<lparr>d_calls = [], d_txs = [NewTxDuration ''tx'' ''tx#1'' 0], sysCallPool = []\<rparr>\<rparr>,
     iv_ctx = [(''k'', Some ''0123456789A'')], iv_disk = [], iv_cm = (NewClientManager None sample_vm)\<lparr>aliveClientMap := [0]\<rparr>,
     iv_svc = NewRuntimeService sample_cmap None, iv_blocks = NewBlockTxsDurationMgr, iv_sys = []\<rparr>"

definition sample_args :: inv_args where
  "sample_args = \<lparr>ia_contract = \<lparr>con_Name = ''fact'', con_Version = ''1''\<rparr>, ia_method = ''save'', ia_byteCode = None,
     ia_parameters = [], ia_self = 0\<rparr>"

definition sample_get :: DockerVMMessage where
  "sample_get = zero_msg\<lparr>m_Type := GET_STATE_REQUEST, m_SysCallMessage := Some \<lparr>sys_Code = OK, sys_Message = [],
     sys_Payload = [(KeyContractName, Some ''fact''), (KeyStateKey, Some ''k'')]\<rparr>\<rparr>"

definition sample_done :: DockerVMMessage where
  "sample_done = zero_msg\<lparr>m_Type := TX_RESPONSE, m_Response := Some (zero_resp\<lparr>resp_Result := Some ''ok''\<rparr>)\<rparr>"

section \<open>Properties\<close>



text \<open>
  C6: the gas an invocation reports stays within the limit, whatever messages arrive in whatever
  order, if it starts within the limit and called contracts report gas within the limit.
\<close>

theorem invocation_gas_bounded:
  assumes "Invoke L C args pooled tk spentAll evs s = Val (Some (res, ty), s')" "calls_bounded L"
    "iv_gas s \<le> gl_GasLimit (sl_gas L)"
  shows "cr_GasUsed res \<le> gl_GasLimit (sl_gas L)"
proof -
  obtain out key where out: "invoke_start L C args pooled tk s = Val (out, key)"
    using assms(1) by (auto simp: Invoke_def)
  show ?thesis
  proof (cases out)
    case (Running s1)
    with assms(1) out obtain out2 where out2: "inv_loop L args key evs s1 = Val out2"
      "(case out2 of Running s'' \<Rightarrow> Val (None, s'') | Returned r s'' \<Rightarrow> Val (Some r, invoke_end L C key spentAll s'')) =
       Val (Some (res, ty), s')"
      by (auto simp: Invoke_def)
    then obtain s2 where "inv_loop L args key evs s1 = Val (Returned (res, ty) s2)" by (cases out2) auto
    then show ?thesis using loop_gas[OF _ assms(2)] start_gas[OF out assms(3)] Running by simp
  next
    case (Returned r s1)
    then show ?thesis using start_gas[OF out assms(3)] out assms(1) by (auto simp: Invoke_def split: prod.splits)
  qed
qed

theorem invocation_gas_bounded_witness:
  "\<exists>res ty s'. Invoke sample_lib sample_cmap sample_args
     (zero_msg\<lparr>m_Request := Some zero_req, m_CrossContext := Some \<lparr>CurrentDepth = 0, ProcessName = [], CrossInfo = 0\<rparr>\<rparr>)
     sample_tick 5 [(sample_tick, FromSandbox sample_done)] (sample_inv\<lparr>iv_gas := 100\<rparr>) = Val (Some (res, ty), s') \<and>
     cr_GasUsed res \<le> 10000000"
proof -
  let ?I = "Invoke sample_lib sample_cmap sample_args
     (zero_msg\<lparr>m_Request := Some zero_req, m_CrossContext := Some \<lparr>CurrentDepth = 0, ProcessName = [], CrossInfo = 0\<rparr>\<rparr>)
     sample_tick 5 [(sample_tick, FromSandbox sample_done)] (sample_inv\<lparr>iv_gas := 100\<rparr>)"
  have "(case ?I of Val (Some r, s') \<Rightarrow> True | _ \<Rightarrow> False)" by code_simp
  then obtain res ty s' where i: "?I = Val (Some (res, ty), s')" by (auto split: go.splits option.splits)
  have "calls_bounded sample_lib" by (simp add: calls_bounded_def sample_lib_def)
  then show ?thesis using invocation_gas_bounded[OF i] i by (auto simp: sample_lib_def sample_gas_lib_def sample_inv_def)
qed

text \<open>
  C36: exceeding the gas limit costs nothing.  Before block version 2312, a read that takes the gas
  above the limit is answered with a failure, and the gas is zero from then on; if the contract
  ignores the failure and finishes, the invocation succeeds with no gas used.
\<close>

theorem over_limit_costs_nothing:
  assumes "m_Type m = GET_STATE_REQUEST" "m_SysCallMessage m = Some sys" "map_of (sys_Payload sys) KeyContractName = Some n"
    "ctx_Get L (bytes_str n) (bytes_at (sys_Payload sys) KeyStateKey) (iv_ctx s) = (Inr v, c')"
    "GetBlockVersion L (iv_ctx s) < blockVersion2312" "gl_GasLimit (sl_gas L) < iv_gas s + word_of_nat (blen v)"
    and d: "m_Type d = TX_RESPONSE" "m_Response d = Some resp" "resp_Code resp = OK"
    "resp_ReadMap resp = []" "resp_WriteMap resp = []" "resp_Events resp = []" "range_order L [] = []"
  shows "\<exists>s' ty res. inv_loop L args key [(tk, FromSandbox m), (tk', FromSandbox d)] s = Val (Returned (res, ty) s') \<and>
    cr_Code res = 0 \<and> cr_GasUsed res = 0 \<and> length (iv_sys s') = length (iv_sys s) + 1 \<and>
    map_option sys_Code (m_SysCallMessage (last (iv_sys s'))) = Some (SdkFail L)"
proof -
  let ?r = "iv_rt (start_call tk (m_Type m) s)"
  have g: "GetStateGasUsed (sl_gas L) (GetBlockVersion L (iv_ctx s)) cfg (iv_gas s) a k f v = (0, Some ''over gas limited '')" for cfg a k f
    using assms(5,6) by (simp add: GetStateGasUsed_def GetStateGasUsedLt2312_def CheckGasLimit_def uint64_def GetStateGasPrice_def)
  obtain resp1 where h: "handleGetStateRequest L (tk_spent tk) key m (iv_gas s) ?r (iv_ctx s) =
      Val (resp1, 0, add_storage (tk_spent tk) ?r, c')" "map_option sys_Code (m_SysCallMessage resp1) = Some (SdkFail L)"
    using assms(2-4) g by (auto simp: handleGetStateRequest_def Let_def set_code_def set_message_def upd_sys_def
        newEmptyResponse_def set_payload_def)
  obtain s1 where s1: "inv_step L args key tk (FromSandbox m) s = Val (Running s1)" "iv_gas s1 = 0" "iv_sys s1 = iv_sys s @ [resp1]"
    using h(1) assms(1) by (simp add: inv_step_def sandbox_case_def serve_def Let_def)
  obtain res ty s2 where "inv_step L args key tk' (FromSandbox d) s1 = Val (Returned (res, ty) s2)"
    "cr_Code res = 0" "cr_GasUsed res = 0" "iv_sys s2 = iv_sys s1"
    using d s1(2) by (auto simp: inv_step_def sandbox_case_def handleTxResponse_def tx_result_def Let_def
        mergeSimContextReadMap_def mergeSimContextWriteMap_def)
  with s1 h(2) show ?thesis by simp
qed

theorem over_limit_costs_nothing_witness:
  "\<exists>s' ty res. inv_loop sample_lib sample_args ''tx#1'' [(sample_tick, FromSandbox sample_get), (sample_tick, FromSandbox sample_done)]
     sample_inv = Val (Returned (res, ty) s') \<and> cr_Code res = 0 \<and> cr_GasUsed res = 0"
proof -
  define sys where "sys = the (m_SysCallMessage sample_get)"
  define resp where "resp = the (m_Response sample_done)"
  have "m_Type sample_get = GET_STATE_REQUEST" "m_SysCallMessage sample_get = Some sys"
    "map_of (sys_Payload sys) KeyContractName = Some (Some ''fact'')"
    "ctx_Get sample_lib (bytes_str (Some ''fact'')) (bytes_at (sys_Payload sys) KeyStateKey) (iv_ctx sample_inv) =
       (Inr (Some ''0123456789A''), iv_ctx sample_inv)"
    "GetBlockVersion sample_lib (iv_ctx sample_inv) < blockVersion2312"
    "gl_GasLimit (sl_gas sample_lib) < iv_gas sample_inv + word_of_nat (blen (Some ''0123456789A''))"
    "m_Type sample_done = TX_RESPONSE" "m_Response sample_done = Some resp" "resp_Code resp = OK"
    "resp_ReadMap resp = []" "resp_WriteMap resp = []" "resp_Events resp = []" "range_order sample_lib [] = []"
    unfolding sys_def resp_def by code_simp+
  from over_limit_costs_nothing[OF this, of sample_args "''tx#1''" sample_tick sample_tick] show ?thesis by blast
qed

text \<open>
  C34: a prefix iterator covers exactly the keys with the prefix, if the prefix ends in an ASCII
  character below the last one.
\<close>

theorem prefix_range_exact:
  assumes "pre_limit key = Val lt" "of_char (last key) < (127 :: nat)"
  shows "key \<le> x \<and> x < lt \<longleftrightarrow> prefix key x"
proof -
  define p a where "p = butlast key" and "a = last key"
  define b where "b = char_of (of_char a + 1 :: nat)"
  have key: "key = p @ [a]" and lt: "lt = p @ [b]"
    using pre_limit_val[OF assms(1)] unat_byte[of a] assms(2) by (simp_all add: p_def a_def b_def byte_string_def)
  have b: "of_char b = (of_char a + 1 :: nat)" using assms(2) by (simp add: b_def a_def)
  show ?thesis
  proof
    assume r: "key \<le> x \<and> x < lt"
    then obtain y where y: "x = p @ y" "[a] \<le> y" "y < [b]" using between_prefix[of p a x b "[]"] key lt by auto
    from y(2) obtain c ys where c: "y = c # ys" by (cases y) auto
    then have "of_char a \<le> (of_char c :: nat)" "of_char c < (of_char b :: nat)" using y by (auto simp: less_char_def)
    then have "c = a" using b by (metis Suc_eq_plus1 le_antisym less_Suc_eq_le of_char_eq_iff)
    then show "prefix key x" by (simp add: key y(1) c)
  next
    assume "prefix key x"
    then obtain y where "x = p @ a # y" by (auto simp: key prefix_snoc_iff)
    then show "key \<le> x \<and> x < lt" using b by (simp add: key lt append_le_iff append_less_iff less_char_def)
  qed
qed

theorem prefix_range_exact_witness:
  "''k1'' \<le> ''k17'' \<and> ''k17'' < ''k2''"
proof -
  have "pre_limit ''k1'' = Val ''k2''" "of_char (last ''k1'') < (127 :: nat)" by code_simp+
  from prefix_range_exact[OF this, of "''k17''"] show ?thesis by simp
qed



end
