(* ===== verification/Runtime_Server.thy ===== *)
theory Runtime_Server
  imports Rpc_Streams
begin

text \<open>
  The server for the sandboxes, \<open>rpc/runtime_server.go\<close>: its listener, its options and its start and
  stop.  The network is the environment: it may refuse an address for reasons of its own.  No other
  process makes the socket file while the server looks for a free address.
\<close>

definition RuntimeSockName :: string where "RuntimeSockName = ''runtime.sock''"
definition RuntimeSockDir :: string where "RuntimeSockDir = ''runtime-sock''"

record net_env =
  ne_fs :: fs_env
  ne_unixErr :: "string \<Rightarrow> error option"
  ne_tcpErr :: "string \<Rightarrow> error option"

datatype listener = UnixListener string | TCPListener string

section \<open>Listeners\<close>

text \<open>
  \<open>net.ListenUnix\<close> makes the socket file and fails if there is one; \<open>os.Remove\<close> fails on a path that
  does not exist and on a directory with entries.  A socket is a file without contents.
\<close>

definition ListenUnix :: "net_env \<Rightarrow> string \<Rightarrow> disk \<Rightarrow> disk res" where
  "ListenUnix en path d =
     (if map_of d path \<noteq> None then Inl (''listen unix '' @ path @ '': bind: address already in use'')
      else case ne_unixErr en path of Some e \<Rightarrow> Inl e | None \<Rightarrow> Inr (AList.update path (File []) d))"

definition os_Remove :: "net_env \<Rightarrow> string \<Rightarrow> disk \<Rightarrow> disk res" where
  "os_Remove en path d =
     (if map_of d path = None then Inl (path_error ''remove'' path ''no such file or directory'')
      else case fs_removeErr (ne_fs en) path of
        Some e \<Rightarrow> Inl e
      | None \<Rightarrow> if (\<exists>p\<in>set (map fst d). child_name path p \<noteq> None)
                then Inl (path_error ''remove'' path ''directory not empty'')
                else Inr (AList.delete path d))"

lemma os_Remove_gone: "os_Remove en path d = Inr d' \<Longrightarrow> map_of d path \<noteq> None \<and> map_of d' path = None"
  by (auto simp: os_Remove_def split: if_splits option.splits)

text \<open>The loop ends: it goes round again only after it has removed the path.\<close>

function createUnixListener :: "net_env \<Rightarrow> string \<Rightarrow> disk \<Rightarrow> disk \<times> listener res" where
  "createUnixListener en sockPath d = (case ListenUnix en sockPath d of
       Inl _ \<Rightarrow> (case os_Remove en sockPath d of
           Inl err \<Rightarrow> (d, Inl err)
         | Inr d' \<Rightarrow> createUnixListener en sockPath d')
     | Inr d' \<Rightarrow> (case fs_chmodErr (ne_fs en) sockPath of
           Some err \<Rightarrow> (d', Inl err)
         | None \<Rightarrow> (d', Inr (UnixListener sockPath))))"
  by pat_completeness auto
termination
  by (relation "measure (\<lambda>(en, p, d). if map_of d p = None then 0 else 1)") (auto dest!: os_Remove_gone)

declare createUnixListener.simps [simp del]

definition createTCPListener :: "net_env \<Rightarrow> string \<Rightarrow> listener res" where
  "createTCPListener en port = (case ne_tcpErr en port of Some e \<Rightarrow> Inl e | None \<Rightarrow> Inr (TCPListener ('':'' @ port)))"

definition createListener :: "net_env \<Rightarrow> DockerVMConfig \<Rightarrow> disk \<Rightarrow> disk \<times> listener res" where
  "createListener en vmConfig d =
     (if vm_ConnectionProtocol vmConfig = UDSProtocol
      then let sockDir = filepath_Join [vm_DockerVMMountPath vmConfig, RuntimeSockDir];
               runtimeServerSockPath = filepath_Join [sockDir, RuntimeSockName]
           in case rt_CreateDir (ne_fs en) sockDir d of
                (d', Some err) \<Rightarrow> (d', Inl err)
              | (d', None) \<Rightarrow> createUnixListener en runtimeServerSockPath d'
      else (d, createTCPListener en (Itoa (rs_Port (vm_RuntimeServer vmConfig)))))"

section \<open>The server\<close>

text \<open>The options that depend on the configuration; the others are constants of the transport.\<close>

record server_opts =
  so_MaxSendMsgSize :: int
  so_MaxRecvMsgSize :: int

record RuntimeServer =
  srv_listener :: "listener option"
  srv_rpcServer :: "server_opts option"
  srv_config :: DockerVMConfig
  srv_startOnce :: bool
  srv_stopOnce :: bool
  srv_serving :: bool

text \<open>\<open>runtimeServerOnce\<close> and \<open>runtimeServerInstance\<close>; the result is whether the pointer is set.\<close>

record server_once =
  so_done :: bool
  so_instance :: "RuntimeServer option"

definition NewRuntimeServer ::
  "net_env \<Rightarrow> DockerVMConfig option \<Rightarrow> server_once \<Rightarrow> disk \<Rightarrow> disk \<times> server_once \<times> bool res" where
  "NewRuntimeServer en vmConfig g d =
     (if so_done g then (d, g, Inr (so_instance g \<noteq> None))
      else let g = g\<lparr>so_done := True\<rparr>
           in case vmConfig of
                None \<Rightarrow> (d, g, Inl ''invalid parameter, config is nil'')
              | Some cfg \<Rightarrow> (case createListener en cfg d of
                    (d', Inl err) \<Rightarrow> (d', g, Inl err)
                  | (d', Inr listener) \<Rightarrow>
                      (let size = uint (GetMaxRecvMsgSizeFromConfig cfg) * 1024 * 1024;
                           server = \<lparr>so_MaxSendMsgSize = size, so_MaxRecvMsgSize = size\<rparr>
                       in (d', g\<lparr>so_instance := Some \<lparr>srv_listener = Some listener, srv_rpcServer = Some server,
                             srv_config = cfg, srv_startOnce = False, srv_stopOnce = False, srv_serving = False\<rparr>\<rparr>,
                           Inr True))))"

text \<open>A method called on the nil pointer panics at its first use of a field.\<close>

definition StartRuntimeServer :: "RuntimeServer option \<Rightarrow> (RuntimeServer \<times> error option) go" where
  "StartRuntimeServer srv = (case srv of
       None \<Rightarrow> Panic
     | Some s \<Rightarrow>
         if srv_startOnce s then Val (s, None)
         else let s = s\<lparr>srv_startOnce := True\<rparr>
              in if srv_listener s = None then Val (s, Some ''nil listener'')
                 else if srv_rpcServer s = None then Val (s, Some ''nil server'')
                 else Val (s\<lparr>srv_serving := True\<rparr>, None))"

definition StopRuntimeServer :: "RuntimeServer option \<Rightarrow> RuntimeServer go" where
  "StopRuntimeServer srv = (case srv of
       None \<Rightarrow> Panic
     | Some s \<Rightarrow>
         if srv_stopOnce s then Val s
         else let s = s\<lparr>srv_stopOnce := True\<rparr>
              in Val (if srv_rpcServer s \<noteq> None then s\<lparr>srv_serving := False\<rparr> else s))"

text \<open>
  A socket left by an earlier run does not stop the server: unless the system refuses, the listener
  is made at the path.
\<close>

lemma stale_socket_replaced:
  assumes "ne_unixErr en p = None" "fs_removeErr (ne_fs en) p = None" "fs_chmodErr (ne_fs en) p = None"
    and "\<forall>q\<in>set (map fst d). child_name p q = None"
  shows "\<exists>d'. createUnixListener en p d = (d', Inr (UnixListener p)) \<and> map_of d' p = Some (File [])"
proof (cases "map_of d p = None")
  case True
  then show ?thesis using assms by (simp add: createUnixListener.simps ListenUnix_def update_conv')
next
  case False
  then have "createUnixListener en p d = createUnixListener en p (AList.delete p d)"
    using assms by (subst createUnixListener.simps) (auto simp: ListenUnix_def os_Remove_def)
  then show ?thesis
    using assms by (simp add: createUnixListener.simps[of en p "AList.delete p d"] ListenUnix_def update_conv' delete_conv')
qed

end
