(* ===== verification/Instance_Manager.thy ===== *)
theory Instance_Manager
  imports Runtime_Base Runtime_Server
begin

text \<open>
  The manager of the runtime instances, \<open>instance_manager.go\<close>: the check of the settings, the mount
  directories, the start and stop of the virtual machine and the hooks around a block.

  The client manager, the server and the service are singletons of the process, shared by the chains;
  they are in \<open>globals\<close>.  The decoded configuration is an input, since a failure of the decoder is
  only logged.
\<close>

section \<open>State\<close>

record 'm globals =
  g_clientMgr :: "ContractEngineClientManager option"
  g_server :: server_once
  g_service :: "'m RuntimeService option"
  g_VMConfig :: "DockerVMConfig option"

definition no_globals :: "'m globals" where
  "no_globals = \<lparr>g_clientMgr = None, g_server = \<lparr>so_done = False, so_instance = None\<rparr>, g_service = None, g_VMConfig = None\<rparr>"

text \<open>\<open>im_runtimeServer\<close> says whether the pointer to the server is set.\<close>

record InstancesManager =
  im_chainId :: string
  im_runtimeServer :: bool
  dockerVMConfig :: DockerVMConfig
  dockerContainerConfig :: DockerContainerConfig
  BlockDurationMgr :: BlockTxsDurationMgr

section \<open>Settings\<close>

definition newDockerContainerConfig :: DockerContainerConfig where
  "newDockerContainerConfig = \<lparr>HostMountDir = '''', HostLogDir = ''''\<rparr>"

text \<open>\<open>filepath.IsAbs\<close> and \<open>filepath.Abs\<close>; \<open>wd\<close> is the working directory or the failure to get it.\<close>

definition filepath_IsAbs :: "string \<Rightarrow> bool" where
  "filepath_IsAbs p \<longleftrightarrow> p \<noteq> [] \<and> hd p = CHR ''/''"

definition filepath_Abs :: "string res \<Rightarrow> string \<Rightarrow> string res" where
  "filepath_Abs wd p = (if filepath_IsAbs p then Inr (filepath_Clean p)
     else case wd of Inl e \<Rightarrow> Inl e | Inr w \<Rightarrow> Inr (filepath_Join [w, p]))"

definition default_settings :: "DockerVMConfig \<Rightarrow> DockerVMConfig" where
  "default_settings cfg =
     (let c1 = (if vm_TxTimeout cfg = 0 then cfg\<lparr>vm_TxTimeout := DefaultTxTimeout\<rparr> else cfg);
          c2 = (if slow_StepTime (vm_Slow c1) = 0 then c1\<lparr>vm_Slow := vm_Slow c1\<lparr>slow_StepTime := DefaultSlowStepLogTime\<rparr>\<rparr> else c1)
      in if slow_TxTime (vm_Slow c2) = 0 then c2\<lparr>vm_Slow := vm_Slow c2\<lparr>slow_TxTime := DefaultSlowTxLogTime\<rparr>\<rparr> else c2)"

definition validateVMSettings ::
  "string res \<Rightarrow> DockerVMConfig \<Rightarrow> DockerContainerConfig \<Rightarrow> (DockerVMConfig \<times> DockerContainerConfig) res" where
  "validateVMSettings wd cfg con =
     (if vm_DockerVMMountPath cfg = [] then Inl ''doesn't set host mount directory path correctly''
      else if vm_DockerVMLogPath cfg = [] then Inl ''doesn't set host log directory path correctly''
      else case (if \<not> filepath_IsAbs (vm_DockerVMMountPath cfg) then filepath_Abs wd (vm_DockerVMMountPath cfg)
                 else Inr (vm_DockerVMMountPath cfg)) of
        Inl _ \<Rightarrow> Inl (''failed to abs DockerVMMountPath filepath, '' @ vm_DockerVMMountPath cfg)
      | Inr hostMountDir \<Rightarrow>
          (case (if \<not> filepath_IsAbs (vm_DockerVMLogPath cfg)
                 then (case filepath_Abs wd (vm_DockerVMLogPath cfg) of
                     Inl e \<Rightarrow> Inl e
                   | Inr hostLogDir \<Rightarrow> Inr (hostMountDir, hostLogDir))
                 else Inr (vm_DockerVMLogPath cfg, '''')) of
             Inl _ \<Rightarrow> Inl (''failed to abs DockerVMLogPath filepath, '' @ vm_DockerVMLogPath cfg)
           | Inr (hostMountDir, hostLogDir) \<Rightarrow>
               Inr (default_settings cfg, con\<lparr>HostMountDir := hostMountDir, HostLogDir := hostLogDir\<rparr>)))"

section \<open>Directories\<close>

definition im_exists :: "fs_env \<Rightarrow> string \<Rightarrow> disk \<Rightarrow> bool res" where
  "im_exists en path d = (case fs_statErr en path of
       Some e \<Rightarrow> Inl e
     | None \<Rightarrow> Inr (map_of d path \<noteq> None))"

definition im_createDir :: "fs_env \<Rightarrow> string \<Rightarrow> disk \<Rightarrow> disk \<times> error option" where
  "im_createDir en directory d = (case im_exists en directory d of
       Inl e \<Rightarrow> (d, Some e)
     | Inr exist \<Rightarrow> if \<not> exist then MkdirAll en directory d else (d, None))"

definition initMountDirectory :: "fs_env \<Rightarrow> DockerContainerConfig \<Rightarrow> disk \<Rightarrow> disk \<times> error option" where
  "initMountDirectory en con d = (case im_createDir en (HostMountDir con) d of
       (d1, Some _) \<Rightarrow> (d1, None)
     | (d1, None) \<Rightarrow> (case im_createDir en (filepath_Join [HostMountDir con, rt_ContractsDir]) d1 of
           (d2, Some err) \<Rightarrow> (d2, Some err)
         | (d2, None) \<Rightarrow> (case im_createDir en (filepath_Join [HostMountDir con, SockDir]) d2 of
               (d3, Some err) \<Rightarrow> (d3, Some err)
             | (d3, None) \<Rightarrow> (case im_createDir en (HostLogDir con) d3 of
                   (d4, Some _) \<Rightarrow> (d4, None)
                 | (d4, None) \<Rightarrow> (d4, None)))))"

section \<open>The manager\<close>

definition NewInstancesManager ::
  "'m cmap_ops \<Rightarrow> net_env \<Rightarrow> string res \<Rightarrow> string \<Rightarrow> DockerVMConfig \<Rightarrow> 'm globals \<Rightarrow> disk \<Rightarrow>
     disk \<times> 'm globals \<times> InstancesManager option" where
  "NewInstancesManager C en wd chainId cfg g d =
     (if \<not> vm_EnableDockerVM cfg then (d, g, None)
      else case validateVMSettings wd cfg newDockerContainerConfig of
        Inl _ \<Rightarrow> (d, g, None)
      | Inr (cfg, con) \<Rightarrow>
          (let g1 = g\<lparr>g_clientMgr := Some (NewClientManager (g_clientMgr g) cfg)\<rparr>
           in case initMountDirectory (ne_fs en) con d of
                (d1, Some _) \<Rightarrow> (d1, g1, None)
              | (d1, None) \<Rightarrow> (case NewRuntimeServer en (Some cfg) (g_server g1) d1 of
                    (d2, srv, Inl _) \<Rightarrow> (d2, g1\<lparr>g_server := srv\<rparr>, None)
                  | (d2, srv, Inr server) \<Rightarrow>
                      (d2, g1\<lparr>g_server := srv, g_service := Some (NewRuntimeService C (g_service g1)), g_VMConfig := Some cfg\<rparr>,
                       Some \<lparr>im_chainId = chainId, im_runtimeServer = server, dockerVMConfig = cfg,
                             dockerContainerConfig = con, BlockDurationMgr = NewBlockTxsDurationMgr\<rparr>))))"

text \<open>
  A new runtime instance has no events; its transaction record is made when it is invoked, in the
  store of the manager.
\<close>

definition NewRuntimeInstance :: "string \<Rightarrow> durs \<Rightarrow> InstancesManager \<Rightarrow> RuntimeInstance" where
  "NewRuntimeInstance chainId s m = \<lparr>rowIndex = 0, rt_chainId = chainId, rt_event = [], rt_txDuration = 0, rt_durs = s\<rparr>"

definition server_of :: "InstancesManager \<Rightarrow> 'm globals \<Rightarrow> RuntimeServer option" where
  "server_of m g = (if im_runtimeServer m then so_instance (g_server g) else None)"

text \<open>\<open>StartVM\<close> up to the wait of the client manager; \<open>clientMgr\<close> is set by \<open>NewInstancesManager\<close>.\<close>

definition StartVM :: "InstancesManager option \<Rightarrow> 'm globals \<Rightarrow> ('m globals \<times> error option) go" where
  "StartVM m g = (case m of
       None \<Rightarrow> Val (g, None)
     | Some m \<Rightarrow> go_bind (StartRuntimeServer (server_of m g)) (\<lambda>(srv, err).
         let g = g\<lparr>g_server := (g_server g)\<lparr>so_instance := Some srv\<rparr>\<rparr>
         in case err of
              Some e \<Rightarrow> Val (g, Some e)
            | None \<Rightarrow> Val (g\<lparr>g_clientMgr := map_option cm_Start (g_clientMgr g)\<rparr>, None)))"

definition StopVM :: "InstancesManager option \<Rightarrow> 'm globals \<Rightarrow> ('m globals \<times> error option) go" where
  "StopVM m g = (case m of
       None \<Rightarrow> Val (g, None)
     | Some m \<Rightarrow>
         (let g = g\<lparr>g_clientMgr := map_option (\<lambda>cm. fst (closeAllConnections cm)) (g_clientMgr g)\<rparr>
          in go_bind (StopRuntimeServer (server_of m g)) (\<lambda>srv.
               Val (g\<lparr>g_server := (g_server g)\<lparr>so_instance := Some srv\<rparr>\<rparr>, None))))"

definition BeforeSchedule :: "string \<Rightarrow> InstancesManager \<Rightarrow> InstancesManager" where
  "BeforeSchedule blockFingerprint m =
     m\<lparr>BlockDurationMgr := AddBlockTxsDuration blockFingerprint (BlockDurationMgr m)\<rparr>"

definition AfterSchedule :: "string \<Rightarrow> 64 word \<Rightarrow> durs \<Rightarrow> InstancesManager \<Rightarrow> InstancesManager \<times> string" where
  "AfterSchedule blockFingerprint blockHeight s m =
     (m\<lparr>BlockDurationMgr := RemoveBlockTxsDuration blockFingerprint (BlockDurationMgr m)\<rparr>,
      ''BlockHeight: '' @ FormatUint blockHeight @ '', '' @ PrintBlockTxsDuration s blockFingerprint (BlockDurationMgr m))"

section \<open>Directories that are made\<close>

lemma add_dir_there [simp]: "map_of (add_dir p d) p \<noteq> None"
  by (simp add: add_dir_def update_conv')

lemma add_dir_keeps: "map_of d q \<noteq> None \<Longrightarrow> map_of (add_dir p d) q \<noteq> None"
  by (auto simp: add_dir_def update_conv')

lemma fold_add_dir_keeps: "map_of d q \<noteq> None \<Longrightarrow> map_of (fold add_dir ps d) q \<noteq> None"
  by (induction ps arbitrary: d) (simp_all add: add_dir_keeps del: not_None_eq)

lemma fold_add_dir_there: "p \<in> set ps \<Longrightarrow> map_of (fold add_dir ps d) p \<noteq> None"
proof (induction ps arbitrary: d)
  case (Cons q ps)
  then show ?case using fold_add_dir_keeps[of "add_dir q d" q ps] by auto
qed simp

lemma path_in_ancestors: "pre @ p \<in> set (ancestors pre p)"
proof (induction p arbitrary: pre)
  case (Cons c p)
  then show ?case using Cons.IH[of "pre @ [c]"] by auto
qed simp

lemma createDir_keeps: "im_createDir en p d = (d', err) \<Longrightarrow> map_of d q \<noteq> None \<Longrightarrow> map_of d' q \<noteq> None"
  using fold_add_dir_keeps[of d q "ancestors [] p"]
  by (auto simp: im_createDir_def MkdirAll_def split: sum.splits if_splits option.splits simp del: not_None_eq)

lemma createDir_there:
  assumes "im_createDir en p d = (d', None)"
  shows "map_of d' p \<noteq> None"
  using assms path_in_ancestors[of "[]" p] fold_add_dir_there[of p "ancestors [] p" d]
  by (auto simp: im_createDir_def im_exists_def MkdirAll_def split: option.splits if_splits)

text \<open>When the mount directory itself can be made, success means that both subdirectories exist.\<close>

lemma initMountDirectory_there:
  assumes "initMountDirectory en con d = (d', None)" "im_createDir en (HostMountDir con) d = (d1, None)"
  shows "map_of d' (filepath_Join [HostMountDir con, rt_ContractsDir]) \<noteq> None"
    and "map_of d' (filepath_Join [HostMountDir con, SockDir]) \<noteq> None"
proof -
  obtain d2 d3 err where
    d2: "im_createDir en (filepath_Join [HostMountDir con, rt_ContractsDir]) d1 = (d2, None)"
    and d3: "im_createDir en (filepath_Join [HostMountDir con, SockDir]) d2 = (d3, None)"
    and d4: "im_createDir en (HostLogDir con) d3 = (d', err)"
    using assms by (auto simp: initMountDirectory_def split: prod.splits option.splits)
  show "map_of d' (filepath_Join [HostMountDir con, rt_ContractsDir]) \<noteq> None"
    by (rule createDir_keeps[OF d4 createDir_keeps[OF d3 createDir_there[OF d2]]])
  show "map_of d' (filepath_Join [HostMountDir con, SockDir]) \<noteq> None"
    by (rule createDir_keeps[OF d4 createDir_there[OF d3]])
qed

section \<open>Properties\<close>

lemma absolute_settings:
  assumes "filepath_IsAbs (vm_DockerVMMountPath cfg)" "filepath_IsAbs (vm_DockerVMLogPath cfg)"
  shows "validateVMSettings wd cfg con =
    Inr (default_settings cfg, con\<lparr>HostMountDir := vm_DockerVMLogPath cfg, HostLogDir := ''''\<rparr>)"
  using assms by (simp add: validateVMSettings_def) (auto simp: filepath_IsAbs_def)

lemma default_settings_mount [simp]: "vm_DockerVMMountPath (default_settings cfg) = vm_DockerVMMountPath cfg"
  by (simp add: default_settings_def Let_def)

definition host_dirs :: "InstancesManager \<Rightarrow> string \<times> string" where
  "host_dirs m = (HostMountDir (dockerContainerConfig m), HostLogDir (dockerContainerConfig m))"

text \<open>
  C38: Absolute paths are mixed up.  With an absolute mount path and an absolute log path, the manager
  takes the log path as its mount directory and leaves its log directory empty.  If the system makes
  directories, the directories of the binaries and of the engine's socket are made below the log
  path, while the clients and the handlers go on using the mount path of the configuration.
\<close>

theorem absolute_paths_mixed_up:
  assumes "filepath_IsAbs (vm_DockerVMMountPath cfg)" "filepath_IsAbs (vm_DockerVMLogPath cfg)"
    and "NewInstancesManager C en wd chainId cfg g d = (d', g', Some m)"
    and "vm_ConnectionProtocol cfg \<noteq> UDSProtocol"
    and "\<And>p. fs_statErr (ne_fs en) p = None" "\<And>p. fs_mkdirErr (ne_fs en) p = None"
  shows "host_dirs m = (vm_DockerVMLogPath cfg, '''') \<and>
    map_of d' (filepath_Join [vm_DockerVMLogPath cfg, rt_ContractsDir]) \<noteq> None \<and>
    map_of d' (filepath_Join [vm_DockerVMLogPath cfg, SockDir]) \<noteq> None \<and>
    vm_DockerVMMountPath (dockerVMConfig m) = vm_DockerVMMountPath cfg"
proof -
  let ?con = "\<lparr>HostMountDir = vm_DockerVMLogPath cfg, HostLogDir = ''''\<rparr>"
  have val: "validateVMSettings wd cfg newDockerContainerConfig = Inr (default_settings cfg, ?con)"
    using absolute_settings[OF assms(1,2)] by (simp add: newDockerContainerConfig_def)
  have proto: "vm_ConnectionProtocol (default_settings cfg) \<noteq> UDSProtocol"
    using assms(4) by (simp add: default_settings_def Let_def)
  obtain d1 g1 srv r where d1: "initMountDirectory (ne_fs en) ?con d = (d1, None)"
    and m: "dockerContainerConfig m = ?con" "dockerVMConfig m = default_settings cfg"
    and d': "NewRuntimeServer en (Some (default_settings cfg)) g1 d1 = (d', srv, r)"
    using assms(3) val by (auto simp: NewInstancesManager_def Let_def split: if_splits prod.splits option.splits sum.splits)
  have "d' = d1"
    using d' proto by (auto simp: NewRuntimeServer_def createListener_def Let_def split: if_splits sum.splits)
  moreover obtain d0 where "im_createDir (ne_fs en) (HostMountDir ?con) d = (d0, None)"
    using assms(2,5,6) by (cases "map_of d (vm_DockerVMLogPath cfg)")
      (auto simp: im_createDir_def im_exists_def MkdirAll_def filepath_IsAbs_def)
  ultimately show ?thesis
    using initMountDirectory_there[OF d1] m by (simp add: host_dirs_def)
qed

lemma NewRuntimeServer_error: "NewRuntimeServer en c g d = (d', g', Inl e) \<Longrightarrow> so_done g' \<and> so_instance g' = so_instance g"
  by (auto simp: NewRuntimeServer_def Let_def split: if_splits option.splits prod.splits sum.splits)

lemma NewInstancesManager_none:
  "NewInstancesManager C en wd chainId cfg g d = (d', g', None) \<Longrightarrow> so_instance (g_server g') = so_instance (g_server g)"
  by (auto simp: NewInstancesManager_def Let_def split: if_splits option.splits prod.splits sum.splits
    dest!: NewRuntimeServer_error)

text \<open>
  C39: After a failed server the next chain panics.  If the first chain's manager could not be made
  after the server was tried, the second chain's manager is made all the same, because the server's
  \<open>sync.Once\<close> is used up and the nil instance is returned without an error; starting that virtual
  machine, or stopping it, dereferences the nil server.
\<close>

theorem failed_server_panics_start:
  assumes "NewInstancesManager C en wd chain1 cfg1 no_globals d = (d1, g1, None)" "so_done (g_server g1)"
    and "NewInstancesManager C en' wd' chain2 cfg2 g1 d1 = (d2, g2, Some m)"
  shows "StartVM (Some m) g2 = Panic \<and> StopVM (Some m) g2 = Panic"
proof -
  have "so_instance (g_server g1) = None"
    using NewInstancesManager_none[OF assms(1)] by (simp add: no_globals_def)
  then have "\<not> im_runtimeServer m"
    using assms(2,3) by (auto simp: NewInstancesManager_def NewRuntimeServer_def Let_def
      split: if_splits option.splits prod.splits sum.splits)
  then show ?thesis
    by (simp add: StartVM_def StopVM_def server_of_def StartRuntimeServer_def StopRuntimeServer_def Let_def)
qed

definition sample_net :: "error option \<Rightarrow> net_env" where
  "sample_net e = \<lparr>ne_fs = quiet_fs, ne_unixErr = (\<lambda>_. None), ne_tcpErr = (\<lambda>_. e)\<rparr>"

definition sample_manager :: "error option \<Rightarrow> (string, nat) gomap globals \<Rightarrow> disk \<Rightarrow> disk \<times> (string, nat) gomap globals \<times> InstancesManager option" where
  "sample_manager e = NewInstancesManager sample_cmap (sample_net e) (Inr ''/home'') ''chain1'' sample_vm"

theorem absolute_paths_mixed_up_witness:
  "\<exists>d' g' m. sample_manager None no_globals [] = (d', g', Some m) \<and> host_dirs m = (''/log'', '''') \<and>
     map_of d' ''/log/contract-bins'' \<noteq> None \<and> map_of d' ''/mount/contract-bins'' = None \<and>
     vm_DockerVMMountPath (dockerVMConfig m) = ''/mount''"
proof -
  obtain d' g' r where n: "sample_manager None no_globals [] = (d', g', r)" by (cases "sample_manager None no_globals []") auto
  have "snd (snd (sample_manager None no_globals [])) \<noteq> None"
    "map_of (fst (sample_manager None no_globals [])) ''/mount/contract-bins'' = None" by code_simp+
  with n obtain m where m: "r = Some m" and absent: "map_of d' ''/mount/contract-bins'' = None" by auto
  have p: "vm_DockerVMMountPath sample_vm = ''/mount''" "vm_DockerVMLogPath sample_vm = ''/log''"
    "filepath_Join [''/log'', rt_ContractsDir] = ''/log/contract-bins''"
    "filepath_IsAbs ''/mount''" "filepath_IsAbs ''/log''" "vm_ConnectionProtocol sample_vm \<noteq> UDSProtocol" by code_simp+
  have "NewInstancesManager sample_cmap (sample_net None) (Inr ''/home'') ''chain1'' sample_vm no_globals [] = (d', g', Some m)"
    using n m by (simp add: sample_manager_def)
  from absolute_paths_mixed_up[OF _ _ this] p show ?thesis
    using n m absent by (auto simp: sample_net_def quiet_fs_def)
qed

theorem failed_server_panics_start_witness:
  "\<exists>d1 g1 d2 g2 m. sample_manager (Some ''address already in use'') no_globals [] = (d1, g1, None) \<and>
     sample_manager None g1 d1 = (d2, g2, Some m) \<and> StartVM (Some m) g2 = Panic"
proof -
  let ?n = "sample_manager (Some ''address already in use'') no_globals []"
  obtain d1 g1 r1 where n1: "?n = (d1, g1, r1)" by (cases ?n) auto
  obtain d2 g2 r2 where n2: "sample_manager None g1 d1 = (d2, g2, r2)" by (cases "sample_manager None g1 d1") auto
  have "snd (snd ?n) = None" "so_done (g_server (fst (snd ?n)))"
    "snd (snd (sample_manager None (fst (snd ?n)) (fst ?n))) \<noteq> None" by code_simp+
  with n1 n2 obtain m where "r1 = None" "so_done (g_server g1)" "r2 = Some m" by auto
  with n1 n2 failed_server_panics_start[of sample_cmap "sample_net (Some ''address already in use'')" "Inr ''/home''" "''chain1''"
      sample_vm "[]" d1 g1 "sample_net None" "Inr ''/home''" "''chain1''" sample_vm d2 g2 m]
  show ?thesis by (auto simp: sample_manager_def)
qed

end
