(* ===== verification/Fixed_Queue.thy ===== *)
theory Fixed_Queue
  imports Prelude "HOL-Library.Multiset"
begin

text \<open>
  The blocking queue of \<open>vm_mgr/utils/fixed_queue.go\<close>.  Its two channels are lists; each call
  in flight is a thread whose local state is the point of the call it has reached, and one
  step of a thread is one \<open>select\<close> of the code, which Go executes atomically.  A run follows
  an arbitrary schedule, so the lemmas hold for every interleaving of any number of calls.

  The calls run without interference are the functions \<open>Enqueue\<close> and
  \<open>DequeueOrWaitForNextElement\<close>, which the user manager is built on.
\<close>

section \<open>The queue and its calls in flight\<close>

definition WaitForNextElementChanCapacity :: nat where
  "WaitForNextElementChanCapacity = 4000"

definition err_full :: error where
  "err_full = ''FixedFIFO queue is at full capacity''"

definition err_no_wait :: error where
  "err_no_wait = ''empty queue and can't wait for next element''"

definition err_ctx :: error where
  "err_ctx = ''context canceled''"

record 'a FixedFIFO =
  queue :: "'a list"
  capacity :: nat
  waitForNextElementChan :: "nat list"

definition NewFixedFIFO :: "nat \<Rightarrow> 'a FixedFIFO" where
  "NewFixedFIFO cap = \<lparr>queue = [], capacity = cap, waitForNextElementChan = []\<rparr>"

datatype 'a call =
    DqStart             \<comment> \<open>before the outer select of a dequeue\<close>
  | DqEmpty             \<comment> \<open>in its default branch: the queue was empty\<close>
  | DqWait nat          \<comment> \<open>registered, receiving on its own channel\<close>
  | DqDone 'a
  | DqFail error
  | EnqStart 'a         \<comment> \<open>before the outer select of an enqueue\<close>
  | EnqSend nat 'a      \<comment> \<open>took a listener, sending on its channel\<close>
  | EnqPut 'a           \<comment> \<open>in its default branch: no listener\<close>
  | EnqDone 'a
  | EnqFail error 'a

record 'a fifo_sys =
  fifo :: "'a FixedFIFO"
  threads :: "'a call list"
  cancelled :: "nat list"

text \<open>
  A call of thread \<open>t\<close> owns the channel numbered \<open>t\<close>; \<open>t \<in> cancelled\<close> when its context is
  done.  The flag of a step resolves the choice between two ready cases of a select.
\<close>

definition fifo_step :: "nat \<times> bool \<Rightarrow> 'a fifo_sys \<Rightarrow> 'a fifo_sys" where
  "fifo_step tb s =
     (let t = fst tb; q = fifo s; dn = t \<in> set (cancelled s)
      in if t \<ge> length (threads s) then s
      else case threads s ! t of
        DqStart \<Rightarrow>
          (if queue q \<noteq> [] \<and> (\<not> dn \<or> snd tb)
           then s\<lparr>fifo := q\<lparr>queue := tl (queue q)\<rparr>,
                  threads := (threads s)[t := DqDone (hd (queue q))]\<rparr>
           else if dn then s\<lparr>threads := (threads s)[t := DqFail err_ctx]\<rparr>
           else s\<lparr>threads := (threads s)[t := DqEmpty]\<rparr>)
      | DqEmpty \<Rightarrow>
          (if length (waitForNextElementChan q) < WaitForNextElementChanCapacity
           then s\<lparr>fifo := q\<lparr>waitForNextElementChan := waitForNextElementChan q @ [t]\<rparr>,
                  threads := (threads s)[t := DqWait t]\<rparr>
           else s\<lparr>threads := (threads s)
                    [t := DqFail err_no_wait]\<rparr>)
      | DqWait ch \<Rightarrow>
          (if dn then s\<lparr>threads := (threads s)[t := DqFail err_ctx]\<rparr> else s)
      | EnqStart v \<Rightarrow>
          (case waitForNextElementChan q of
             [] \<Rightarrow> s\<lparr>threads := (threads s)[t := EnqPut v]\<rparr>
           | ch # chs \<Rightarrow> s\<lparr>fifo := q\<lparr>waitForNextElementChan := chs\<rparr>,
                           threads := (threads s)[t := EnqSend ch v]\<rparr>)
      | EnqSend ch v \<Rightarrow>
          (if ch < length (threads s) \<and> threads s ! ch = DqWait ch
           then s\<lparr>threads := (threads s)[t := EnqDone v, ch := DqDone v]\<rparr> else s)
      | EnqPut v \<Rightarrow>
          (if length (queue q) < capacity q
           then s\<lparr>fifo := q\<lparr>queue := queue q @ [v]\<rparr>,
                  threads := (threads s)[t := EnqDone v]\<rparr>
           else s\<lparr>threads := (threads s)
                    [t := EnqFail err_full v]\<rparr>)
      | _ \<Rightarrow> s)"

datatype fifo_event = Run nat bool | Cancel nat

fun fifo_event_step :: "fifo_event \<Rightarrow> 'a fifo_sys \<Rightarrow> 'a fifo_sys" where
  "fifo_event_step (Run t b) s = fifo_step (t, b) s"
| "fifo_event_step (Cancel t) s = s\<lparr>cancelled := t # cancelled s\<rparr>"

section \<open>Calls without interference\<close>

text \<open>
  \<open>Enqueue\<close> returns the queue, the listener it handed the value to, if any, and its error;
  \<^term>\<open>Block\<close> is a dequeue that waits as a new listener \<open>t\<close>.
\<close>

definition Enqueue :: "'a \<Rightarrow> 'a FixedFIFO \<Rightarrow> 'a FixedFIFO \<times> nat option \<times> error option" where
  "Enqueue v q = (case waitForNextElementChan q of
       ch # chs \<Rightarrow> (q\<lparr>waitForNextElementChan := chs\<rparr>, Some ch, None)
     | [] \<Rightarrow> (if length (queue q) < capacity q
             then (q\<lparr>queue := queue q @ [v]\<rparr>, None, None)
             else (q, None, Some err_full)))"

definition DequeueOrWaitForNextElement ::
  "nat \<Rightarrow> 'a FixedFIFO \<Rightarrow> 'a FixedFIFO \<times> 'a res go" where
  "DequeueOrWaitForNextElement t q = (case queue q of
       v # vs \<Rightarrow> (q\<lparr>queue := vs\<rparr>, Val (Inr v))
     | [] \<Rightarrow> (if length (waitForNextElementChan q) < WaitForNextElementChanCapacity
             then (q\<lparr>waitForNextElementChan := waitForNextElementChan q @ [t]\<rparr>, Block)
             else (q, Val (Inl err_no_wait))))"

section \<open>Nothing is lost\<close>

fun held :: "'a call \<Rightarrow> 'a multiset" where
  "held (DqDone v) = {#v#}"
| "held (EnqStart v) = {#v#}"
| "held (EnqSend ch v) = {#v#}"
| "held (EnqPut v) = {#v#}"
| "held (EnqFail e v) = {#v#}"
| "held _ = {#}"

definition contents :: "'a fifo_sys \<Rightarrow> 'a multiset" where
  "contents s = mset (queue (fifo s)) + sum_list (map held (threads s))"

lemma sum_list_swap:
  fixes f :: "'a \<Rightarrow> 'b::comm_monoid_add"
  shows "i < length xs \<Longrightarrow> sum_list (map f (xs[i := y])) + f (xs ! i) = sum_list (map f xs) + f y"
  by (induction xs arbitrary: i) (auto simp: nth_Cons add_ac split: nat.splits)

lemma contents_move:
  assumes "i < length xs" and "mset q' + held y = mset q + held (xs ! i)"
  shows "mset q' + sum_list (map held (xs[i := y])) = mset q + sum_list (map held xs)"
proof -
  have "mset q' + sum_list (map held (xs[i := y])) + (held (xs ! i) + held y) =
        mset q + sum_list (map held xs) + (held (xs ! i) + held y)"
    using sum_list_swap[OF assms(1), of held y] assms(2)
    by (metis (no_types, lifting) add.assoc add.commute)
  then show ?thesis by simp
qed

lemma held_same:
  "i < length xs \<Longrightarrow> held (xs ! i) = held y \<Longrightarrow>
   sum_list (map held (xs[i := y])) = sum_list (map held xs)"
  using contents_move[of i xs "[]" y "[]"] by simp

lemma held_give:
  "i < length xs \<Longrightarrow> held (xs ! i) = {#v#} \<Longrightarrow> held y = {#} \<Longrightarrow>
   add_mset v (sum_list (map held (xs[i := y]))) = sum_list (map held xs)"
  using contents_move[of i xs "[v]" y "[]"] by simp

lemma fifo_step_contents: "contents (fifo_step tb s) = contents s"
proof (cases "fst tb < length (threads s)")
  case True
  note move = contents_move[OF True]
  show ?thesis
  proof (cases "threads s ! fst tb")
    case (EnqSend ch v)
    have "mset [] + sum_list (map held ((threads s)[fst tb := EnqDone v, ch := DqDone v])) =
        mset [v] + sum_list (map held ((threads s)[fst tb := EnqDone v]))"
      if "ch < length (threads s)" "threads s ! ch = DqWait ch"
      using that EnqSend True by (intro contents_move) (auto simp: nth_list_update)
    moreover have "mset [v] + sum_list (map held ((threads s)[fst tb := EnqDone v])) =
        mset [] + sum_list (map held (threads s))"
      using EnqSend by (intro move) simp
    ultimately show ?thesis
      using EnqSend True by (auto simp: fifo_step_def contents_def Let_def)
  qed (use True in \<open>auto simp: fifo_step_def contents_def Let_def neq_Nil_conv held_same
      held_give intro!: move split: list.split\<close>)
qed (simp add: fifo_step_def Let_def)

lemma event_contents: "contents (fifo_event_step e s) = contents s"
  by (cases e) (simp_all add: fifo_step_contents, simp add: contents_def)

section \<open>Every listener is served by its own sender\<close>

definition waiting :: "'a fifo_sys \<Rightarrow> nat \<Rightarrow> bool" where
  "waiting s ch \<longleftrightarrow> ch < length (threads s) \<and>
     (threads s ! ch = DqWait ch \<or> ch \<in> set (cancelled s) \<and> threads s ! ch = DqFail err_ctx)"

definition receiving :: "'a fifo_sys \<Rightarrow> nat \<Rightarrow> bool" where
  "receiving s t \<longleftrightarrow> t < length (threads s) \<and> (\<exists>ch. threads s ! t = DqWait ch)"

definition sending :: "'a fifo_sys \<Rightarrow> nat \<Rightarrow> nat \<Rightarrow> bool" where
  "sending s t ch \<longleftrightarrow> t < length (threads s) \<and> (\<exists>v. threads s ! t = EnqSend ch v)"

text \<open>
  Registered channels are distinct, belong to calls that wait on them, and are never those a
  sender has already taken; two senders never share a channel; a waiting call is registered
  or has a sender.
\<close>

definition listeners_ok ::
  "nat list \<Rightarrow> (nat \<Rightarrow> bool) \<Rightarrow> (nat \<Rightarrow> bool) \<Rightarrow> (nat \<Rightarrow> nat \<Rightarrow> bool) \<Rightarrow> bool" where
  "listeners_ok ws wt rcv snds \<longleftrightarrow> distinct ws \<and> (\<forall>ch\<in>set ws. wt ch) \<and>
     (\<forall>t ch. snds t ch \<longrightarrow> wt ch \<and> ch \<notin> set ws) \<and>
     (\<forall>t t' ch. snds t ch \<longrightarrow> snds t' ch \<longrightarrow> t = t') \<and>
     (\<forall>t. rcv t \<longrightarrow> wt t \<and> (t \<in> set ws \<or> (\<exists>t'. snds t' t)))"

definition fifo_ok :: "'a fifo_sys \<Rightarrow> bool" where
  "fifo_ok s \<longleftrightarrow>
     length (queue (fifo s)) \<le> capacity (fifo s) \<and>
     length (waitForNextElementChan (fifo s)) \<le> WaitForNextElementChanCapacity \<and>
     listeners_ok (waitForNextElementChan (fifo s)) (waiting s) (receiving s) (sending s)"

definition fresh_call :: "'a call \<Rightarrow> bool" where
  "fresh_call c = (case c of DqStart \<Rightarrow> True | EnqStart v \<Rightarrow> True | _ \<Rightarrow> False)"

definition fifo_init :: "'a FixedFIFO \<Rightarrow> 'a call list \<Rightarrow> 'a fifo_sys" where
  "fifo_init q cs = \<lparr>fifo = q, threads = cs, cancelled = []\<rparr>"

lemma fifo_init_ok:
  "list_all fresh_call cs \<Longrightarrow> length (queue q) \<le> capacity q \<Longrightarrow> waitForNextElementChan q = [] \<Longrightarrow>
   fifo_ok (fifo_init q cs)"
  by (force simp: fifo_ok_def fifo_init_def listeners_ok_def sending_def receiving_def
      list_all_length fresh_call_def)

lemma waiting_upd:
  "t < length (threads s) \<Longrightarrow> waiting (s\<lparr>threads := (threads s)[t := c]\<rparr>) =
     (waiting s)(t := (c = DqWait t \<or> t \<in> set (cancelled s) \<and> c = DqFail err_ctx))"
  "waiting (s\<lparr>fifo := q, threads := cs\<rparr>) = waiting (s\<lparr>threads := cs\<rparr>)"
  by (auto simp: waiting_def fun_eq_iff)

lemma receiving_upd:
  "t < length (threads s) \<Longrightarrow> receiving (s\<lparr>threads := (threads s)[t := c]\<rparr>) =
     (receiving s)(t := (\<exists>ch. c = DqWait ch))"
  "receiving (s\<lparr>fifo := q, threads := cs\<rparr>) = receiving (s\<lparr>threads := cs\<rparr>)"
  by (auto simp: receiving_def fun_eq_iff)

lemma sending_upd:
  "t < length (threads s) \<Longrightarrow> sending (s\<lparr>threads := (threads s)[t := c]\<rparr>) =
     (sending s)(t := (\<lambda>ch. \<exists>v. c = EnqSend ch v))"
  "sending (s\<lparr>fifo := q, threads := cs\<rparr>) = sending (s\<lparr>threads := cs\<rparr>)"
  by (auto simp: sending_def fun_eq_iff)

lemmas view_upd = waiting_upd receiving_upd sending_upd

lemma view_here:
  "t < length (threads s) \<Longrightarrow>
   waiting s t = (threads s ! t = DqWait t \<or> t \<in> set (cancelled s) \<and> threads s ! t = DqFail err_ctx)"
  "t < length (threads s) \<Longrightarrow> receiving s t = (\<exists>ch. threads s ! t = DqWait ch)"
  "t < length (threads s) \<Longrightarrow> sending s t ch = (\<exists>v. threads s ! t = EnqSend ch v)"
  by (auto simp: waiting_def receiving_def sending_def)

lemma listeners_idle:
  "listeners_ok ws wt rcv snds \<Longrightarrow> \<not> wt t \<or> w \<Longrightarrow> \<not> rcv t \<or> w \<Longrightarrow> (\<And>c. \<not> snds t c) \<Longrightarrow>
   listeners_ok ws (wt(t := w)) (rcv(t := False)) (snds(t := (\<lambda>ch. False)))"
  unfolding listeners_ok_def by (auto; metis)

lemma listeners_register:
  "listeners_ok ws wt rcv snds \<Longrightarrow> \<not> wt t \<Longrightarrow> (\<And>c. \<not> snds t c) \<Longrightarrow>
   listeners_ok (ws @ [t]) (wt(t := True)) (rcv(t := True)) (snds(t := (\<lambda>ch. False)))"
  unfolding listeners_ok_def by (auto; metis)

lemma listeners_take:
  "listeners_ok (ch # ws) wt rcv snds \<Longrightarrow> \<not> wt t \<Longrightarrow> (\<And>c. \<not> snds t c) \<Longrightarrow>
   listeners_ok ws (wt(t := False)) (rcv(t := False)) (snds(t := (\<lambda>c. ch = c)))"
  unfolding listeners_ok_def by (auto; metis)

lemma listeners_deliver:
  "listeners_ok ws wt rcv snds \<Longrightarrow> \<not> wt t \<Longrightarrow> (\<And>c. snds t c = (c = ch)) \<Longrightarrow> (\<And>c. \<not> snds ch c) \<Longrightarrow>
   listeners_ok ws (wt(t := False, ch := False)) (rcv(t := False, ch := False))
     (snds(t := (\<lambda>c. False), ch := (\<lambda>c. False)))"
  unfolding listeners_ok_def by (auto; metis)

lemma deliver_ok:
  assumes ok: "fifo_ok s" and t: "t < length (threads s)" "threads s ! t = EnqSend ch v"
    and ch: "ch < length (threads s)" "threads s ! ch = DqWait ch"
  shows "fifo_ok (s\<lparr>threads := (threads s)[t := EnqDone v, ch := DqDone v]\<rparr>)"
proof -
  let ?s = "s\<lparr>threads := (threads s)[t := EnqDone v]\<rparr>"
  have "ch < length (threads ?s)" using ch by simp
  note upd = view_upd(1,3,5)[OF this, of "DqDone v"] view_upd(1,3,5)[OF t(1), of "EnqDone v"]
  have "listeners_ok (waitForNextElementChan (fifo s)) ((waiting s)(t := False, ch := False))
      ((receiving s)(t := False, ch := False)) ((sending s)(t := (\<lambda>c. False), ch := (\<lambda>c. False)))"
    by (rule listeners_deliver) (use ok t view_here[OF t(1)] ch view_here[OF ch(1)] in \<open>auto simp: fifo_ok_def\<close>)
  then show ?thesis using ok upd by (simp add: fifo_ok_def)
qed

lemma fifo_ok_step:
  assumes "fifo_ok s"
  shows "fifo_ok (fifo_step tb s)"
proof (cases "fst tb < length (threads s)")
  case True
  let ?t = "fst tb"
  have ok: "listeners_ok (waitForNextElementChan (fifo s)) (waiting s) (receiving s) (sending s)"
    using assms by (simp add: fifo_ok_def)
  note here = view_here[OF True]
  show ?thesis
  proof (cases "threads s ! ?t")
    case (EnqStart v)
    show ?thesis
    proof (cases "waitForNextElementChan (fifo s)")
      case (Cons ch ws)
      have "listeners_ok ws ((waiting s)(?t := False)) ((receiving s)(?t := False))
          ((sending s)(?t := (\<lambda>c. ch = c)))"
        by (rule listeners_take) (use ok Cons EnqStart here in simp_all)
      then show ?thesis
        using assms True EnqStart Cons by (simp add: fifo_step_def Let_def fifo_ok_def view_upd)
    qed (use assms True EnqStart here listeners_idle[OF ok, of ?t False] in
        \<open>simp add: fifo_step_def Let_def fifo_ok_def view_upd\<close>)
  next
    case (EnqSend ch v)
    then show ?thesis
      using assms True deliver_ok[OF assms True] by (simp add: fifo_step_def Let_def)
  next
    case DqEmpty
    have "listeners_ok (waitForNextElementChan (fifo s) @ [?t]) ((waiting s)(?t := True))
          ((receiving s)(?t := True)) ((sending s)(?t := (\<lambda>c. False)))"
      by (rule listeners_register) (use ok DqEmpty here in simp_all)
    then show ?thesis
      using assms True DqEmpty here listeners_idle[OF ok, of ?t False]
      by (simp add: fifo_step_def Let_def fifo_ok_def view_upd err_no_wait_def err_ctx_def)
  next
    case DqStart
    have "length (tl (queue (fifo s))) \<le> capacity (fifo s)"
      using assms by (auto simp: fifo_ok_def)
    with DqStart show ?thesis
      using assms True here listeners_idle[OF ok, of ?t False] listeners_idle[OF ok, of ?t True]
      by (simp add: fifo_step_def Let_def fifo_ok_def view_upd)
  qed (use assms True here listeners_idle[OF ok, of ?t False] listeners_idle[OF ok, of ?t True] in
      \<open>simp_all add: fifo_step_def Let_def fifo_ok_def view_upd\<close>)
qed (use assms in \<open>simp add: fifo_step_def Let_def\<close>)

lemma fifo_ok_event: "fifo_ok s \<Longrightarrow> fifo_ok (fifo_event_step e s)"
proof (cases e)
  case (Cancel t)
  assume "fifo_ok s"
  moreover have "receiving (s\<lparr>cancelled := t # cancelled s\<rparr>) = receiving s"
    and "sending (s\<lparr>cancelled := t # cancelled s\<rparr>) = sending s"
    and "waiting s ch \<Longrightarrow> waiting (s\<lparr>cancelled := t # cancelled s\<rparr>) ch" for ch
    by (auto simp: receiving_def sending_def waiting_def fun_eq_iff)
  ultimately show ?thesis using Cancel by (auto simp: fifo_ok_def listeners_ok_def)
qed (simp add: fifo_ok_step)

lemma fifo_run_ok: "fifo_ok s \<Longrightarrow> fifo_ok (fold fifo_event_step evs s)"
  by (induction evs arbitrary: s) (simp_all add: fifo_ok_event)

lemma fifo_run_contents: "contents (fold fifo_event_step evs s) = contents s"
  by (induction evs arbitrary: s) (simp_all add: event_contents)

fun no_cancel :: "fifo_event \<Rightarrow> bool" where
  "no_cancel (Run t b) = True"
| "no_cancel (Cancel t) = False"

lemma step_frame [simp]:
  "cancelled (fifo_step tb s) = cancelled s" "length (threads (fifo_step tb s)) = length (threads s)"
  by (auto simp: fifo_step_def Let_def split: call.split list.split)

lemma fifo_run_frame:
  "length (threads (fold fifo_event_step evs s)) = length (threads s)"
  "list_all no_cancel evs \<Longrightarrow> cancelled (fold fifo_event_step evs s) = cancelled s"
proof (induction evs arbitrary: s)
  case (Cons e evs)
  { case 1 show ?case using Cons.IH(1) by (cases e) simp_all }
  { case 2 then show ?case using Cons.IH(2) by (cases e) simp_all }
qed simp_all

fun enqueuing :: "'a \<Rightarrow> 'a call \<Rightarrow> bool" where
  "enqueuing v (EnqStart w) = (w = v)"
| "enqueuing v (EnqSend ch w) = (w = v)"
| "enqueuing v (EnqPut w) = (w = v)"
| "enqueuing v (EnqDone w) = (w = v)"
| "enqueuing v (EnqFail e w) = (e = err_full \<and> w = v)"
| "enqueuing v _ = False"

lemma enqueuing_step:
  "t < length (threads s) \<Longrightarrow> enqueuing v (threads s ! t) \<Longrightarrow> enqueuing v (threads (fifo_step tb s) ! t)"
  by (cases "threads s ! fst tb"; cases "fst tb = t")
    (auto simp: fifo_step_def Let_def nth_list_update split: list.split)

lemma enqueuing_run:
  "t < length (threads s) \<Longrightarrow> enqueuing v (threads s ! t) \<Longrightarrow>
   enqueuing v (threads (fold fifo_event_step evs s) ! t)"
proof (induction evs arbitrary: s)
  case (Cons e evs)
  then show ?case by (cases e) (simp_all add: enqueuing_step)
qed simp

text \<open>Two steps of a call finish it: the listener an enqueue took is still receiving.\<close>

lemma listener_receiving:
  assumes "fifo_ok s" "cancelled s = []" "t < length (threads s)" "threads s ! t = EnqSend ch v"
  shows "ch < length (threads s)" "threads s ! ch = DqWait ch" "ch \<noteq> t"
proof -
  have "sending s t ch" using assms(3,4) by (auto simp: sending_def)
  then have "waiting s ch" using assms(1) by (simp add: fifo_ok_def listeners_ok_def)
  then show "ch < length (threads s)" "threads s ! ch = DqWait ch"
    using assms(2) by (simp_all add: waiting_def)
  then show "ch \<noteq> t" using assms(4) by auto
qed

lemma last_step_finishes:
  assumes "fifo_ok s" "cancelled s = []" "t < length (threads s)" "enqueuing v (threads s ! t)"
    "threads s ! t \<noteq> EnqStart v"
  shows "threads (fifo_step (t, b) s) ! t \<in> {EnqDone v, EnqFail err_full v}"
proof (cases "threads s ! t")
  case (EnqSend ch w)
  with listener_receiving[OF assms(1-3) this] assms(3,4) show ?thesis
    by (simp add: fifo_step_def Let_def)
qed (use assms(3-5) in \<open>auto simp: fifo_step_def Let_def\<close>)

lemma two_steps_finish:
  assumes "fifo_ok s" and "cancelled s = []" and "t < length (threads s)"
    and "enqueuing v (threads s ! t)"
  shows "threads (fifo_step (t, b') (fifo_step (t, b) s)) ! t \<in> {EnqDone v, EnqFail err_full v}"
proof -
  have "threads (fifo_step (t, b) s) ! t \<noteq> EnqStart v"
  proof (cases "threads s ! t = EnqStart v")
    case True
    with assms(3) show ?thesis by (simp add: fifo_step_def Let_def split: list.split)
  next
    case False
    with last_step_finishes[OF assms False, of b] show ?thesis by auto
  qed
  then show ?thesis
    by (intro last_step_finishes) (simp_all add: assms fifo_ok_step enqueuing_step)
qed

text \<open>The functions for calls without interference are two steps of the call alone.\<close>

lemma Enqueue_alone:
  assumes "fifo_ok s" "cancelled s = []" "t < length (threads s)" "threads s ! t = EnqStart v"
    and "Enqueue v (fifo s) = (q', ch, e)"
    and "s' = fifo_step (t, b') (fifo_step (t, b) s)"
  shows "fifo s' = q' \<and> threads s' ! t = (case e of None \<Rightarrow> EnqDone v | Some e \<Rightarrow> EnqFail e v) \<and>
    (\<forall>c. ch = Some c \<longrightarrow> threads s' ! c = DqDone v)"
proof (cases "waitForNextElementChan (fifo s)")
  case Nil
  then show ?thesis
    using assms(3-6) by (auto simp: fifo_step_def Let_def Enqueue_def split: if_splits)
next
  case (Cons c' cs)
  then have "waiting s c'" using assms(1) by (simp add: fifo_ok_def listeners_ok_def)
  then have "c' < length (threads s)" "threads s ! c' = DqWait c'" "c' \<noteq> t"
    using assms(2,4) by (auto simp: waiting_def)
  with Cons assms(3-6) show ?thesis by (auto simp: fifo_step_def Let_def Enqueue_def)
qed

lemma Dequeue_alone:
  assumes "cancelled s = []" "t < length (threads s)" "threads s ! t = DqStart"
    and "DequeueOrWaitForNextElement t (fifo s) = (q', r)"
    and "s' = fifo_step (t, b') (fifo_step (t, b) s)"
  shows "fifo s' = q'" and "threads s' ! t =
    (case r of Val (Inr v) \<Rightarrow> DqDone v | Val (Inl e) \<Rightarrow> DqFail e | _ \<Rightarrow> DqWait t)"
  using assms
  by (auto simp: fifo_step_def Let_def DequeueOrWaitForNextElement_def split: list.splits if_splits)

section \<open>Properties\<close>

text \<open>
  C9: for every set of concurrent calls and every interleaving of them, cancelled contexts
  included, the elements in the queue, those handed to finished dequeues and those still
  held by unfinished or failed enqueues are together exactly the elements there were at the
  start: no element is lost and none is delivered twice.  The queue stays within its
  capacity, and the number of registered listeners within theirs.
\<close>

theorem fifo_conserves:
  assumes "list_all fresh_call cs" and "length (queue q) \<le> capacity q"
    and "waitForNextElementChan q = []"
  shows "let s = fold fifo_event_step evs (fifo_init q cs) in
      mset (queue (fifo s)) + sum_list (map held (threads s)) =
        mset (queue q) + sum_list (map held cs) \<and>
      length (queue (fifo s)) \<le> capacity (fifo s) \<and>
      length (waitForNextElementChan (fifo s)) \<le> WaitForNextElementChanCapacity"
  using fifo_run_contents[of evs "fifo_init q cs"] fifo_run_ok[OF fifo_init_ok[OF assms], of evs]
  by (simp add: contents_def fifo_init_def fifo_ok_def Let_def)

theorem fifo_conserves_witness:
  "let s = fold fifo_event_step [Run 0 True, Run 1 True, Run 1 True, Run 0 True, Run 2 True, Run 2 True]
       (fifo_init (NewFixedFIFO 3) [DqStart, EnqStart (7::nat), EnqStart 8]) in
     mset (queue (fifo s)) + sum_list (map held (threads s)) = {#7, 8#} \<and>
     length (queue (fifo s)) \<le> capacity (fifo s)"
proof -
  have "list_all fresh_call [DqStart, EnqStart (7::nat), EnqStart 8]"
    by (simp add: fresh_call_def)
  note run = fifo_conserves[OF this, of "NewFixedFIFO 3"
      "[Run 0 True, Run 1 True, Run 1 True, Run 0 True, Run 2 True, Run 2 True]"]
  have "sum_list (map held [DqStart, EnqStart (7::nat), EnqStart 8]) = {#7, 8#}" by simp
  with run show ?thesis
    unfolding Let_def by (auto simp only: NewFixedFIFO_def FixedFIFO.select_convs list.size
        mset.simps add_0 refl le0)
qed

text \<open>
  C10: without cancelled contexts an \<open>Enqueue\<close> never blocks, although it sends on an unbuffered
  channel: in every reachable state, two further steps of its own bring any enqueue in flight
  to its end, with the element delivered, stored, or refused because the queue is full.
\<close>

theorem enqueue_never_blocks:
  assumes "list_all fresh_call cs" and "length (queue q) \<le> capacity q"
    and "waitForNextElementChan q = []" and "list_all no_cancel evs"
    and "t < length cs" and "cs ! t = EnqStart v"
  shows "threads (fold fifo_event_step (evs @ [Run t b, Run t b']) (fifo_init q cs)) ! t
    \<in> {EnqDone v, EnqFail err_full v}"
proof -
  let ?s = "fold fifo_event_step evs (fifo_init q cs)"
  have "fifo_ok ?s" using fifo_run_ok[OF fifo_init_ok[OF assms(1-3)]] .
  moreover have "cancelled ?s = []" "length (threads ?s) = length cs"
    using fifo_run_frame[of evs "fifo_init q cs"] assms(4) by (simp_all add: fifo_init_def)
  moreover have "enqueuing v (threads ?s ! t)"
    using enqueuing_run[of t "fifo_init q cs" v evs] assms(5,6) by (simp add: fifo_init_def)
  ultimately show ?thesis using two_steps_finish[of ?s t v b' b] assms(5) by simp
qed

theorem enqueue_never_blocks_witness:
  "threads (fold fifo_event_step ([Run 0 True, Run 0 True, Run 1 True] @ [Run 1 True, Run 1 True])
     (fifo_init (NewFixedFIFO 3) [DqStart, EnqStart (7::nat)])) ! 1 \<in> {EnqDone 7, EnqFail err_full 7}"
  by (rule enqueue_never_blocks) (simp_all add: NewFixedFIFO_def fresh_call_def)


end
