(* ===== verification/User_Manager.thy ===== *)
theory User_Manager
  imports Engine_Config Fixed_Queue
begin

text \<open>
  The pool of Linux users of \<open>core/user_manager.go\<close> and \<open>core/user.go\<close>: one user per sandbox
  process, created at start and handed out through a \<^typ>\<open>'a FixedFIFO\<close>.

  The operating system is a parameter: \<open>known uid\<close> tells whether \<open>user.LookupId\<close> finds the
  uid, and \<open>cmds\<close> lists the outcomes of the successive \<open>useradd\<close> commands, which the code
  repeats until one succeeds.
\<close>

section \<open>Users\<close>

record User =
  Uid :: int
  Gid :: int
  UserName :: string
  SockPath :: string

definition SandboxRPCDir :: string where "SandboxRPCDir = ''/sandbox''"

definition SandboxRPCSockName :: string where "SandboxRPCSockName = ''sandbox.sock''"

definition NewUser :: "int \<Rightarrow> User" where
  "NewUser i = \<lparr>Uid = i, Gid = i, UserName = ''u-'' @ Itoa i,
     SockPath = SandboxRPCDir @ ''/'' @ SandboxRPCSockName\<rparr>"

section \<open>The manager\<close>

definition baseUid :: int where "baseUid = 10000"

record UserManager =
  userQueue :: "User FixedFIFO"
  userNum :: int

definition NewUsersManager :: "chain_consts \<Rightarrow> conf \<Rightarrow> UserManager" where
  "NewUsersManager K cfg =
     \<lparr>userQueue = NewFixedFIFO (nat (GetMaxUserNum K cfg)), userNum = GetMaxUserNum K cfg\<rparr>"

text \<open>\<open>retry outcomes\<close>: the loop of \<open>generateNewUser\<close>; it does not end while the command fails.\<close>

fun retry :: "bool list \<Rightarrow> unit go" where
  "retry [] = Block"
| "retry (ok # oks) = (if ok then Val () else retry oks)"

definition generateNewUser ::
  "(int \<Rightarrow> bool) \<Rightarrow> bool list \<Rightarrow> int \<Rightarrow> UserManager \<Rightarrow> (UserManager \<times> error option) go" where
  "generateNewUser known cmds uid u =
     go_bind (if known uid then Val () else retry cmds)
       (\<lambda>_. let (q, _, e) = Enqueue (NewUser uid) (userQueue u)
            in Val (u\<lparr>userQueue := q\<rparr>,
                 map_option (\<lambda>e. ''failed to add created user to queue, '' @ e) e))"

text \<open>
  \<open>BatchCreateUsers\<close> starts one goroutine per user and waits for all of them; the only shared
  step of a goroutine is its \<open>Enqueue\<close>, so a run is an order of the uids.  It returns the
  manager and the number of users it counts as created; its error result is always nil.
\<close>

fun createUsers ::
  "(int \<Rightarrow> bool) \<Rightarrow> (int \<Rightarrow> bool list) \<Rightarrow> int list \<Rightarrow> UserManager \<Rightarrow> (UserManager \<times> nat) go" where
  "createUsers known cmds [] u = Val (u, 0)"
| "createUsers known cmds (uid # uids) u =
     go_bind (generateNewUser known (cmds uid) uid u)
       (\<lambda>(u', e). go_bind (createUsers known cmds uids u')
          (\<lambda>(u'', n). Val (u'', if e = None then n + 1 else n)))"

definition uids :: "chain_consts \<Rightarrow> conf \<Rightarrow> int list" where
  "uids K cfg = map (\<lambda>i. baseUid + int i) [0..<nat (GetMaxUserNum K cfg)]"

definition BatchCreateUsers ::
  "chain_consts \<Rightarrow> conf \<Rightarrow> (int \<Rightarrow> bool) \<Rightarrow> (int \<Rightarrow> bool list) \<Rightarrow> int list \<Rightarrow> UserManager \<Rightarrow>
   (UserManager \<times> nat) go" where
  "BatchCreateUsers K cfg known cmds order u = createUsers known cmds order u"

definition GetAvailableUser :: "nat \<Rightarrow> UserManager \<Rightarrow> UserManager \<times> User res go" where
  "GetAvailableUser t u =
     (let (q, r) = DequeueOrWaitForNextElement t (userQueue u)
      in (u\<lparr>userQueue := q\<rparr>,
          case r of Val (Inl e) \<Rightarrow> Val (Inl (''failed to call DequeueOrWaitForNextElement, '' @ e))
          | r \<Rightarrow> r))"

definition FreeUser :: "User \<Rightarrow> UserManager \<Rightarrow> UserManager \<times> nat option \<times> error option" where
  "FreeUser user u =
     (let (q, ch, e) = Enqueue user (userQueue u)
      in (u\<lparr>userQueue := q\<rparr>, ch, map_option (\<lambda>e. ''failed to enqueue user: '' @ e) e))"

text \<open>\<open>ReleaseUsers\<close> only runs commands; their failures are logged.\<close>

definition releaseUser :: "(string \<Rightarrow> error option) \<Rightarrow> int \<Rightarrow> error option" where
  "releaseUser runCmd i =
     (let newUser = NewUser i; delUserCommand = ''userdel -r '' @ UserName newUser
      in map_option (\<lambda>e. ''failed to exec ['' @ delUserCommand @ ''], '' @ e) (runCmd delUserCommand))"

definition ReleaseUsers ::
  "chain_consts \<Rightarrow> conf \<Rightarrow> (string \<Rightarrow> error option) \<Rightarrow> error list \<times> error option" where
  "ReleaseUsers K cfg runCmd = (List.map_filter (releaseUser runCmd) (uids K cfg), None)"

section \<open>Lemmas\<close>

lemma retry_ends: "True \<in> set oks \<Longrightarrow> retry oks = Val ()"
  by (induction oks) auto

lemma Enqueue_room:
  "waitForNextElementChan q = [] \<Longrightarrow> length (queue q) < capacity q \<Longrightarrow>
   Enqueue v q = (q\<lparr>queue := queue q @ [v]\<rparr>, None, None)"
  by (simp add: Enqueue_def)

lemma createUsers_ok:
  assumes "\<forall>uid\<in>set order. known uid \<or> True \<in> set (cmds uid)"
    and "waitForNextElementChan (userQueue u) = []"
    and "length (queue (userQueue u)) + length order \<le> capacity (userQueue u)"
  shows "createUsers known cmds order u =
    Val (u\<lparr>userQueue := (userQueue u)\<lparr>queue := queue (userQueue u) @ map NewUser order\<rparr>\<rparr>, length order)"
  using assms
proof (induction order arbitrary: u)
  case (Cons uid order)
  let ?u = "u\<lparr>userQueue := (userQueue u)\<lparr>queue := queue (userQueue u) @ [NewUser uid]\<rparr>\<rparr>"
  have "generateNewUser known (cmds uid) uid u = Val (?u, None)"
    using Cons.prems by (auto simp: generateNewUser_def retry_ends Enqueue_room go_bind_def)
  then show ?case using Cons.IH[of ?u] Cons.prems by (simp add: go_bind_def)
qed simp

lemma uids_distinct [simp]: "distinct (uids K cfg)" "length (uids K cfg) = nat (GetMaxUserNum K cfg)"
  by (simp_all add: uids_def distinct_map inj_on_def)



end
