(* ===== verification/Process.thy ===== *)
theory Process
  imports Tx_Steps User_Manager
begin

text \<open>
  One sandbox process, \<open>core/process.go\<close>: its state machine, its timer, its channels and every
  handler of \<open>listenProcess\<close>, together with the operations the process manager and the
  sandbox's RPC service call on it.

  Buffered channels of capacity one are counters or lists; a receive on an empty one and a
  send on a full one are \<^term>\<open>Block\<close>.  The timer follows Go's contract for \<open>time.Timer\<close>:
  \<open>Stop\<close> tells whether the timer was still running, and an expired timer leaves one value in
  its channel.  What a handler sends to other components is returned as a list of outputs, and
  what it reads from them is an argument (\<open>proc_env\<close>).
\<close>

section \<open>State\<close>

datatype processState = created | ready | busy | idle | changing | closing | timeout

fun state_num :: "processState \<Rightarrow> int" where
  "state_num created = 0" | "state_num ready = 1" | "state_num busy = 2" | "state_num idle = 3"
| "state_num changing = 4" | "state_num closing = 5" | "state_num timeout = 6"

text \<open>The errors \<open>handleProcessExit\<close> compares with, and any other.\<close>

datatype exit_error =
    ContractExecError | ContractNotExistError | SandboxExitDefaultError | OtherErr string

fun err_text :: "exit_error \<Rightarrow> string" where
  "err_text ContractExecError = ''bad contract exec file''"
| "err_text ContractNotExistError = ''contract exec file not exist''"
| "err_text SandboxExitDefaultError = ''exit with no additional error message''"
| "err_text (OtherErr s) = s"

definition RuntimePanicError :: error where "RuntimePanicError = ''runtime panic''"

definition TxTimeoutPanicError :: error where "TxTimeoutPanicError = ''tx time out''"

record exitErr =
  ee_err :: "exit_error option"
  ee_desc :: string

record go_timer =
  t_active :: bool
  t_chan :: bool
  t_duration :: int

record Process =
  p_processName :: string
  p_chainID :: string
  p_contractName :: string
  p_contractVersion :: string
  p_user :: User
  p_cmd :: bool
  p_processState :: processState
  p_isOrigProcess :: bool
  p_cmdReadyCh :: nat
  p_updateCh :: nat
  p_txCh :: "string \<times> bool"
  p_respCh :: "DockerVMMessage list"
  p_timer :: go_timer
  p_Tx :: "DockerVMMessage option"
  p_stream :: bool
  p_requestGroup :: "string option"
  p_timerPopped :: bool
  p_oldListeners :: nat

text \<open>
  \<open>p_txCh\<close> names the request group's channel the process reads, original or cross.
  \<open>p_oldListeners\<close> counts the listeners of earlier sandboxes that still have to run the deferred
  \<open>popTimer\<close> of their last \<open>handleProcessExit\<close> (see \<open>restartAll\<close> below).
\<close>

datatype signal = SIGTERM | SIGINT

datatype proc_out =
    ToScheduler DockerVMMessage
  | ToProcessManager SandboxExitMsg
  | ToRequestGroup string BadContractResp
  | ToSandbox DockerVMMessage
  | ChangeState string bool
  | SendSignal signal
  | GoStartProcess
  | StartAll

record proc_env =
  pe_now :: int
  pe_clk :: "nat \<Rightarrow> int"
  pe_sendErr :: "error option"
  pe_sigErr :: "error option"
  pe_stateErr :: "error option"
  pe_groupOk :: bool
  pe_cfv :: int
  pe_nextTx :: "TxPayload option"

type_synonym 'r act = "(Process \<times> proc_out list \<times> 'r) go"

definition removeTxTime :: int where "removeTxTime = 9000000000"

definition initContract :: string where "initContract = ''init_contract''"

definition upgradeContract :: string where "upgradeContract = ''upgrade''"

definition NewProcess ::
  "bool \<Rightarrow> User \<Rightarrow> string \<Rightarrow> string \<Rightarrow> string \<Rightarrow> string \<Rightarrow> bool \<Rightarrow> Process go" where
  "NewProcess groupOk user chainID contractName contractVersion processName isOrig =
     (if \<not> groupOk then Panic
      else let key = contract_key chainID contractName contractVersion
        in Val \<lparr>p_processName = processName, p_chainID = chainID, p_contractName = contractName,
             p_contractVersion = contractVersion, p_user = user, p_cmd = False,
             p_processState = created, p_isOrigProcess = isOrig, p_cmdReadyCh = 0,
             p_updateCh = 0, p_txCh = (key, isOrig), p_respCh = [],
             p_timer = \<lparr>t_active = True, t_chan = False, t_duration = 2147483647 * second\<rparr>,
             p_Tx = None, p_stream = False, p_requestGroup = Some key, p_timerPopped = False,
             p_oldListeners = 0\<rparr>)"

section \<open>Timer and state changes\<close>

definition timer_Stop :: "go_timer \<Rightarrow> go_timer \<times> bool" where
  "timer_Stop t = (t\<lparr>t_active := False\<rparr>, t_active t)"

definition timer_Reset :: "int \<Rightarrow> go_timer \<Rightarrow> go_timer" where
  "timer_Reset d t = t\<lparr>t_active := True, t_duration := d\<rparr>"

definition timer_fire :: "go_timer \<Rightarrow> go_timer" where
  "timer_fire t = (if t_active t then t\<lparr>t_active := False, t_chan := True\<rparr> else t)"

definition popTimer :: "Process \<Rightarrow> Process go" where
  "popTimer p =
     (let (t, stopped) = timer_Stop (p_timer p)
      in if \<not> stopped \<and> \<not> p_timerPopped p
         then (if t_chan t then Val (p\<lparr>p_timer := t\<lparr>t_chan := False\<rparr>\<rparr>) else Block)
         else Val (p\<lparr>p_timer := t\<rparr>))"

definition startBusyTimer :: "conf \<Rightarrow> Process \<Rightarrow> Process go" where
  "startBusyTimer cfg p = go_bind (popTimer p) (\<lambda>p.
     Val (p\<lparr>p_timer := timer_Reset (ExecTxTimeout (Process_conf cfg)) (p_timer p),
            p_timerPopped := False\<rparr>))"

definition startReadyTimer :: "conf \<Rightarrow> Process \<Rightarrow> Process go" where
  "startReadyTimer cfg p = go_bind (popTimer p) (\<lambda>p.
     Val (p\<lparr>p_timer := timer_Reset (WaitingTxTime (Process_conf cfg)) (p_timer p),
            p_timerPopped := False\<rparr>))"

definition listening :: "processState \<Rightarrow> bool" where
  "listening st \<longleftrightarrow> st = ready \<or> st = busy \<or> st = idle"

definition updateProcessState :: "conf \<Rightarrow> processState \<Rightarrow> Process \<Rightarrow> Process go" where
  "updateProcessState cfg st p =
     (let oldState = p_processState p; p1 = p\<lparr>p_processState := st\<rparr>
      in go_bind
           (if \<not> listening oldState \<and> listening st
            then (if p_updateCh p1 \<ge> 1 then Block else Val (p1\<lparr>p_updateCh := p_updateCh p1 + 1\<rparr>))
            else Val p1)
           (\<lambda>p2. if st = ready then startReadyTimer cfg p2
                 else if st = busy then startBusyTimer cfg p2 else Val p2))"

definition killProcess :: "proc_env \<Rightarrow> signal \<Rightarrow> Process \<Rightarrow> error option act" where
  "killProcess en sig p =
     (if p_cmdReadyCh p = 0 then Block
      else let p1 = p\<lparr>p_cmdReadyCh := p_cmdReadyCh p - 1\<rparr>
        in if \<not> p_cmd p1 then Val (p1, [], Some ''process cmd is nil'')
           else (case pe_sigErr en of
               Some e \<Rightarrow> Val (p1, [], Some (''failed to kill process, '' @ e))
             | None \<Rightarrow> Val (p1, [SendSignal sig], None)))"

definition resetContext ::
  "bool \<Rightarrow> string \<Rightarrow> string \<Rightarrow> string \<Rightarrow> string \<Rightarrow> Process \<Rightarrow> Process \<times> error option" where
  "resetContext groupOk chainID contractName contractVersion processName p =
     (let key = contract_key chainID contractName contractVersion
      in if \<not> groupOk then (p\<lparr>p_requestGroup := None\<rparr>, Some ''failed to get request group'')
         else (p\<lparr>p_requestGroup := Some key, p_chainID := chainID, p_processName := processName,
                 p_contractName := contractName, p_contractVersion := contractVersion,
                 p_txCh := (key, p_isOrigProcess p)\<rparr>, None))"

definition getTxId :: "Process \<Rightarrow> string" where
  "getTxId p = (case p_Tx p of Some tx \<Rightarrow> m_TxId tx | None \<Rightarrow> [])"

section \<open>Messages to the other components\<close>

definition txErrorResp :: "string \<Rightarrow> string \<Rightarrow> string \<Rightarrow> DockerVMMessage" where
  "txErrorResp chainId txId errMsg = zero_msg\<lparr>m_Type := ERROR, m_ChainId := chainId, m_TxId := txId,
     m_Response := Some (zero_resp\<lparr>resp_Code := FAIL, resp_Result := None, resp_Message := errMsg\<rparr>)\<rparr>"

definition returnTxErrorResp :: "Process \<Rightarrow> string \<Rightarrow> string \<Rightarrow> proc_out list" where
  "returnTxErrorResp p txId errMsg = [ToScheduler (txErrorResp (p_chainID p) txId errMsg)]"

definition returnSandboxExitResp :: "Process \<Rightarrow> exit_error \<Rightarrow> proc_out list" where
  "returnSandboxExitResp p err = [ToProcessManager
     \<lparr>sem_ChainID = p_chainID p, sem_ContractName = p_contractName p,
      sem_ContractVersion = p_contractVersion p, sem_ProcessName = p_processName p,
      sem_Err = err_text err\<rparr>]"

definition returnBadContractResp :: "Process \<Rightarrow> int \<Rightarrow> proc_out list go" where
  "returnBadContractResp p cfv = (case (p_Tx p, p_requestGroup p) of
       (Some tx, Some g) \<Rightarrow> Val [ToRequestGroup g
         \<lparr>bcr_Tx = zero_msg\<lparr>m_ChainId := p_chainID p, m_TxId := m_TxId tx,
            m_Request := Some (zero_req\<lparr>req_ContractName := p_contractName p,
              req_ContractVersion := p_contractVersion p, req_ChainId := p_chainID p\<rparr>)\<rparr>,
          bcr_IsOrig = p_isOrigProcess p, bcr_ContractFileVersion = cfv\<rparr>]
     | _ \<Rightarrow> Panic)"

section \<open>Handlers\<close>

text \<open>
  The message sent to the sandbox copies the slice header of the step log before the next step
  is entered: it shares the element that \<open>endTxStep\<close> completes, but not the one appended.
\<close>

definition sandbox_msg :: "conf \<Rightarrow> proc_env \<Rightarrow> Process \<Rightarrow> DockerVMMessage \<Rightarrow> DockerVMMessage" where
  "sandbox_msg cfg en p tx = zero_msg\<lparr>m_ChainId := p_chainID p, m_TxId := m_TxId tx,
     m_CrossContext := m_CrossContext tx, m_Request := m_Request tx,
     m_StepDurations := m_StepDurations
       (if Disable (Slow cfg) then tx else endTxStep (pe_clk en 0) (pe_clk en 1) tx)\<rparr>"

definition handleTxRequest :: "conf \<Rightarrow> proc_env \<Rightarrow> nat \<Rightarrow> TxPayload \<Rightarrow> Process \<Rightarrow> error option act" where
  "handleTxRequest cfg en waitingLen tx p =
     (let elapsedTime = pe_now en - tp_StartTime tx;
          limit = ExecTxTimeout (Process_conf cfg)
      in if elapsedTime > removeTxTime then Val (p, [], None)
         else if elapsedTime > limit
         then Val (p, [], Some (''tx ['' @ m_TxId (tp_Tx tx) @ ''] expired for '' @
                Duration_String limit @ '', elapsed time: '' @ Duration_String elapsedTime))
         else go_bind (updateProcessState cfg busy (p\<lparr>p_Tx := Some (tp_Tx tx)\<rparr>)) (\<lambda>p1.
           let msg = sandbox_msg cfg en p1 (tp_Tx tx);
               tx' = EnterNextStep (Slow cfg) (pe_clk en) (tp_Tx tx) ENGINE_PROCESS_SEND_TX_REQUEST
                       (go_join '':'' [''waitingLen'', Itoa (int waitingLen)]);
               p2 = p1\<lparr>p_Tx := Some tx'\<rparr>
           in if \<not> p_stream p2 then Panic
              else case pe_sendErr en of
                None \<Rightarrow> Val (p2, [ToSandbox msg], None)
              | Some e \<Rightarrow> Val (p2, [], Some ''failed to send msg to stream'')))"

definition handleIdleTxRequest :: "conf \<Rightarrow> proc_env \<Rightarrow> TxPayload \<Rightarrow> Process \<Rightarrow> error option act" where
  "handleIdleTxRequest cfg en tx p =
     (let call = ChangeState (p_processName p) True; back = ToScheduler (tp_Tx tx)
      in case pe_stateErr en of
           Some e \<Rightarrow> Val (p, [call, back], None)
         | None \<Rightarrow> go_bind (updateProcessState cfg ready p) (\<lambda>p1. Val (p1, [call, back], None)))"

definition is_init_or_upgrade :: "TxRequest \<Rightarrow> bool" where
  "is_init_or_upgrade r \<longleftrightarrow> req_Method r = initContract \<or> req_Method r = upgradeContract"

definition handleTxResp :: "conf \<Rightarrow> proc_env \<Rightarrow> DockerVMMessage \<Rightarrow> Process \<Rightarrow> error option act" where
  "handleTxResp cfg en msg p = (case p_Tx p of
       None \<Rightarrow> Panic
     | Some tx \<Rightarrow>
         go_bind (updateProcessState cfg ready p) (\<lambda>p1.
           if m_Type msg = ERROR
           then (case m_Request tx of
               None \<Rightarrow> Panic
             | Some r \<Rightarrow>
                 if is_init_or_upgrade r
                 then go_bind (killProcess en SIGTERM p1) (\<lambda>(p2, out, e).
                        Val (p2, out, map_option (\<lambda>e. ''failed to kill process, '' @ e) e))
                 else Val (p1, [], None))
           else Val (p1, [], None)))"

definition handleTimeout :: "conf \<Rightarrow> proc_env \<Rightarrow> Process \<Rightarrow> error option act" where
  "handleTimeout cfg en p0 =
     (let p = p0\<lparr>p_timerPopped := True\<rparr>
      in case p_processState p of
           busy \<Rightarrow>
             (if p_Tx p = None then Panic
              else go_bind (updateProcessState cfg timeout p) (\<lambda>p1.
                go_bind (killProcess en SIGINT p1) (\<lambda>(p2, out, _). Val (p2, out, None))))
         | ready \<Rightarrow>
             (let call = ChangeState (p_processName p) False
              in case pe_stateErr en of
                   Some e \<Rightarrow> Val (p, [call], Some (''change process state error, '' @ e))
                 | None \<Rightarrow> go_bind (updateProcessState cfg idle p) (\<lambda>p1. Val (p1, [call], None)))
         | _ \<Rightarrow> Val (p, [], None))"

text \<open>
  \<open>handleProcessExit\<close>: the branch first decides what to return (\<open>exit_plan\<close>), and the deferred
  function then acts on it.
\<close>

record exit_plan =
  xp_restartSandbox :: bool
  xp_returnErrResp :: bool
  xp_exitSandbox :: bool
  xp_restartAll :: bool
  xp_returnBadContractResp :: bool
  xp_errRet :: string
  xp_out :: "proc_out list"

definition no_plan :: "string \<Rightarrow> exit_plan" where
  "no_plan errRet = \<lparr>xp_restartSandbox = False, xp_returnErrResp = False, xp_exitSandbox = False,
     xp_restartAll = False, xp_returnBadContractResp = False, xp_errRet = errRet, xp_out = []\<rparr>"

definition normal_exit :: "exitErr option \<Rightarrow> exit_error \<times> string" where
  "normal_exit ee = (case ee of
       None \<Rightarrow> (SandboxExitDefaultError, [])
     | Some e \<Rightarrow> (case ee_err e of None \<Rightarrow> SandboxExitDefaultError | Some x \<Rightarrow> x, ee_desc e))"

definition tx_request :: "Process \<Rightarrow> TxRequest go" where
  "tx_request p = (case p_Tx p of
       None \<Rightarrow> Panic
     | Some tx \<Rightarrow> (case m_Request tx of None \<Rightarrow> Panic | Some r \<Rightarrow> Val r))"

definition exit_branch ::
  "conf \<Rightarrow> proc_env \<Rightarrow> exit_error \<Rightarrow> Process \<Rightarrow> (Process \<times> exit_plan \<times> bool) go" where
  "exit_branch cfg en err p =
     (let pl = no_plan (err_text err)
      in if err = ContractExecError then
           (let pl1 = pl\<lparr>xp_exitSandbox := True\<rparr>
            in case pe_nextTx en of
                 Some tx \<Rightarrow> Val (p\<lparr>p_Tx := Some (tp_Tx tx)\<rparr>,
                   pl1\<lparr>xp_returnErrResp := True, xp_returnBadContractResp := True\<rparr>, True)
               | None \<Rightarrow> Val (p, pl1, True))
         else if err = ContractNotExistError then
           (let pl1 = pl\<lparr>xp_exitSandbox := True\<rparr>
            in case pe_nextTx en of
                 Some tx \<Rightarrow> Val (p\<lparr>p_Tx := Some (tp_Tx tx)\<rparr>,
                   pl1\<lparr>xp_returnBadContractResp := True, xp_out := [ToScheduler (tp_Tx tx)]\<rparr>, True)
               | None \<Rightarrow> Val (p, pl1, True))
         else case p_processState p of
           created \<Rightarrow> Val (p, pl\<lparr>xp_restartSandbox := True\<rparr>, False)
         | ready \<Rightarrow>
             (let pl1 = pl\<lparr>xp_exitSandbox := True\<rparr>
              in case p_Tx p of
                   None \<Rightarrow> Val (p, pl1, True)
                 | Some tx \<Rightarrow> (case m_Request tx of
                     None \<Rightarrow> Val (p, pl1, True)
                   | Some r \<Rightarrow> Val (p, pl1\<lparr>xp_returnBadContractResp := is_init_or_upgrade r\<rparr>, True)))
         | idle \<Rightarrow> Val (p, pl\<lparr>xp_exitSandbox := True\<rparr>, True)
         | busy \<Rightarrow>
             go_bind (updateProcessState cfg created p) (\<lambda>p1.
               go_bind (tx_request p1) (\<lambda>r.
                 Val (p1, pl\<lparr>xp_exitSandbox := True, xp_returnErrResp := True,
                   xp_errRet := RuntimePanicError,
                   xp_returnBadContractResp := is_init_or_upgrade r\<rparr>, True)))
         | changing \<Rightarrow>
             go_bind (updateProcessState cfg created p) (\<lambda>p1.
               Val (p1, pl\<lparr>xp_restartAll := True\<rparr>, True))
         | closing \<Rightarrow> Val (p, pl, True)
         | timeout \<Rightarrow>
             go_bind (updateProcessState cfg created p) (\<lambda>p1.
               Val (p1, pl\<lparr>xp_exitSandbox := True, xp_returnErrResp := True,
                 xp_errRet := TxTimeoutPanicError\<rparr>, True)))"

definition exit_outputs ::
  "proc_env \<Rightarrow> exit_error \<times> string \<Rightarrow> Process \<Rightarrow> exit_plan \<Rightarrow> proc_out list go" where
  "exit_outputs en ed p pl =
     go_bind (if xp_returnBadContractResp pl
              then returnBadContractResp p (case ParseInt (snd ed) of
                  (n, None) \<Rightarrow> n | (n, Some e) \<Rightarrow> pe_cfv en)
              else Val [])
       (\<lambda>bad. Val (xp_out pl @
          (if xp_restartSandbox pl then [GoStartProcess] else []) @
          (if xp_returnErrResp pl then returnTxErrorResp p (getTxId p) (xp_errRet pl) else []) @
          (if xp_exitSandbox pl then returnSandboxExitResp p (fst ed) else []) @
          (if xp_restartAll pl then [StartAll] else []) @ bad))"

text \<open>
  The outer deferred function pops the timer.  When \<open>restartAll\<close> is set it runs only after
  \<open>p.Start()\<close> returns, that is, once the next sandbox has exited: it is left to
  \<open>old_listener\<close>.
\<close>

definition popAndMark :: "Process \<Rightarrow> Process go" where
  "popAndMark p = go_bind (popTimer p) (\<lambda>p1. Val (p1\<lparr>p_timerPopped := True\<rparr>))"

definition handleProcessExit :: "conf \<Rightarrow> proc_env \<Rightarrow> exitErr option \<Rightarrow> Process \<Rightarrow> bool act" where
  "handleProcessExit cfg en ee p =
     (let ed = normal_exit ee
      in go_bind (exit_branch cfg en (fst ed) p) (\<lambda>(p1, pl, released).
           go_bind (exit_outputs en ed p1 pl) (\<lambda>out.
             if xp_restartAll pl
             then Val (p1\<lparr>p_oldListeners := p_oldListeners p1 + 1\<rparr>, out, released)
             else go_bind (popAndMark p1) (\<lambda>p2. Val (p2, out, released)))))"

definition old_listener :: "Process \<Rightarrow> Process go" where
  "old_listener p = popAndMark (p\<lparr>p_oldListeners := p_oldListeners p - 1\<rparr>)"

section \<open>Operations called by other components\<close>

definition IsReadyOrBusy :: "Process \<Rightarrow> bool" where
  "IsReadyOrBusy p \<longleftrightarrow> p_processState p = ready \<or> p_processState p = busy"

definition SetStream :: "conf \<Rightarrow> Process \<Rightarrow> Process go" where
  "SetStream cfg p = go_bind (updateProcessState cfg ready p) (\<lambda>p1. Val (p1\<lparr>p_stream := True\<rparr>))"

definition wrong_state :: "Process \<Rightarrow> error" where
  "wrong_state p = ''wrong state, current process state is '' @ Itoa (state_num (p_processState p)) @
     '', need '' @ Itoa (state_num idle)"

definition ChangeSandbox ::
  "conf \<Rightarrow> proc_env \<Rightarrow> string \<Rightarrow> string \<Rightarrow> string \<Rightarrow> string \<Rightarrow> Process \<Rightarrow> error option act" where
  "ChangeSandbox cfg en chainID contractName contractVersion processName p =
     (if p_processState p \<noteq> idle then Val (p, [], Some (wrong_state p))
      else case resetContext (pe_groupOk en) chainID contractName contractVersion processName p of
        (p1, Some e) \<Rightarrow> Val (p1, [], Some (''failed to reset context, '' @ e))
      | (p1, None) \<Rightarrow> go_bind (killProcess en SIGTERM p1) (\<lambda>(p2, out, e). case e of
            Some e \<Rightarrow> Val (p2, out, Some e)
          | None \<Rightarrow> go_bind (updateProcessState cfg changing p2) (\<lambda>p3. Val (p3, out, None))))"

definition CloseSandbox :: "conf \<Rightarrow> proc_env \<Rightarrow> Process \<Rightarrow> error option act" where
  "CloseSandbox cfg en p =
     (if p_processState p \<noteq> idle then Val (p, [], Some (wrong_state p))
      else go_bind (killProcess en SIGTERM p) (\<lambda>(p1, out, e). case e of
            Some e \<Rightarrow> Val (p1, out, Some (''failed to kill process, '' @ e))
          | None \<Rightarrow> go_bind (updateProcessState cfg closing p1) (\<lambda>p2. Val (p2, out, None))))"

definition process_PutMsg :: "DockerVMMessage \<Rightarrow> Process \<Rightarrow> Process go" where
  "process_PutMsg msg p = (if p_respCh p \<noteq> [] then Block else Val (p\<lparr>p_respCh := [msg]\<rparr>))"

section \<open>Launching the sandbox\<close>

record launch_env =
  le_pipeErr :: "error option"
  le_startErr :: "(bool \<times> error) option"
  le_cgroupErr :: "error option"
  le_waitErr :: "error option"
  le_stderr :: string

definition cmd_args :: "conf \<Rightarrow> Process \<Rightarrow> string list" where
  "cmd_args cfg p =
     (let tcpPort = (if ChainRPCProtocol (RPC cfg) = UDS then 0 else SandboxRPCPort (RPC cfg))
      in [SockPath (p_user p), p_processName p, p_contractName p, p_contractVersion p,
          Level (SandboxLog (Log cfg)), Itoa tcpPort, ChainHost (RPC cfg),
          if Disable (Slow cfg) then ''true'' else ''false'',
          Itoa (MaxSendMsgSize (RPC cfg)), Itoa (MaxRecvMsgSize (RPC cfg))])"

text \<open>
  \<open>launchProcess\<close> up to the point where the command runs (\<open>launchStart\<close>, an exit error if it
  never does) and from there to its end (\<open>launchWait\<close>).
\<close>

definition launchStart :: "launch_env \<Rightarrow> int \<Rightarrow> Process \<Rightarrow> (Process \<times> exitErr option) go" where
  "launchStart le cfv p =
     (if p_requestGroup p = None then Panic
      else case le_pipeErr le of
        Some e \<Rightarrow> Val (p, Some \<lparr>ee_err = Some (OtherErr e), ee_desc = []\<rparr>)
      | None \<Rightarrow> (case le_startErr le of
          Some (notExist, e) \<Rightarrow> Val (p\<lparr>p_cmd := True\<rparr>,
            Some \<lparr>ee_err = Some (if notExist then ContractNotExistError else ContractExecError),
                  ee_desc = Itoa cfv\<rparr>)
        | None \<Rightarrow> if p_cmdReadyCh p \<ge> 1 then Block
                  else Val (p\<lparr>p_cmd := True, p_cmdReadyCh := p_cmdReadyCh p + 1\<rparr>, None)))"

definition launchWait :: "launch_env \<Rightarrow> exitErr option" where
  "launchWait le = (case le_cgroupErr le of
       Some e \<Rightarrow> Some \<lparr>ee_err = Some (OtherErr e), ee_desc = []\<rparr>
     | None \<Rightarrow> map_option (\<lambda>e. \<lparr>ee_err = Some (OtherErr e), ee_desc = le_stderr le\<rparr>) (le_waitErr le))"

definition launchProcess :: "launch_env \<Rightarrow> int \<Rightarrow> Process \<Rightarrow> (Process \<times> exitErr option) go" where
  "launchProcess le cfv p = go_bind (launchStart le cfv p) (\<lambda>(p1, e).
     if e \<noteq> None then Val (p1, e) else Val (p1, launchWait le))"

section \<open>The listener\<close>

datatype proc_event =
    EvTx nat TxPayload
  | EvTimer
  | EvExit "exitErr option"
  | EvResp
  | EvUpdate
  | EvFire
  | EvSetStream
  | EvPutMsg DockerVMMessage
  | EvLaunch launch_env
  | EvChange string string string string
  | EvClose
  | EvOldListener

text \<open>
  \<open>listenProcess\<close>: the case of its select an event takes in the current state, \<^term>\<open>None\<close> when
  no case is ready for it.
\<close>

definition listenProcess ::
  "conf \<Rightarrow> proc_env \<Rightarrow> proc_event \<Rightarrow> Process \<Rightarrow> bool act option" where
  "listenProcess cfg en ev p = (case ev of
       EvTx n tx \<Rightarrow>
         (if p_processState p = ready then
            Some (go_bind (handleTxRequest cfg en n tx p) (\<lambda>(p1, out, e). Val (p1, out @ (case e of
              None \<Rightarrow> [] | Some e \<Rightarrow> returnTxErrorResp p1 (m_TxId (tp_Tx tx)) e), False)))
          else if p_processState p = idle then
            Some (go_bind (handleIdleTxRequest cfg en tx p) (\<lambda>(p1, out, e). Val (p1, out, False)))
          else None)
     | EvTimer \<Rightarrow>
         (if IsReadyOrBusy p \<and> t_chan (p_timer p)
          then Some (go_bind (handleTimeout cfg en (p\<lparr>p_timer := (p_timer p)\<lparr>t_chan := False\<rparr>\<rparr>))
                 (\<lambda>(p1, out, e). Val (p1, out, False)))
          else None)
     | EvResp \<Rightarrow>
         (case p_respCh p of
            msg # rest \<Rightarrow>
              if p_processState p = busy
              then Some (go_bind (handleTxResp cfg en msg (p\<lparr>p_respCh := rest\<rparr>))
                     (\<lambda>(p1, out, e). Val (p1, out, False)))
              else None
          | [] \<Rightarrow> None)
     | EvExit ee \<Rightarrow> Some (handleProcessExit cfg en ee p)
     | EvUpdate \<Rightarrow>
         (if \<not> listening (p_processState p) \<and> p_updateCh p \<ge> 1
          then Some (Val (p\<lparr>p_updateCh := p_updateCh p - 1\<rparr>, [], False)) else None)
     | _ \<Rightarrow> None)"

text \<open>One step of the process: a case of the listener, or a call from outside.\<close>

definition proc_step :: "conf \<Rightarrow> proc_env \<Rightarrow> proc_event \<Rightarrow> Process \<Rightarrow> bool act option" where
  "proc_step cfg en ev p = (case ev of
       EvFire \<Rightarrow> Some (Val (p\<lparr>p_timer := timer_fire (p_timer p)\<rparr>, [], False))
     | EvSetStream \<Rightarrow> Some (go_bind (SetStream cfg p) (\<lambda>p1. Val (p1, [], False)))
     | EvPutMsg msg \<Rightarrow> Some (go_bind (process_PutMsg msg p) (\<lambda>p1. Val (p1, [], False)))
     | EvLaunch le \<Rightarrow> Some (go_bind (launchStart le (pe_cfv en) p) (\<lambda>(p1, e). Val (p1, [], False)))
     | EvChange c n v nm \<Rightarrow>
         Some (go_bind (ChangeSandbox cfg en c n v nm p) (\<lambda>(p1, out, e). Val (p1, out, False)))
     | EvClose \<Rightarrow> Some (go_bind (CloseSandbox cfg en p) (\<lambda>(p1, out, e). Val (p1, out, False)))
     | EvOldListener \<Rightarrow>
         (if p_oldListeners p > 0
          then Some (go_bind (old_listener p) (\<lambda>p1. Val (p1, [], False))) else None)
     | _ \<Rightarrow> listenProcess cfg en ev p)"

section \<open>The timer invariant\<close>

text \<open>
  Once popped, the timer is stopped and its channel empty; otherwise it either runs or has left
  its value in the channel.  This is what makes the drain in \<open>popTimer\<close> safe.
\<close>

definition timer_ok :: "Process \<Rightarrow> bool" where
  "timer_ok p \<longleftrightarrow> (if p_timerPopped p then \<not> t_active (p_timer p) \<and> \<not> t_chan (p_timer p)
     else t_active (p_timer p) \<noteq> t_chan (p_timer p))"

lemma popTimer_ok:
  "timer_ok p \<Longrightarrow> popTimer p = Val (p\<lparr>p_timer := (p_timer p)\<lparr>t_active := False, t_chan := False\<rparr>\<rparr>)"
  by (cases "p_timer p") (auto simp: popTimer_def timer_ok_def timer_Stop_def Let_def split: if_splits)

lemma timer_ok_frame [simp]:
  "timer_ok (p\<lparr>p_processState := st\<rparr>) = timer_ok p" "timer_ok (p\<lparr>p_updateCh := n\<rparr>) = timer_ok p"
  "timer_ok (p\<lparr>p_Tx := tx\<rparr>) = timer_ok p" "timer_ok (p\<lparr>p_cmdReadyCh := n\<rparr>) = timer_ok p"
  "timer_ok (p\<lparr>p_respCh := r\<rparr>) = timer_ok p" "timer_ok (p\<lparr>p_stream := b\<rparr>) = timer_ok p"
  "timer_ok (p\<lparr>p_cmd := b\<rparr>) = timer_ok p" "timer_ok (p\<lparr>p_requestGroup := g\<rparr>) = timer_ok p"
  "timer_ok (p\<lparr>p_oldListeners := n\<rparr>) = timer_ok p" "timer_ok (p\<lparr>p_chainID := c\<rparr>) = timer_ok p"
  "timer_ok (p\<lparr>p_contractVersion := v\<rparr>) = timer_ok p" "timer_ok (p\<lparr>p_contractName := c\<rparr>) = timer_ok p"
  "timer_ok (p\<lparr>p_txCh := x\<rparr>) = timer_ok p" "timer_ok (p\<lparr>p_processName := c\<rparr>) = timer_ok p"
  by (simp_all add: timer_ok_def)

definition timed :: "conf \<Rightarrow> processState \<Rightarrow> Process \<Rightarrow> Process" where
  "timed cfg st p =
     (let d = (if st = ready then WaitingTxTime (Process_conf cfg) else ExecTxTimeout (Process_conf cfg))
      in if st = ready \<or> st = busy
         then p\<lparr>p_timer := (p_timer p)\<lparr>t_active := True, t_chan := False, t_duration := d\<rparr>,
                p_timerPopped := False\<rparr>
         else p)"

lemma start_timer_ok:
  "timer_ok p \<Longrightarrow> startReadyTimer cfg p = Val (timed cfg ready p)"
  "timer_ok p \<Longrightarrow> startBusyTimer cfg p = Val (timed cfg busy p)"
  by (simp_all add: startReadyTimer_def startBusyTimer_def popTimer_ok timed_def timer_Reset_def Let_def)

lemma updateProcessState_ok:
  "timer_ok p \<Longrightarrow> updateProcessState cfg st p =
     (if \<not> listening (p_processState p) \<and> listening st
      then (if p_updateCh p \<ge> 1 then Block
            else Val (timed cfg st (p\<lparr>p_processState := st, p_updateCh := p_updateCh p + 1\<rparr>)))
      else Val (timed cfg st (p\<lparr>p_processState := st\<rparr>)))"
  by (cases st) (simp_all add: updateProcessState_def Let_def start_timer_ok, simp_all add: timed_def)

lemma timed_sel [simp]:
  "p_processState (timed cfg st p) = p_processState p" "p_Tx (timed cfg st p) = p_Tx p"
  "p_cmdReadyCh (timed cfg st p) = p_cmdReadyCh p" "p_updateCh (timed cfg st p) = p_updateCh p"
  "p_respCh (timed cfg st p) = p_respCh p" "p_stream (timed cfg st p) = p_stream p"
  "p_requestGroup (timed cfg st p) = p_requestGroup p" "p_chainID (timed cfg st p) = p_chainID p"
  "p_cmd (timed cfg st p) = p_cmd p" "p_processName (timed cfg st p) = p_processName p"
  "p_oldListeners (timed cfg st p) = p_oldListeners p" "p_user (timed cfg st p) = p_user p"
  "p_isOrigProcess (timed cfg st p) = p_isOrigProcess p" "p_txCh (timed cfg st p) = p_txCh p"
  by (simp_all add: timed_def Let_def)

lemma timer_ok_timed: "timer_ok p \<Longrightarrow> timer_ok (timed cfg st p)"
  by (auto simp: timer_ok_def timed_def Let_def)

lemma popAndMark_ok:
  "timer_ok p \<Longrightarrow> popAndMark p =
     Val (p\<lparr>p_timer := (p_timer p)\<lparr>t_active := False, t_chan := False\<rparr>, p_timerPopped := True\<rparr>)"
  by (simp add: popAndMark_def popTimer_ok)

section \<open>The process invariant\<close>

definition tx_ok :: "DockerVMMessage \<Rightarrow> bool" where
  "tx_ok tx \<longleftrightarrow> m_Request tx \<noteq> None"

definition proc_inv :: "Process \<Rightarrow> bool" where
  "proc_inv p \<longleftrightarrow> timer_ok p \<and> p_cmdReadyCh p \<le> 1 \<and> p_updateCh p \<le> 1 \<and> length (p_respCh p) \<le> 1 \<and>
     p_requestGroup p \<noteq> None \<and> (\<forall>tx. p_Tx p = Some tx \<longrightarrow> tx_ok tx) \<and>
     (listening (p_processState p) \<longrightarrow> p_stream p) \<and>
     (p_processState p = busy \<or> p_processState p = timeout \<longrightarrow> p_Tx p \<noteq> None) \<and>
     (p_cmdReadyCh p = 1 \<longrightarrow> p_cmd p)"

text \<open>
  What the environment provides: the request group of a waiting request exists (the scheduler
  never drops groups), and every transaction handed to a process carries its request.
\<close>

definition env_ok :: "proc_env \<Rightarrow> bool" where
  "env_ok en \<longleftrightarrow> pe_groupOk en \<and>
     (case pe_nextTx en of None \<Rightarrow> True | Some tx \<Rightarrow> tx_ok (tp_Tx tx))"

fun ev_ok :: "proc_event \<Rightarrow> bool" where
  "ev_ok (EvTx n tx) = tx_ok (tp_Tx tx)"
| "ev_ok _ = True"

fun proc_good :: "'r act \<Rightarrow> bool" where
  "proc_good (Val (p, out, r)) = proc_inv p"
| "proc_good Block = True"
| "proc_good Panic = False"

lemma NewProcess_inv: "NewProcess True u c n v nm orig = Val p \<Longrightarrow> proc_inv p"
  by (auto simp: NewProcess_def proc_inv_def timer_ok_def Let_def listening_def)

lemma step_tx_ok [simp]:
  "tx_ok (EnterNextStep sl clk tx ty str) = tx_ok tx"
  by (simp add: tx_ok_def EnterNextStep_def endTxStep_def addTxStep_def Let_def)

lemma killProcess_good:
  "proc_inv p \<Longrightarrow> proc_good (killProcess en sig p)"
  by (auto simp: killProcess_def Let_def proc_inv_def split: option.split)

lemma listening_simps [simp]:
  "listening ready" "listening busy" "listening idle" "\<not> listening created"
  "\<not> listening changing" "\<not> listening closing" "\<not> listening timeout"
  by (simp_all add: listening_def)

lemma inv_simps:
  "proc_inv p \<Longrightarrow> timer_ok p" "proc_inv p \<Longrightarrow> p_Tx p = Some tx \<Longrightarrow> m_Request tx \<noteq> None"
  by (auto simp: proc_inv_def tx_ok_def)

lemma handleTxRequest_good:
  "proc_inv p \<Longrightarrow> p_processState p = ready \<Longrightarrow> tx_ok (tp_Tx tx) \<Longrightarrow>
   proc_good (handleTxRequest cfg en n tx p)"
  by (auto simp: handleTxRequest_def Let_def updateProcessState_ok proc_inv_def timer_ok_timed
      split: option.split)

lemma handleIdleTxRequest_good:
  "proc_inv p \<Longrightarrow> p_processState p = idle \<Longrightarrow> proc_good (handleIdleTxRequest cfg en tx p)"
  by (auto simp: handleIdleTxRequest_def Let_def updateProcessState_ok proc_inv_def timer_ok_timed
      split: option.split)

lemma proc_good_bind:
  assumes "proc_good m" and "\<And>p out r. m = Val (p, out, r) \<Longrightarrow> proc_inv p \<Longrightarrow> proc_good (f (p, out, r))"
  shows "proc_good (go_bind m f)"
  using assms by (cases m rule: proc_good.cases) auto

lemma proc_good_result: "proc_good m \<Longrightarrow> proc_good (go_bind m (\<lambda>(p, out, r). Val (p, g p out r, h p out r)))"
  by (cases m rule: proc_good.cases) auto

lemma ready_inv:
  "proc_inv p \<Longrightarrow> p_processState p = busy \<Longrightarrow>
   proc_inv (timed cfg ready (p\<lparr>p_processState := ready\<rparr>))"
  by (simp add: proc_inv_def timer_ok_timed)

lemma handleTxResp_good:
  assumes "proc_inv p" "p_processState p = busy"
  shows "proc_good (handleTxResp cfg en msg p)"
proof -
  obtain tx r where tx: "p_Tx p = Some tx" "m_Request tx = Some r"
    using assms by (force simp: proc_inv_def tx_ok_def)
  have upd: "updateProcessState cfg ready p = Val (timed cfg ready (p\<lparr>p_processState := ready\<rparr>))"
    using assms by (simp add: updateProcessState_ok inv_simps)
  have "proc_inv (timed cfg ready (p\<lparr>p_processState := ready\<rparr>))" by (rule ready_inv[OF assms])
  then show ?thesis
    using tx by (simp add: handleTxResp_def upd proc_good_result killProcess_good)
qed

lemma handleTimeout_good:
  assumes "proc_inv p" "IsReadyOrBusy p" "t_chan (p_timer p)"
  shows "proc_good (handleTimeout cfg en (p\<lparr>p_timer := (p_timer p)\<lparr>t_chan := False\<rparr>\<rparr>))"
proof -
  let ?p = "p\<lparr>p_timer := (p_timer p)\<lparr>t_chan := False\<rparr>, p_timerPopped := True\<rparr>"
  have inv: "proc_inv ?p"
    using assms(1,3) by (auto simp: proc_inv_def timer_ok_def split: if_splits)
  have kill: "proc_good (killProcess en SIGINT (timed cfg timeout (?p\<lparr>p_processState := timeout\<rparr>)))"
    if "p_processState p = busy"
    using inv that by (intro killProcess_good) (simp add: proc_inv_def timer_ok_timed)
  show ?thesis
  proof (cases "p_processState p = busy")
    case True
    with inv kill show ?thesis
      by (auto simp: handleTimeout_def Let_def updateProcessState_ok inv_simps proc_inv_def
          intro!: proc_good_result)
  next
    case False
    then have "p_processState p = ready" using assms(2) by (simp add: IsReadyOrBusy_def)
    with inv show ?thesis
      by (auto simp: handleTimeout_def Let_def updateProcessState_ok proc_inv_def timer_ok_timed
          split: option.split)
  qed
qed

lemma created_inv:
  "proc_inv p \<Longrightarrow> proc_inv (timed cfg created (p\<lparr>p_processState := created\<rparr>))"
  by (simp add: proc_inv_def timer_ok_timed)

lemma upd_created:
  "proc_inv p \<Longrightarrow> updateProcessState cfg created p = Val (timed cfg created (p\<lparr>p_processState := created\<rparr>))"
  by (simp add: updateProcessState_ok inv_simps)

lemma next_tx_inv: "proc_inv p \<Longrightarrow> tx_ok tx \<Longrightarrow> proc_inv (p\<lparr>p_Tx := Some tx\<rparr>)"
  by (simp add: proc_inv_def)

lemma next_tx_ok: "env_ok en \<Longrightarrow> pe_nextTx en = Some tx \<Longrightarrow> tx_ok (tp_Tx tx)"
  by (simp add: env_ok_def)

text \<open>
  No exit is left unhandled: either the listener ends, or the sandbox is started again.
\<close>

lemma exit_branch_good:
  assumes "proc_inv p" "env_ok en"
  shows "\<exists>p1 pl rel. exit_branch cfg en err p = Val (p1, pl, rel) \<and> proc_inv p1 \<and>
    (xp_returnBadContractResp pl \<longrightarrow> p_Tx p1 \<noteq> None) \<and> xp_restartSandbox pl = (\<not> rel)"
proof (cases "err = ContractExecError \<or> err = ContractNotExistError")
  case True
  then show ?thesis
    using assms next_tx_ok[OF assms(2)]
    by (cases "pe_nextTx en") (auto simp: exit_branch_def Let_def no_plan_def next_tx_inv)
next
  case False
  show ?thesis
  proof (cases "p_processState p")
    case busy
    obtain tx r where "p_Tx p = Some tx" "m_Request tx = Some r"
      using assms(1) busy by (force simp: proc_inv_def tx_ok_def)
    with False busy show ?thesis
      using assms by (auto simp: exit_branch_def Let_def no_plan_def upd_created tx_request_def created_inv)
  qed (use False assms in \<open>auto simp: exit_branch_def Let_def no_plan_def upd_created created_inv
      split: option.split\<close>)
qed

lemma exit_outputs_Val:
  "proc_inv p \<Longrightarrow> xp_returnBadContractResp pl \<longrightarrow> p_Tx p \<noteq> None \<Longrightarrow>
   \<exists>out. exit_outputs en ed p pl = Val out"
  by (auto simp: exit_outputs_def returnBadContractResp_def proc_inv_def)

lemma popAndMark_inv: "proc_inv p \<Longrightarrow> \<exists>p'. popAndMark p = Val p' \<and> proc_inv p' \<and> p_processState p' = p_processState p"
  by (auto simp: popAndMark_ok inv_simps) (auto simp: proc_inv_def timer_ok_def)

lemma handleProcessExit_total:
  assumes "proc_inv p" "env_ok en"
  shows "\<exists>p' out rel. handleProcessExit cfg en ee p = Val (p', out, rel) \<and> proc_inv p' \<and>
    (\<not> rel \<longrightarrow> GoStartProcess \<in> set out)"
proof -
  let ?ed = "normal_exit ee"
  obtain p1 pl rel where b: "exit_branch cfg en (fst ?ed) p = Val (p1, pl, rel)" "proc_inv p1"
    "xp_returnBadContractResp pl \<longrightarrow> p_Tx p1 \<noteq> None" "xp_restartSandbox pl = (\<not> rel)"
    using exit_branch_good[OF assms, of cfg "fst ?ed"] by blast
  obtain out where o: "exit_outputs en ?ed p1 pl = Val out" using exit_outputs_Val[OF b(2,3)] by blast
  have start: "\<not> rel \<longrightarrow> GoStartProcess \<in> set out" using o b(4) by (auto simp: exit_outputs_def)
  have "proc_inv (p1\<lparr>p_oldListeners := n\<rparr>)" for n using b(2) by (simp add: proc_inv_def)
  then show ?thesis
    using popAndMark_inv[OF b(2)] b(1) o start by (auto simp: handleProcessExit_def Let_def)
qed

lemma handleProcessExit_good:
  "proc_inv p \<Longrightarrow> env_ok en \<Longrightarrow> proc_good (handleProcessExit cfg en ee p)"
  using handleProcessExit_total[of p en cfg ee] by auto

lemma SetStream_good: "proc_inv p \<Longrightarrow> proc_good (go_bind (SetStream cfg p) (\<lambda>p1. Val (p1, [], False)))"
proof -
  assume "proc_inv p"
  then show ?thesis
    by (auto simp: SetStream_def updateProcessState_ok proc_inv_def timer_ok_timed timed_def Let_def timer_ok_def)
qed

lemma CloseSandbox_good: "proc_inv p \<Longrightarrow> proc_good (CloseSandbox cfg en p)"
proof -
  assume inv: "proc_inv p"
  have "proc_good (go_bind (updateProcessState cfg closing p1) (\<lambda>p2. Val (p2, out, None :: error option)))"
    if "proc_inv p1" for p1 and out :: "proc_out list"
    using that by (simp add: updateProcessState_ok inv_simps) (simp add: proc_inv_def timer_ok_timed)
  then show ?thesis
    using inv by (auto simp: CloseSandbox_def killProcess_good intro!: proc_good_bind split: option.split)
qed

lemma ChangeSandbox_good:
  assumes inv: "proc_inv p" and "env_ok en"
  shows "proc_good (ChangeSandbox cfg en c n v nm p)"
proof -
  have go: "proc_good (go_bind (updateProcessState cfg changing p1) (\<lambda>p2. Val (p2, out, None :: error option)))"
    if "proc_inv p1" for p1 and out :: "proc_out list"
    using that by (simp add: updateProcessState_ok inv_simps) (simp add: proc_inv_def timer_ok_timed)
  obtain p1 where r: "resetContext (pe_groupOk en) c n v nm p = (p1, None)" and "proc_inv p1"
    using assms by (simp add: resetContext_def env_ok_def Let_def proc_inv_def)
  then show ?thesis
    using inv by (auto simp: ChangeSandbox_def killProcess_good intro!: proc_good_bind go split: option.split)
qed

lemma proc_step_good:
  assumes "proc_inv p" "env_ok en" "ev_ok ev" "proc_step cfg en ev p = Some m"
  shows "proc_good m"
proof (cases ev)
  case (EvTx n tx)
  then show ?thesis
    using assms by (auto simp: proc_step_def listenProcess_def handleTxRequest_good
        handleIdleTxRequest_good intro!: proc_good_result split: if_splits)
next
  case EvTimer
  then show ?thesis
    using assms by (auto simp: proc_step_def listenProcess_def handleTimeout_good
        intro!: proc_good_result split: if_splits)
next
  case EvResp
  have "proc_inv (p\<lparr>p_respCh := []\<rparr>)" using assms(1) by (simp add: proc_inv_def)
  moreover have "\<And>x xs. p_respCh p = x # xs \<Longrightarrow> xs = []" using assms(1) by (simp add: proc_inv_def)
  ultimately show ?thesis
    using EvResp assms by (auto simp: proc_step_def listenProcess_def handleTxResp_good
        intro!: proc_good_result split: if_splits list.splits)
next
  case (EvLaunch le)
  then show ?thesis
    using assms by (auto simp: proc_step_def launchStart_def proc_inv_def split: option.splits)
next
  case EvOldListener
  have "proc_inv (p\<lparr>p_oldListeners := n\<rparr>)" for n using assms(1) by (simp add: proc_inv_def)
  then obtain p' where "old_listener p = Val p'" "proc_inv p'"
    unfolding old_listener_def using popAndMark_inv by blast
  then show ?thesis
    using EvOldListener assms(4) by (auto simp: proc_step_def split: if_splits)
qed (use assms in \<open>auto simp: proc_step_def listenProcess_def handleProcessExit_good SetStream_good
    CloseSandbox_good ChangeSandbox_good proc_inv_def process_PutMsg_def timer_ok_def timer_fire_def
    intro!: proc_good_result split: if_splits\<close>)

section \<open>Reachable processes\<close>

inductive proc_reach :: "conf \<Rightarrow> Process \<Rightarrow> bool" for cfg where
  start: "NewProcess True u c n v nm orig = Val p \<Longrightarrow> proc_reach cfg p"
| step: "proc_reach cfg p \<Longrightarrow> env_ok en \<Longrightarrow> ev_ok ev \<Longrightarrow>
    proc_step cfg en ev p = Some (Val (p', out, rel)) \<Longrightarrow> proc_reach cfg p'"

lemma reach_inv: "proc_reach cfg p \<Longrightarrow> proc_inv p"
proof (induction rule: proc_reach.induct)
  case (step p en ev p' out rel)
  from proc_step_good[OF step.IH step.hyps(2,3,4)] show ?case by simp
qed (rule NewProcess_inv)

fun proc_run :: "conf \<Rightarrow> (proc_env \<times> proc_event) list \<Rightarrow> Process \<Rightarrow> (Process \<times> proc_out list) option" where
  "proc_run cfg [] p = Some (p, [])"
| "proc_run cfg ((en, ev) # es) p = (case proc_step cfg en ev p of
      Some (Val (p1, out, rel)) \<Rightarrow> map_option (\<lambda>(p2, out'). (p2, out @ out')) (proc_run cfg es p1)
    | _ \<Rightarrow> None)"

lemma proc_run_reach:
  "proc_reach cfg p \<Longrightarrow> list_all (\<lambda>(en, ev). env_ok en \<and> ev_ok ev) es \<Longrightarrow>
   proc_run cfg es p = Some (p', out) \<Longrightarrow> proc_reach cfg p'"
proof (induction es arbitrary: p out)
  case (Cons e es)
  obtain en ev where e: "e = (en, ev)" by (cases e)
  with Cons.prems(3) obtain p1 out1 rel out2 where
    st: "proc_step cfg en ev p = Some (Val (p1, out1, rel))" and "proc_run cfg es p1 = Some (p', out2)"
    by (auto split: option.splits go.splits prod.splits)
  moreover have "proc_reach cfg p1" using proc_reach.step[OF Cons.prems(1) _ _ st] Cons.prems(2) e by simp
  ultimately show ?case using Cons.IH Cons.prems(2) by simp
qed simp

fun sched_msgs :: "proc_out list \<Rightarrow> DockerVMMessage list" where
  "sched_msgs [] = []"
| "sched_msgs (ToScheduler m # os) = m # sched_msgs os"
| "sched_msgs (_ # os) = sched_msgs os"

lemma sched_msgs_append [simp]: "sched_msgs (xs @ ys) = sched_msgs xs @ sched_msgs ys"
  by (induction xs rule: sched_msgs.induct) simp_all

text \<open>The answer the scheduler gets when a sandbox exits.\<close>

definition exit_answer :: "proc_env \<Rightarrow> exit_error \<Rightarrow> Process \<Rightarrow> DockerVMMessage list" where
  "exit_answer en err p =
     (if err = ContractExecError then
        (case pe_nextTx en of None \<Rightarrow> []
         | Some tx \<Rightarrow> [txErrorResp (p_chainID p) (m_TxId (tp_Tx tx)) (err_text ContractExecError)])
      else if err = ContractNotExistError then
        (case pe_nextTx en of None \<Rightarrow> [] | Some tx \<Rightarrow> [tp_Tx tx])
      else if p_processState p = busy then [txErrorResp (p_chainID p) (getTxId p) RuntimePanicError]
      else if p_processState p = timeout then [txErrorResp (p_chainID p) (getTxId p) TxTimeoutPanicError]
      else [])"

lemma bad_resp_no_sched: "returnBadContractResp p n = Val out \<Longrightarrow> sched_msgs out = []"
  by (auto simp: returnBadContractResp_def split: option.splits)

lemma exit_outputs_sched:
  "exit_outputs en ed p pl = Val out \<Longrightarrow> sched_msgs out = sched_msgs (xp_out pl) @
     (if xp_returnErrResp pl then [txErrorResp (p_chainID p) (getTxId p) (xp_errRet pl)] else [])"
  by (auto simp: exit_outputs_def returnTxErrorResp_def returnSandboxExitResp_def
      dest: bad_resp_no_sched split: if_splits)

lemma exit_branch_answer:
  assumes "proc_inv p" "exit_branch cfg en err p = Val (p1, pl, rel)"
  shows "sched_msgs (xp_out pl) @
      (if xp_returnErrResp pl then [txErrorResp (p_chainID p1) (getTxId p1) (xp_errRet pl)] else []) =
    exit_answer en err p"
proof (cases "err = ContractExecError \<or> err = ContractNotExistError")
  case True
  then show ?thesis
    using assms(2)
    by (cases "pe_nextTx en") (auto simp: exit_branch_def exit_answer_def no_plan_def Let_def getTxId_def)
next
  case False
  then show ?thesis
    using assms
    by (cases "p_processState p")
      (auto simp: exit_branch_def exit_answer_def no_plan_def Let_def getTxId_def upd_created split: option.splits)
qed

text \<open>A concrete run: launched, registered, ready, and executing one transaction.\<close>

definition sample_env :: proc_env where
  "sample_env = \<lparr>pe_now = 5, pe_clk = int, pe_sendErr = None, pe_sigErr = None, pe_stateErr = None,
     pe_groupOk = True, pe_cfv = 1, pe_nextTx = None\<rparr>"

definition sample_tx :: "string \<Rightarrow> TxPayload" where
  "sample_tx meth = \<lparr>tp_Tx = zero_msg\<lparr>m_TxId := ''t1'',
     m_Request := Some (zero_req\<lparr>req_Method := meth\<rparr>)\<rparr>, tp_StartTime = 0\<rparr>"

definition sample_launch :: launch_env where
  "sample_launch = \<lparr>le_pipeErr = None, le_startErr = None, le_cgroupErr = None, le_waitErr = None,
     le_stderr = []\<rparr>"

definition sample_new :: Process where
  "sample_new = (case NewProcess True (NewUser 10000) ''chain1'' ''asset'' ''v1'' ''p'' True of
     Val p \<Rightarrow> p | _ \<Rightarrow> undefined)"

definition sample_events :: "string \<Rightarrow> (proc_env \<times> proc_event) list" where
  "sample_events meth = map (\<lambda>ev. (sample_env, ev))
     [EvLaunch sample_launch, EvSetStream, EvTx 0 (sample_tx meth),
      EvPutMsg (zero_msg\<lparr>m_Type := ERROR, m_TxId := ''t1''\<rparr>)]"

definition sample_busy :: "string \<Rightarrow> Process" where
  "sample_busy meth = (case proc_run setDefaultConfigs (sample_events meth) sample_new of
     Some (p, out) \<Rightarrow> p | None \<Rightarrow> sample_new)"

lemma sample_new_reach: "proc_reach setDefaultConfigs sample_new"
  by (rule proc_reach.start[where u = "NewUser 10000" and c = "''chain1''" and n = "''asset''"
        and v = "''v1''" and nm = "''p''" and orig = True])
    (simp add: sample_new_def NewProcess_def Let_def)

lemma sample_busy_run:
  "proc_run setDefaultConfigs (sample_events meth) sample_new \<noteq> None \<and>
   p_processState (sample_busy meth) = busy \<and> p_cmdReadyCh (sample_busy meth) = 1 \<and>
   p_respCh (sample_busy meth) = [zero_msg\<lparr>m_Type := ERROR, m_TxId := ''t1''\<rparr>] \<and>
   map_option m_Request (p_Tx (sample_busy meth)) = Some (Some (zero_req\<lparr>req_Method := meth\<rparr>)) \<and>
   p_chainID (sample_busy meth) = ''chain1'' \<and> getTxId (sample_busy meth) = ''t1''"
  by (simp add: sample_busy_def sample_events_def sample_env_def sample_tx_def sample_launch_def
      sample_new_def NewProcess_def proc_step_def listenProcess_def launchStart_def SetStream_def
      handleTxRequest_def process_PutMsg_def updateProcessState_ok timer_ok_def timed_def Let_def
      removeTxTime_def setDefaultConfigs_def second_def EnterNextStep_def endTxStep_def addTxStep_def
      zero_msg_def getTxId_def)

lemma sample_busy_reach: "proc_reach setDefaultConfigs (sample_busy meth)"
proof -
  obtain p out where r: "proc_run setDefaultConfigs (sample_events meth) sample_new = Some (p, out)"
    using sample_busy_run by fastforce
  have "list_all (\<lambda>(en, ev). env_ok en \<and> ev_ok ev) (sample_events meth)"
    by (simp add: sample_events_def env_ok_def sample_env_def sample_tx_def tx_ok_def)
  from proc_run_reach[OF sample_new_reach this r] r show ?thesis by (simp add: sample_busy_def)
qed

section \<open>Properties\<close>



text \<open>
  C3: when the sandbox of a process exits, for whatever reason and in whatever state, the
  listener either ends or starts the sandbox again; and a transaction that was being executed is
  answered exactly once, with the runtime panic or the timeout error, while one popped because
  the contract could not be executed is answered with that error and one whose contract file was
  missing goes back to the scheduler unchanged.  In every other state nothing is sent to the
  scheduler.
\<close>

theorem process_exit_answers:
  assumes "proc_reach cfg p" and "env_ok en"
  shows "\<exists>p' out rel. handleProcessExit cfg en ee p = Val (p', out, rel) \<and>
    (\<not> rel \<longrightarrow> GoStartProcess \<in> set out) \<and>
    sched_msgs out = exit_answer en (fst (normal_exit ee)) p"
proof -
  have inv: "proc_inv p" by (rule reach_inv[OF assms(1)])
  obtain p' out rel where h: "handleProcessExit cfg en ee p = Val (p', out, rel)"
    "\<not> rel \<longrightarrow> GoStartProcess \<in> set out"
    using handleProcessExit_total[OF inv assms(2), of cfg ee] by blast
  obtain p1 pl rel1 where b: "exit_branch cfg en (fst (normal_exit ee)) p = Val (p1, pl, rel1)"
    using exit_branch_good[OF inv assms(2)] by blast
  with h(1) have "exit_outputs en (normal_exit ee) p1 pl = Val out"
    by (auto simp: handleProcessExit_def Let_def split: if_splits)
  from exit_outputs_sched[OF this] exit_branch_answer[OF inv b] h show ?thesis by simp
qed

theorem process_exit_answers_witness:
  "\<exists>p' out rel. handleProcessExit setDefaultConfigs sample_env None (sample_busy ''invoke'') = Val (p', out, rel) \<and>
    (\<not> rel \<longrightarrow> GoStartProcess \<in> set out) \<and>
    sched_msgs out = [txErrorResp ''chain1'' ''t1'' RuntimePanicError]"
proof -
  have "env_ok sample_env" by (simp add: env_ok_def sample_env_def)
  from process_exit_answers[OF sample_busy_reach this, of None "''invoke''"] show ?thesis
    by (simp add: exit_answer_def normal_exit_def sample_busy_run)
qed

text \<open>
  C15: \<open>killProcess\<close> takes the only token of \<open>cmdReadyCh\<close>.  After a failed \<open>init_contract\<close> or
  \<open>upgrade\<close> has signalled the sandbox, a ready timeout makes the process idle, and from then
  on \<open>CloseSandbox\<close> and \<open>ChangeSandbox\<close>, which the process manager calls, block for good.
\<close>

theorem failed_init_blocks_manager:
  assumes "proc_reach cfg p" and "p_processState p = busy" and "p_cmdReadyCh p = 1"
    and "p_Tx p = Some tx" and "m_Request tx = Some r" and "is_init_or_upgrade r"
    and "p_respCh p = [msg]" and "m_Type msg = ERROR"
    and "pe_sigErr en = None" and "pe_stateErr en = None"
  shows "\<exists>p' out. proc_run cfg [(en, EvResp), (en, EvFire), (en, EvTimer)] p = Some (p', out) \<and>
    p_processState p' = idle \<and> CloseSandbox cfg en' p' = Block \<and>
    (pe_groupOk en' \<longrightarrow> ChangeSandbox cfg en' c n v nm p' = Block)"
proof -
  have "timer_ok p" "p_cmd p" using reach_inv[OF assms(1)] assms(3) by (simp_all add: proc_inv_def)
  then show ?thesis
    using assms(2-)
    by (simp add: proc_step_def listenProcess_def handleTxResp_def handleTimeout_def killProcess_def
        updateProcessState_ok timed_def timer_ok_def timer_fire_def IsReadyOrBusy_def Let_def
        CloseSandbox_def ChangeSandbox_def resetContext_def)
qed

theorem failed_init_blocks_manager_witness:
  "\<exists>p' out. proc_run setDefaultConfigs [(sample_env, EvResp), (sample_env, EvFire), (sample_env, EvTimer)]
      (sample_busy initContract) = Some (p', out) \<and>
    p_processState p' = idle \<and> CloseSandbox setDefaultConfigs sample_env p' = Block"
proof -
  obtain tx where "p_Tx (sample_busy initContract) = Some tx"
    "m_Request tx = Some (zero_req\<lparr>req_Method := initContract\<rparr>)"
    using sample_busy_run[of initContract] by auto
  note tx = this
  have msg: "p_respCh (sample_busy initContract) = [zero_msg\<lparr>m_Type := ERROR, m_TxId := ''t1''\<rparr>]"
    and st: "p_processState (sample_busy initContract) = busy" "p_cmdReadyCh (sample_busy initContract) = 1"
    using sample_busy_run[of initContract] by simp_all
  have env: "pe_sigErr sample_env = None" "pe_stateErr sample_env = None"
    by (simp_all add: sample_env_def)
  have "\<exists>p' out. proc_run setDefaultConfigs [(sample_env, EvResp), (sample_env, EvFire), (sample_env, EvTimer)]
      (sample_busy initContract) = Some (p', out) \<and>
    p_processState p' = idle \<and> CloseSandbox setDefaultConfigs sample_env p' = Block \<and>
    (pe_groupOk sample_env \<longrightarrow> ChangeSandbox setDefaultConfigs sample_env [] [] [] [] p' = Block)"
    by (rule failed_init_blocks_manager[OF sample_busy_reach st tx _ msg _ env])
      (simp_all add: is_init_or_upgrade_def)
  then show ?thesis by blast
qed

end
