(* ===== verification/Request_Group.thy ===== *)
theory Request_Group
  imports Process Paths
begin

text \<open>
  The request group of a contract, \<open>core/request_group.go\<close>.  It buffers transactions until the
  contract's binary is available, then hands them to the processes through two channels, one
  for original and one for cross-contract transactions, and asks the process managers for
  processes.

  The group runs in one goroutine, so every case of its \<open>select\<close> is one step.  A send on a full
  channel of its own, or a receive from an empty one, blocks it for ever, because nobody else
  empties or fills \<open>bufCh\<close>.  Messages to the scheduler, the contract manager and the process
  managers are outputs; what their \<open>PutMsg\<close> returns, what the process managers count and the
  clock are read from \<open>rg_env\<close>.
\<close>

section \<open>State\<close>

definition requestGroupTxChSize :: int where "requestGroupTxChSize = 50000"
definition requestGroupEventChSize :: int where "requestGroupEventChSize = 100"
definition origTxChSize :: int where "origTxChSize = 50000"
definition crossTxChSize :: int where "crossTxChSize = 10000"
definition getByteCodeTimeout :: int where "getByteCodeTimeout = 6"

datatype contractState = contractEmpty | contractWaiting | contractReady

record txController =
  tc_txCh :: "TxPayload list"
  tc_processWaiting :: bool

datatype rg_msg =
    RgProcessResp GetProcessRespMsg
  | RgBadContract BadContractResp
  | RgTx DockerVMMessage
  | RgClose
  | RgUnknown

record RequestGroup =
  rg_chainID :: string
  rg_contractName :: string
  rg_contractVersion :: string
  rg_contractState :: contractState
  rg_eventCh :: "rg_msg list"
  rg_txCh :: "DockerVMMessage list"
  rg_bufCh :: "DockerVMMessage list"
  rg_stopCh :: nat
  rg_getBytecodeTimer :: go_timer
  rg_origTxController :: txController
  rg_crossTxController :: txController
  rg_ContractFileVersion :: int
  rg_exited :: bool

text \<open>
  \<open>rg_stopCh\<close> counts the senders that wait on the unbuffered \<open>stopCh\<close>; \<open>rg_exited\<close> holds once the
  goroutine has returned.
\<close>

record rg_env =
  re_processNum :: "bool \<Rightarrow> int"
  re_readyOrBusyNum :: "bool \<Rightarrow> int"
  re_clk :: "nat \<Rightarrow> int"
  re_schedErr :: "error option"
  re_cmErr :: "error option"
  re_pmErr :: "error option"
  re_mountDir :: string

datatype rg_out =
    RgToScheduler DockerVMMessage
  | RgGetContract DockerVMMessage
  | RgRemoveContract BadContractResp
  | RgGetProcess bool GetProcessReqMsg

type_synonym 'r rg_act = "(RequestGroup \<times> rg_out list \<times> 'r) go"

definition NewRequestGroup :: "string \<Rightarrow> string \<Rightarrow> string \<Rightarrow> RequestGroup" where
  "NewRequestGroup chainID contractName contractVersion =
     \<lparr>rg_chainID = chainID, rg_contractName = contractName, rg_contractVersion = contractVersion,
      rg_contractState = contractEmpty, rg_eventCh = [], rg_txCh = [], rg_bufCh = [], rg_stopCh = 0,
      rg_getBytecodeTimer = \<lparr>t_active = True, t_chan = False, t_duration = 2147483647 * second\<rparr>,
      rg_origTxController = \<lparr>tc_txCh = [], tc_processWaiting = False\<rparr>,
      rg_crossTxController = \<lparr>tc_txCh = [], tc_processWaiting = False\<rparr>,
      rg_ContractFileVersion = 0, rg_exited = False\<rparr>"

definition rg_PutMsg :: "rg_msg \<Rightarrow> RequestGroup \<Rightarrow> (RequestGroup \<times> error option) go" where
  "rg_PutMsg msg r = (case msg of
       RgTx req \<Rightarrow>
         if int (length (rg_txCh r)) \<ge> requestGroupTxChSize then Block
         else Val (r\<lparr>rg_txCh := rg_txCh r @ [req]\<rparr>, None)
     | RgClose \<Rightarrow> Val (r\<lparr>rg_stopCh := rg_stopCh r + 1\<rparr>, None)
     | RgUnknown \<Rightarrow> Val (r, Some ''unknown msg type'')
     | _ \<Rightarrow>
         if int (length (rg_eventCh r)) \<ge> requestGroupEventChSize then Block
         else Val (r\<lparr>rg_eventCh := rg_eventCh r @ [msg]\<rparr>, None))"

definition GetContractPath :: "rg_env \<Rightarrow> RequestGroup \<Rightarrow> string" where
  "GetContractPath en r =
     filepath_Join [re_mountDir en, contract_key (rg_chainID r) (rg_contractName r) (rg_contractVersion r)]"

definition GetContractFileVersion :: "RequestGroup \<Rightarrow> int" where
  "GetContractFileVersion r = rg_ContractFileVersion r"

definition controller :: "bool \<Rightarrow> RequestGroup \<Rightarrow> txController" where
  "controller isOrig r = (if isOrig then rg_origTxController r else rg_crossTxController r)"

definition GetTxCh :: "bool \<Rightarrow> RequestGroup \<Rightarrow> TxPayload list" where
  "GetTxCh isOrig r = tc_txCh (controller isOrig r)"

section \<open>Operations\<close>

definition updateControllerState :: "bool \<Rightarrow> bool \<Rightarrow> RequestGroup \<Rightarrow> RequestGroup" where
  "updateControllerState isOrig toWaiting r =
     (if isOrig
      then r\<lparr>rg_origTxController := (rg_origTxController r)\<lparr>tc_processWaiting := toWaiting\<rparr>\<rparr>
      else r\<lparr>rg_crossTxController := (rg_crossTxController r)\<lparr>tc_processWaiting := toWaiting\<rparr>\<rparr>)"

definition rg_returnTxErrorResp :: "rg_env \<Rightarrow> string \<Rightarrow> string \<Rightarrow> RequestGroup \<Rightarrow> rg_out list \<times> error option" where
  "rg_returnTxErrorResp en txId errMsg r =
     (case re_schedErr en of
        None \<Rightarrow> ([RgToScheduler (zero_msg\<lparr>m_ChainId := rg_chainID r, m_Type := ERROR, m_TxId := txId,
           m_Response := Some (zero_resp\<lparr>resp_Code := FAIL, resp_Result := None, resp_Message := errMsg\<rparr>)\<rparr>)], None)
      | Some e \<Rightarrow> ([], Some (''failed to invoke request scheduler PutMsg, '' @ e)))"

definition enqueueCh :: "chain_consts \<Rightarrow> int \<Rightarrow> DockerVMMessage \<Rightarrow> RequestGroup \<Rightarrow> RequestGroup go" where
  "enqueueCh K now req r = go_bind (IsOrig K req) (\<lambda>isOrig.
     if isOrig
     then (if int (length (tc_txCh (rg_origTxController r))) \<ge> origTxChSize then Block
           else Val (r\<lparr>rg_origTxController := (rg_origTxController r)\<lparr>tc_txCh :=
                  tc_txCh (rg_origTxController r) @ [\<lparr>tp_Tx = req, tp_StartTime = now\<rparr>]\<rparr>\<rparr>))
     else (if int (length (tc_txCh (rg_crossTxController r))) \<ge> crossTxChSize then Block
           else Val (r\<lparr>rg_crossTxController := (rg_crossTxController r)\<lparr>tc_txCh :=
                  tc_txCh (rg_crossTxController r) @ [\<lparr>tp_Tx = req, tp_StartTime = now\<rparr>]\<rparr>\<rparr>)))"

definition depth_msg :: "chain_consts \<Rightarrow> string" where
  "depth_msg K = ''current depth exceed '' @ Itoa (uint (CallContractDepth K))"

definition putTxReqToCh ::
  "chain_consts \<Rightarrow> rg_env \<Rightarrow> DockerVMMessage \<Rightarrow> RequestGroup \<Rightarrow> error option rg_act" where
  "putTxReqToCh K en req r = (case m_CrossContext req of
       None \<Rightarrow> Val (r, [], Some ''nil cross context'')
     | Some cc \<Rightarrow>
         if CurrentDepth cc > CallContractDepth K
         then (case m_Request req of
             None \<Rightarrow> Panic
           | Some rq \<Rightarrow> (case re_schedErr en of
               None \<Rightarrow> Val (r, [RgToScheduler (zero_msg\<lparr>m_ChainId := rg_chainID r, m_TxId := m_TxId req,
                   m_Type := ERROR, m_Response := Some (zero_resp\<lparr>resp_Code := FAIL,
                     resp_Message := depth_msg K, resp_ChainId := rg_chainID r,
                     resp_ContractName := req_ContractName rq,
                     resp_ContractVersion := req_ContractVersion rq\<rparr>)\<rparr>)],
                 Some (''failed to put msg into request scheduler, '' @ depth_msg K))
             | Some e \<Rightarrow> Val (r, [],
                 Some (''failed to put msg into request scheduler, '' @ depth_msg K @ '', '' @ e))))
         else go_bind (enqueueCh K (re_clk en 0) req r) (\<lambda>r1. Val (r1, [], None)))"

definition getProcesses :: "rg_env \<Rightarrow> bool \<Rightarrow> RequestGroup \<Rightarrow> RequestGroup \<times> rg_out list \<times> int \<times> error option" where
  "getProcesses en isOrig r =
     (if tc_processWaiting (controller isOrig r) \<or> rg_contractState r \<noteq> contractReady then (r, [], 0, None)
      else
        let processNum = re_processNum en isOrig;
            readyOrBusyProcessNum = re_readyOrBusyNum en isOrig;
            needProcessNum = int (length (GetTxCh isOrig r)) - (processNum - readyOrBusyProcessNum)
        in if needProcessNum > 0
           then let req = \<lparr>gpr_ChainID = rg_chainID r, gpr_ContractName = rg_contractName r,
                    gpr_ContractVersion = rg_contractVersion r, gpr_ProcessNum = needProcessNum\<rparr>;
                  r1 = updateControllerState isOrig True r
                in (case re_pmErr en of
                      None \<Rightarrow> (r1, [RgGetProcess isOrig req], needProcessNum, None)
                    | Some e \<Rightarrow> (r1, [], 0, Some e))
           else (r, [], needProcessNum, None))"

definition sendGetContractReq :: "rg_env \<Rightarrow> string \<Rightarrow> RequestGroup \<Rightarrow> RequestGroup \<times> rg_out list \<times> error option" where
  "sendGetContractReq en txId r = (case re_cmErr en of
       Some e \<Rightarrow> (r, [], Some (''failed to put get bytecode req into contract manager chan, '' @ e))
     | None \<Rightarrow> (r\<lparr>rg_getBytecodeTimer := timer_Reset (getByteCodeTimeout * second) (rg_getBytecodeTimer r),
                 rg_contractState := contractWaiting\<rparr>,
         [RgGetContract (zero_msg\<lparr>m_ChainId := rg_chainID r, m_TxId := txId, m_Type := GET_BYTECODE_REQUEST,
            m_Request := Some (zero_req\<lparr>req_ChainId := rg_chainID r, req_ContractName := rg_contractName r,
              req_ContractVersion := rg_contractVersion r\<rparr>)\<rparr>)], None))"

section \<open>Handlers\<close>

definition buf_send :: "DockerVMMessage \<Rightarrow> RequestGroup \<Rightarrow> RequestGroup go" where
  "buf_send req r = (if int (length (rg_bufCh r)) \<ge> requestGroupTxChSize then Block
     else Val (r\<lparr>rg_bufCh := rg_bufCh r @ [req]\<rparr>))"

definition handleTxReq :: "chain_consts \<Rightarrow> rg_env \<Rightarrow> DockerVMMessage \<Rightarrow> RequestGroup \<Rightarrow> error option rg_act" where
  "handleTxReq K en req r = (case rg_contractState r of
       contractEmpty \<Rightarrow> go_bind (buf_send req r) (\<lambda>r1.
         let (r2, out, e) = sendGetContractReq en (m_TxId req) r1
         in Val (r2, out, map_option (\<lambda>_. ''failed to send get contract req'') e))
     | contractWaiting \<Rightarrow> go_bind (buf_send req r) (\<lambda>r1. Val (r1, [], None))
     | contractReady \<Rightarrow> go_bind (putTxReqToCh K en req r) (\<lambda>(r1, out, e). case e of
           Some e \<Rightarrow> Val (r1, out, Some (''failed to handle tx request, '' @ e))
         | None \<Rightarrow> go_bind (IsOrig K req) (\<lambda>isOrig.
             let (r2, out2, n, e) = getProcesses en isOrig r1
             in Val (r2, out @ out2, map_option (\<lambda>e. ''failed to get processes, '' @ e) e))))"

definition handleBadContractResp ::
  "rg_env \<Rightarrow> BadContractResp \<Rightarrow> RequestGroup \<Rightarrow> RequestGroup \<times> rg_out list \<times> error option" where
  "handleBadContractResp en msg r =
     (if rg_contractState r \<noteq> contractReady \<or> bcr_ContractFileVersion msg \<noteq> rg_ContractFileVersion r
      then (r, [], None)
      else case re_cmErr en of
        Some e \<Rightarrow> (r, [], Some (''failed to invoke contract manager PutMsg, '' @ e))
      | None \<Rightarrow>
          let r1 = r\<lparr>rg_contractState := contractEmpty\<rparr>
          in if tc_txCh (rg_origTxController r1) \<noteq> [] \<or> tc_txCh (rg_crossTxController r1) \<noteq> []
             then let (r2, out, e) = sendGetContractReq en (m_TxId (bcr_Tx msg)) r1
                  in (r2, RgRemoveContract msg # out, map_option (\<lambda>e. ''failed to send get contract req, '' @ e) e)
             else (r1, [RgRemoveContract msg], None))"

definition handleGetBytecodeErr :: "rg_env \<Rightarrow> RequestGroup \<Rightarrow> error option rg_act" where
  "handleGetBytecodeErr en r =
     (let r1 = r\<lparr>rg_contractState := contractEmpty\<rparr>
      in case rg_bufCh r1 of
           [] \<Rightarrow> Block
         | tx # txs \<Rightarrow>
             let r2 = r1\<lparr>rg_bufCh := txs\<rparr>;
                 (out, _) = rg_returnTxErrorResp en (m_TxId tx) ''get bytecode error'' r2
             in if txs \<noteq> []
                then let (r3, out2, e) = sendGetContractReq en (m_TxId tx) r2
                     in Val (r3, out @ out2, map_option (\<lambda>e. ''failed to send get contract req, '' @ e) e)
                else Val (r2, out, None))"

definition handleGetBytecodeFailed :: "rg_env \<Rightarrow> RequestGroup \<Rightarrow> error option rg_act" where
  "handleGetBytecodeFailed en r = go_bind (handleGetBytecodeErr en r) (\<lambda>(r1, out, e).
     Val (r1, out, map_option (\<lambda>e. ''failed to handle get bytecode err, '' @ e) e))"

definition handleGetBytecodeTimeout :: "rg_env \<Rightarrow> RequestGroup \<Rightarrow> error option rg_act" where
  "handleGetBytecodeTimeout en r = go_bind (handleGetBytecodeErr en r) (\<lambda>(r1, out, e).
     Val (r1, out, map_option (\<lambda>e. ''failed to handle get bytecode err, '' @ e) e))"

text \<open>The loop \<open>moveTxs\<close> empties the buffer into the channels of the processes.\<close>

fun moveTxs :: "chain_consts \<Rightarrow> rg_env \<Rightarrow> nat \<Rightarrow> DockerVMMessage list \<Rightarrow> RequestGroup \<Rightarrow> RequestGroup go" where
  "moveTxs K en i [] r = Val r"
| "moveTxs K en i (tx # txs) r =
     go_bind (enqueueCh K (re_clk en i) tx (r\<lparr>rg_bufCh := txs\<rparr>)) (moveTxs K en (Suc i) txs)"

definition stop_bytecode_timer :: "RequestGroup \<Rightarrow> RequestGroup" where
  "stop_bytecode_timer r =
     (let (t, stopped) = timer_Stop (rg_getBytecodeTimer r)
      in r\<lparr>rg_getBytecodeTimer := (if \<not> stopped \<and> t_chan t then t\<lparr>t_chan := False\<rparr> else t)\<rparr>)"

definition handleContractReadyResp ::
  "chain_consts \<Rightarrow> rg_env \<Rightarrow> DockerVMMessage \<Rightarrow> RequestGroup \<Rightarrow> error option rg_act" where
  "handleContractReadyResp K en msg r =
     (let r1 = stop_bytecode_timer r
      in case m_Response msg of
           None \<Rightarrow> Panic
         | Some resp \<Rightarrow>
             if resp_Code resp = FAIL
             then go_bind (handleGetBytecodeFailed en r1) (\<lambda>(r2, out, e).
               Val (r2, out, Some (case e of
                   Some e \<Rightarrow> ''failed to handle get bytecode fail, '' @ e
                 | None \<Rightarrow> ''get bytecode response failed'')))
             else let r2 = r1\<lparr>rg_contractState := contractReady, rg_ContractFileVersion := re_clk en 0\<rparr>
               in go_bind (moveTxs K en 1 (rg_bufCh r2) r2) (\<lambda>r3.
                    let (r4, out1, _, _) = getProcesses en True r3;
                        (r5, out2, _, _) = getProcesses en False r4
                    in Val (r5, out1 @ out2, None)))"

definition handleProcessReadyResp ::
  "rg_env \<Rightarrow> GetProcessRespMsg \<Rightarrow> RequestGroup \<Rightarrow> RequestGroup \<times> rg_out list \<times> error option" where
  "handleProcessReadyResp en msg r =
     (let r1 = (if gps_IsOrig msg then updateControllerState True False r
                else updateControllerState False False r);
          (r2, out, n, e) = getProcesses en (gps_IsOrig msg) r1
      in (r2, out, map_option (\<lambda>e. ''failed to handle contract ready resp, '' @ e) e))"

fun popTx :: "rg_env \<Rightarrow> DockerVMMessage list \<Rightarrow> RequestGroup \<Rightarrow> rg_out list" where
  "popTx en [] r = []"
| "popTx en (msg # msgs) r =
     (if m_Type msg = TX_REQUEST
      then fst (rg_returnTxErrorResp en (m_TxId msg) ''tx error because request group exited'' r) else []) @
     popTx en msgs r"

definition handleStopRequestGroup :: "rg_env \<Rightarrow> RequestGroup \<Rightarrow> RequestGroup \<times> rg_out list" where
  "handleStopRequestGroup en r = (r\<lparr>rg_txCh := []\<rparr>, popTx en (rg_txCh r) r)"

section \<open>The loop\<close>

datatype rg_select = SelEvent | SelTx | SelStop | SelTimer

text \<open>One iteration of the loop in \<open>Start\<close>; \<^term>\<open>None\<close> when the chosen case is not ready.\<close>

definition rg_loop ::
  "chain_consts \<Rightarrow> rg_env \<Rightarrow> rg_select \<Rightarrow> RequestGroup \<Rightarrow> (RequestGroup \<times> rg_out list) go option" where
  "rg_loop K en sel r =
     (if rg_exited r then None else case sel of
        SelEvent \<Rightarrow> (case rg_eventCh r of
            [] \<Rightarrow> None
          | msg # msgs \<Rightarrow> Some (let r1 = r\<lparr>rg_eventCh := msgs\<rparr> in case msg of
              RgProcessResp m \<Rightarrow> (case handleProcessReadyResp en m r1 of (r2, out, e) \<Rightarrow> Val (r2, out))
            | RgBadContract m \<Rightarrow> (case handleBadContractResp en m r1 of (r2, out, e) \<Rightarrow> Val (r2, out))
            | _ \<Rightarrow> Val (r1, [])))
      | SelTx \<Rightarrow> (case rg_txCh r of
            [] \<Rightarrow> None
          | msg # msgs \<Rightarrow> Some (let r1 = r\<lparr>rg_txCh := msgs\<rparr> in
              if m_Type msg = TX_REQUEST
              then go_bind (handleTxReq K en msg r1) (\<lambda>(r2, out, e). Val (r2, out))
              else if m_Type msg = GET_BYTECODE_RESPONSE
              then go_bind (handleContractReadyResp K en msg r1) (\<lambda>(r2, out, e). Val (r2, out))
              else Val (r1, [])))
      | SelStop \<Rightarrow>
          if rg_stopCh r = 0 then None
          else Some (let (r1, out) = handleStopRequestGroup en (r\<lparr>rg_stopCh := rg_stopCh r - 1\<rparr>)
                     in Val (r1\<lparr>rg_exited := True\<rparr>, out))
      | SelTimer \<Rightarrow>
          if \<not> t_chan (rg_getBytecodeTimer r) then None
          else Some (go_bind (handleGetBytecodeTimeout en
                 (r\<lparr>rg_getBytecodeTimer := (rg_getBytecodeTimer r)\<lparr>t_chan := False\<rparr>\<rparr>))
               (\<lambda>(r1, out, e). Val (r1, out))))"

section \<open>Where the transactions are\<close>

text \<open>
  The ids of the transactions a group holds, in its own channel, in its buffer and in the two
  channels of the processes, and of those it answered with an error.
\<close>

definition tx_ids :: "DockerVMMessage list \<Rightarrow> string multiset" where
  "tx_ids ms = mset (map m_TxId ms)"

definition ch_ids :: "TxPayload list \<Rightarrow> string multiset" where
  "ch_ids ps = mset (map (m_TxId \<circ> tp_Tx) ps)"

definition held_ids :: "RequestGroup \<Rightarrow> string multiset" where
  "held_ids r = tx_ids (filter (\<lambda>m. m_Type m = TX_REQUEST) (rg_txCh r)) + tx_ids (rg_bufCh r) +
     ch_ids (tc_txCh (rg_origTxController r)) + ch_ids (tc_txCh (rg_crossTxController r))"

fun answered :: "rg_out list \<Rightarrow> string multiset" where
  "answered [] = {#}"
| "answered (RgToScheduler m # out) = add_mset (m_TxId m) (answered out)"
| "answered (_ # out) = answered out"

lemma ids_simps [simp]:
  "tx_ids [] = {#}" "tx_ids (m # ms) = add_mset (m_TxId m) (tx_ids ms)" "tx_ids (ms @ ns) = tx_ids ms + tx_ids ns"
  "ch_ids [] = {#}" "ch_ids (ps @ qs) = ch_ids ps + ch_ids qs" "ch_ids (p # ps) = add_mset (m_TxId (tp_Tx p)) (ch_ids ps)"
  by (simp_all add: tx_ids_def ch_ids_def)

lemma answered_append [simp]: "answered (a @ b) = answered a + answered b"
  by (induction a rule: answered.induct) simp_all

lemma held_frame [simp]:
  "held_ids (r\<lparr>rg_contractState := cs\<rparr>) = held_ids r" "held_ids (r\<lparr>rg_getBytecodeTimer := t\<rparr>) = held_ids r"
  "held_ids (r\<lparr>rg_ContractFileVersion := v\<rparr>) = held_ids r" "held_ids (r\<lparr>rg_eventCh := ev\<rparr>) = held_ids r"
  "held_ids (r\<lparr>rg_stopCh := n\<rparr>) = held_ids r" "held_ids (r\<lparr>rg_exited := b\<rparr>) = held_ids r"
  "held_ids (updateControllerState o1 w r) = held_ids r"
  by (simp_all add: held_ids_def updateControllerState_def)

lemma getProcesses_ids:
  "getProcesses en isOrig r = (r', out, n, e) \<Longrightarrow> held_ids r' = held_ids r \<and> answered out = {#}"
  by (auto simp: getProcesses_def Let_def split: if_splits option.splits)

lemma sendGetContractReq_ids:
  "sendGetContractReq en txId r = (r', out, e) \<Longrightarrow> held_ids r' = held_ids r \<and> answered out = {#}"
  by (auto simp: sendGetContractReq_def split: option.splits)

lemma enqueueCh_ids:
  "enqueueCh K now req r = Val r' \<Longrightarrow> held_ids r' = add_mset (m_TxId req) (held_ids r)"
  by (auto simp: enqueueCh_def held_ids_def split: if_splits)

lemma held_pop: "rg_bufCh r = tx # txs \<Longrightarrow> held_ids r = add_mset (m_TxId tx) (held_ids (r\<lparr>rg_bufCh := txs\<rparr>))"
  by (simp add: held_ids_def)

lemma moveTxs_ids:
  "moveTxs K en i txs r = Val r' \<Longrightarrow> rg_bufCh r = txs \<Longrightarrow> held_ids r' = held_ids r \<and> rg_bufCh r' = []"
proof (induction txs arbitrary: i r)
  case (Cons tx txs)
  then obtain r1 where r1: "enqueueCh K (re_clk en i) tx (r\<lparr>rg_bufCh := txs\<rparr>) = Val r1"
    "moveTxs K en (Suc i) txs r1 = Val r'" by auto
  have "rg_bufCh r1 = txs" using r1(1) by (auto simp: enqueueCh_def split: if_splits)
  then show ?case using Cons.IH[OF r1(2)] enqueueCh_ids[OF r1(1)] held_pop[OF Cons.prems(2)] by simp
qed simp

lemma putTxReqToCh_ids:
  assumes "putTxReqToCh K en req r = Val (r', out, e)" "m_CrossContext req \<noteq> None" "re_schedErr en = None"
  shows "held_ids r' + answered out = add_mset (m_TxId req) (held_ids r) \<and> (e = None \<longrightarrow> answered out = {#})"
  using assms by (auto simp: putTxReqToCh_def split: if_splits option.splits dest!: enqueueCh_ids)

lemma handleTxReq_ids:
  assumes "handleTxReq K en req r = Val (r', out, e)" "m_CrossContext req \<noteq> None" "re_schedErr en = None"
  shows "held_ids r' + answered out = add_mset (m_TxId req) (held_ids r)"
proof (cases "rg_contractState r")
  case contractReady
  then obtain r1 o1 e1 where p: "putTxReqToCh K en req r = Val (r1, o1, e1)"
    using assms(1) by (auto simp: handleTxReq_def)
  note q = putTxReqToCh_ids[OF p assms(2,3)]
  show ?thesis
  proof (cases e1)
    case None
    then obtain isOrig where i: "IsOrig K req = Val isOrig"
      using assms(1) contractReady p by (auto simp: handleTxReq_def)
    obtain r2 o2 n2 e2 where g: "getProcesses en isOrig r1 = (r2, o2, n2, e2)" by (metis prod_cases3)
    then have "r' = r2" "out = o1 @ o2" using assms(1) contractReady p i None by (simp_all add: handleTxReq_def)
    then show ?thesis using getProcesses_ids[OF g] q by simp
  qed (use assms(1) contractReady p q in \<open>simp add: handleTxReq_def\<close>)
qed (use assms(1) in \<open>auto simp: handleTxReq_def buf_send_def held_ids_def Let_def split: if_splits prod.splits
    dest!: sendGetContractReq_ids\<close>)

lemma bad_contract_ids:
  "handleBadContractResp en msg r = (r', out, e) \<Longrightarrow> held_ids r' = held_ids r \<and> answered out = {#}"
  by (auto simp: handleBadContractResp_def Let_def split: if_splits option.splits prod.splits
      dest!: sendGetContractReq_ids)

lemma process_ready_ids:
  "handleProcessReadyResp en msg r = (r', out, e) \<Longrightarrow> held_ids r' = held_ids r \<and> answered out = {#}"
  by (auto simp: handleProcessReadyResp_def Let_def split: prod.splits dest!: getProcesses_ids)

lemma bytecode_err_ids:
  assumes "handleGetBytecodeErr en r = Val (r', out, e)" "re_schedErr en = None"
  shows "held_ids r' + answered out = held_ids r"
proof (cases "rg_bufCh r")
  case (Cons tx txs)
  define r1 where "r1 = r\<lparr>rg_contractState := contractEmpty, rg_bufCh := txs\<rparr>"
  have h: "held_ids r = add_mset (m_TxId tx) (held_ids r1)"
    using held_pop[OF Cons] by (simp add: r1_def held_ids_def)
  obtain r2 o2 e2 where g: "sendGetContractReq en (m_TxId tx) r1 = (r2, o2, e2)" by (metis prod_cases3)
  show ?thesis
    using assms Cons h g sendGetContractReq_ids[OF g]
    by (auto simp: handleGetBytecodeErr_def Let_def rg_returnTxErrorResp_def r1_def split: if_splits)
qed (use assms in \<open>simp add: handleGetBytecodeErr_def\<close>)

lemma contract_ready_ids:
  assumes "handleContractReadyResp K en msg r = Val (r', out, e)" "re_schedErr en = None"
  shows "held_ids r' + answered out = held_ids r"
proof -
  have stop: "held_ids (stop_bytecode_timer r) = held_ids r" by (simp add: stop_bytecode_timer_def Let_def split: prod.split)
  obtain resp where resp: "m_Response msg = Some resp"
    using assms(1) by (cases "m_Response msg") (simp_all add: handleContractReadyResp_def)
  show ?thesis
  proof (cases "resp_Code resp = FAIL")
    case True
    then obtain e' where "handleGetBytecodeErr en (stop_bytecode_timer r) = Val (r', out, e')"
      using assms(1) resp by (auto simp: handleContractReadyResp_def handleGetBytecodeFailed_def Let_def)
    then show ?thesis using bytecode_err_ids[OF _ assms(2)] stop by simp
  next
    case False
    let ?r = "(stop_bytecode_timer r)\<lparr>rg_contractState := contractReady, rg_ContractFileVersion := re_clk en 0\<rparr>"
    obtain r3 where m: "moveTxs K en 1 (rg_bufCh ?r) ?r = Val r3"
      using assms(1) resp False by (auto simp: handleContractReadyResp_def Let_def)
    obtain r4 o4 n4 e4 where g: "getProcesses en True r3 = (r4, o4, n4, e4)" by (metis prod_cases3)
    obtain r5 o5 n5 e5 where h: "getProcesses en False r4 = (r5, o5, n5, e5)" by (metis prod_cases3)
    have "r' = r5" "out = o4 @ o5"
      using assms(1) resp False m g h by (simp_all add: handleContractReadyResp_def Let_def)
    then show ?thesis
      using moveTxs_ids[OF m refl] getProcesses_ids[OF g] getProcesses_ids[OF h] stop by simp
  qed
qed

lemma popTx_ids:
  "re_schedErr en = None \<Longrightarrow> answered (popTx en ms r) = tx_ids (filter (\<lambda>m. m_Type m = TX_REQUEST) ms)"
  by (induction ms) (simp_all add: rg_returnTxErrorResp_def)

section \<open>The invariant of a group\<close>

definition tx_msg_ok :: "DockerVMMessage \<Rightarrow> bool" where
  "tx_msg_ok m \<longleftrightarrow> (m_Type m = TX_REQUEST \<longrightarrow> m_CrossContext m \<noteq> None \<and> m_Request m \<noteq> None) \<and>
     (m_Type m = GET_BYTECODE_RESPONSE \<longrightarrow> m_Response m \<noteq> None)"

definition rg_inv :: "RequestGroup \<Rightarrow> bool" where
  "rg_inv r \<longleftrightarrow> (\<forall>m\<in>set (rg_txCh r). tx_msg_ok m) \<and> (\<forall>m\<in>set (rg_bufCh r). m_CrossContext m \<noteq> None) \<and>
     (rg_contractState r \<noteq> contractWaiting \<longrightarrow> rg_bufCh r = [])"

definition calls_ok :: "rg_env \<Rightarrow> bool" where
  "calls_ok en \<longleftrightarrow> re_schedErr en = None \<and> re_cmErr en = None"

text \<open>What the handlers leave alone.\<close>

lemma getProcesses_frame:
  "getProcesses en isOrig r = (r', out, n, e) \<Longrightarrow> rg_txCh r' = rg_txCh r \<and> rg_bufCh r' = rg_bufCh r \<and>
     rg_contractState r' = rg_contractState r"
  by (auto simp: getProcesses_def updateControllerState_def Let_def split: if_splits option.splits)

lemma enqueueCh_frame:
  "enqueueCh K now req r = Val r' \<Longrightarrow> rg_txCh r' = rg_txCh r \<and> rg_bufCh r' = rg_bufCh r \<and>
     rg_contractState r' = rg_contractState r"
  by (auto simp: enqueueCh_def split: if_splits)

lemma moveTxs_frame:
  "moveTxs K en i txs r = Val r' \<Longrightarrow> rg_txCh r' = rg_txCh r \<and> rg_contractState r' = rg_contractState r"
proof (induction txs arbitrary: i r)
  case (Cons tx txs)
  then show ?case by (fastforce dest: enqueueCh_frame)
qed simp

lemma enqueue_no_panic: "m_CrossContext req \<noteq> None \<Longrightarrow> enqueueCh K now req r \<noteq> Panic"
  by (auto simp: enqueueCh_def IsOrig_def split: option.splits)

lemma moveTxs_no_panic: "\<forall>m\<in>set txs. m_CrossContext m \<noteq> None \<Longrightarrow> moveTxs K en i txs r \<noteq> Panic"
proof (induction txs arbitrary: i r)
  case (Cons tx txs)
  then show ?case
    using enqueue_no_panic[of tx K "re_clk en i" "r\<lparr>rg_bufCh := txs\<rparr>"]
    by (cases "enqueueCh K (re_clk en i) tx (r\<lparr>rg_bufCh := txs\<rparr>)") auto
qed simp

fun rg_good :: "'r rg_act \<Rightarrow> bool" where
  "rg_good (Val (r, out, x)) = rg_inv r"
| "rg_good Block = True"
| "rg_good Panic = False"

lemma tx_good:
  assumes "rg_inv r" "m_CrossContext req \<noteq> None" "m_Request req \<noteq> None" "calls_ok en"
  shows "rg_good (handleTxReq K en req r)"
proof (cases "rg_contractState r")
  case contractReady
  obtain cc rq where c: "m_CrossContext req = Some cc" "m_Request req = Some rq" using assms(2,3) by auto
  show ?thesis
  proof (cases "CurrentDepth cc > CallContractDepth K")
    case True
    then show ?thesis
      using assms contractReady c by (simp add: handleTxReq_def putTxReqToCh_def calls_ok_def)
  next
    case False
    show ?thesis
    proof (cases "enqueueCh K (re_clk en 0) req r")
      case (Val r1)
      obtain isOrig where "IsOrig K req = Val isOrig" using c by (simp add: IsOrig_def)
      moreover obtain r2 o2 n2 e2 where g: "getProcesses en isOrig r1 = (r2, o2, n2, e2)" by (metis prod_cases3)
      ultimately show ?thesis
        using assms(1) contractReady c False Val g enqueueCh_frame[OF Val] getProcesses_frame[OF g]
        by (simp add: handleTxReq_def putTxReqToCh_def rg_inv_def)
    qed (use contractReady c False enqueue_no_panic[OF assms(2)] in \<open>simp_all add: handleTxReq_def putTxReqToCh_def\<close>)
  qed
qed (use assms in \<open>auto simp: handleTxReq_def buf_send_def rg_inv_def sendGetContractReq_def calls_ok_def Let_def\<close>)

lemma bytecode_err_good:
  assumes "rg_inv r" "calls_ok en"
  shows "rg_good (handleGetBytecodeErr en r)"
  using assms
  by (cases "rg_bufCh r") (auto simp: handleGetBytecodeErr_def rg_inv_def sendGetContractReq_def calls_ok_def
      rg_returnTxErrorResp_def Let_def split: list.split)

lemma good_bind: "rg_good m \<Longrightarrow> rg_good (go_bind m (\<lambda>(r, out, e). Val (r, out, f e)))"
  by (cases m rule: rg_good.cases) auto

lemma contract_ready_good:
  assumes inv: "rg_inv r" and "m_Response msg = Some resp" and en: "calls_ok en"
  shows "rg_good (handleContractReadyResp K en msg r)"
proof -
  have st: "rg_inv (stop_bytecode_timer r)" "rg_bufCh (stop_bytecode_timer r) = rg_bufCh r"
    using inv by (simp_all add: stop_bytecode_timer_def rg_inv_def Let_def split: prod.split)
  show ?thesis
  proof (cases "resp_Code resp = FAIL")
    case True
    then show ?thesis
      using assms(2) bytecode_err_good[OF st(1) en]
      by (simp add: handleContractReadyResp_def handleGetBytecodeFailed_def Let_def good_bind)
  next
    case False
    let ?r = "(stop_bytecode_timer r)\<lparr>rg_contractState := contractReady, rg_ContractFileVersion := re_clk en 0\<rparr>"
    show ?thesis
    proof (cases "moveTxs K en 1 (rg_bufCh ?r) ?r")
      case (Val r3)
      obtain r4 o4 n4 e4 where g: "getProcesses en True r3 = (r4, o4, n4, e4)" by (metis prod_cases3)
      obtain r5 o5 n5 e5 where h: "getProcesses en False r4 = (r5, o5, n5, e5)" by (metis prod_cases3)
      have "rg_inv r5"
        using st(1) moveTxs_frame[OF Val] moveTxs_ids[OF Val refl] getProcesses_frame[OF g] getProcesses_frame[OF h]
        by (simp add: rg_inv_def)
      then show ?thesis using assms(2) False Val g h by (simp add: handleContractReadyResp_def Let_def)
    next
      case Panic
      then show ?thesis using moveTxs_no_panic inv st(2) by (simp add: rg_inv_def)
    qed (use assms(2) False in \<open>simp add: handleContractReadyResp_def Let_def\<close>)
  qed
qed

lemma process_ready_inv: "handleProcessReadyResp en msg r = (r', out, e) \<Longrightarrow> rg_inv r \<Longrightarrow> rg_inv r'"
  by (auto simp: handleProcessReadyResp_def rg_inv_def updateControllerState_def Let_def
      split: prod.splits if_splits dest!: getProcesses_frame)

lemma bad_contract_inv: "handleBadContractResp en msg r = (r', out, e) \<Longrightarrow> rg_inv r \<Longrightarrow> rg_inv r'"
  by (auto simp: handleBadContractResp_def rg_inv_def sendGetContractReq_def Let_def split: if_splits option.splits)

text \<open>
  One iteration of the loop: it blocks, or keeps the invariant and accounts for every
  transaction.
\<close>

definition loop_good :: "RequestGroup \<Rightarrow> (RequestGroup \<times> rg_out list) go \<Rightarrow> bool" where
  "loop_good r m \<longleftrightarrow> m = Block \<or> (\<exists>r' out. m = Val (r', out) \<and> rg_inv r' \<and> held_ids r' + answered out = held_ids r)"

lemma act_loop_good:
  fixes m :: "error option rg_act"
  assumes "rg_good m" "\<And>r' out e. m = Val (r', out, e) \<Longrightarrow> held_ids r' + answered out = held_ids r"
  shows "loop_good r (go_bind m (\<lambda>(r2, out, e). Val (r2, out)))"
  using assms by (cases m rule: rg_good.cases) (auto simp: loop_good_def)

lemma loop_takes_event:
  assumes "rg_loop K en SelEvent r = Some m"
  obtains msg msgs where "rg_eventCh r = msg # msgs"
  using assms by (auto simp: rg_loop_def split: if_splits list.splits)

lemma loop_takes_tx:
  assumes "rg_loop K en SelTx r = Some m"
  obtains msg msgs where "rg_txCh r = msg # msgs"
  using assms by (auto simp: rg_loop_def split: if_splits list.splits)

lemma loop_event_good:
  assumes inv: "rg_inv r" and l: "rg_loop K en SelEvent r = Some m"
  shows "loop_good r m"
proof -
  obtain msg msgs where ev: "rg_eventCh r = msg # msgs" using l by (rule loop_takes_event)
  have inv1: "rg_inv (r\<lparr>rg_eventCh := msgs\<rparr>)" using inv by (simp add: rg_inv_def)
  show ?thesis
  proof (cases msg)
    case (RgProcessResp pm)
    obtain r2 out e where h: "handleProcessReadyResp en pm (r\<lparr>rg_eventCh := msgs\<rparr>) = (r2, out, e)" by (metis prod_cases3)
    then show ?thesis
      using l ev RgProcessResp process_ready_inv[OF h inv1] process_ready_ids[OF h]
      by (auto simp: rg_loop_def loop_good_def Let_def split: if_splits)
  next
    case (RgBadContract bm)
    obtain r2 out e where h: "handleBadContractResp en bm (r\<lparr>rg_eventCh := msgs\<rparr>) = (r2, out, e)" by (metis prod_cases3)
    then show ?thesis
      using l ev RgBadContract bad_contract_inv[OF h inv1] bad_contract_ids[OF h]
      by (auto simp: rg_loop_def loop_good_def Let_def split: if_splits)
  qed (use l ev inv1 in \<open>auto simp: rg_loop_def loop_good_def Let_def split: if_splits\<close>)
qed

lemma loop_tx_good:
  assumes inv: "rg_inv r" and en: "calls_ok en" and l: "rg_loop K en SelTx r = Some m"
  shows "loop_good r m"
proof -
  have sched: "re_schedErr en = None" using en by (simp add: calls_ok_def)
  obtain msg msgs where tx: "rg_txCh r = msg # msgs" using l by (rule loop_takes_tx)
  have inv1: "rg_inv (r\<lparr>rg_txCh := msgs\<rparr>)" and ok: "tx_msg_ok msg" using inv tx by (simp_all add: rg_inv_def)
  have h: "held_ids r = (if m_Type msg = TX_REQUEST then {#m_TxId msg#} else {#}) + held_ids (r\<lparr>rg_txCh := msgs\<rparr>)"
    using tx by (simp add: held_ids_def)
  consider (tx) "m_Type msg = TX_REQUEST" | (code) "m_Type msg = GET_BYTECODE_RESPONSE"
    | (other) "m_Type msg \<noteq> TX_REQUEST" "m_Type msg \<noteq> GET_BYTECODE_RESPONSE" by blast
  then show ?thesis
  proof cases
    case tx1: tx
    have "rg_good (handleTxReq K en msg (r\<lparr>rg_txCh := msgs\<rparr>))"
      using tx_good[OF inv1 _ _ en] ok tx1 by (simp add: tx_msg_ok_def)
    then show ?thesis
      using act_loop_good[of "handleTxReq K en msg (r\<lparr>rg_txCh := msgs\<rparr>)" r] handleTxReq_ids[OF _ _ sched] h ok l tx tx1
      by (auto simp: rg_loop_def Let_def tx_msg_ok_def split: if_splits)
  next
    case code
    then obtain resp where "m_Response msg = Some resp" using ok by (auto simp: tx_msg_ok_def)
    then have "rg_good (handleContractReadyResp K en msg (r\<lparr>rg_txCh := msgs\<rparr>))"
      by (rule contract_ready_good[OF inv1 _ en])
    then show ?thesis
      using act_loop_good[of "handleContractReadyResp K en msg (r\<lparr>rg_txCh := msgs\<rparr>)" r] contract_ready_ids[OF _ sched] h l tx code
      by (auto simp: rg_loop_def Let_def split: if_splits)
  next
    case other
    then show ?thesis using l tx inv1 h by (auto simp: rg_loop_def loop_good_def Let_def split: if_splits)
  qed
qed

lemma loop_stop_good:
  assumes inv: "rg_inv r" and en: "calls_ok en" and l: "rg_loop K en SelStop r = Some m"
  shows "loop_good r m"
  using l inv en popTx_ids[of en "rg_txCh r" "r\<lparr>rg_stopCh := rg_stopCh r - 1\<rparr>"]
  by (auto simp: rg_loop_def loop_good_def handleStopRequestGroup_def rg_inv_def held_ids_def calls_ok_def Let_def
    split: if_splits)

lemma loop_timer_good:
  assumes inv: "rg_inv r" and en: "calls_ok en" and l: "rg_loop K en SelTimer r = Some m"
  shows "loop_good r m"
proof -
  let ?r = "r\<lparr>rg_getBytecodeTimer := (rg_getBytecodeTimer r)\<lparr>t_chan := False\<rparr>\<rparr>"
  have sched: "re_schedErr en = None" using en by (simp add: calls_ok_def)
  have "rg_inv ?r" using inv by (simp add: rg_inv_def)
  then have "rg_good (handleGetBytecodeTimeout en ?r)"
    using bytecode_err_good en by (simp add: handleGetBytecodeTimeout_def good_bind)
  moreover have "held_ids r' + answered out = held_ids r" if "handleGetBytecodeTimeout en ?r = Val (r', out, e)" for r' out e
    using that bytecode_err_ids[OF _ sched, of ?r r' out] by (auto simp: handleGetBytecodeTimeout_def)
  ultimately show ?thesis
    using act_loop_good[of "handleGetBytecodeTimeout en ?r" r] l by (auto simp: rg_loop_def split: if_splits)
qed

lemma rg_loop_good:
  assumes "rg_inv r" "calls_ok en" "rg_loop K en sel r = Some m"
  shows "loop_good r m"
  using assms loop_event_good loop_tx_good loop_stop_good loop_timer_good by (cases sel) blast+

section \<open>Runs of a group\<close>

text \<open>
  \<open>rg_run K r put out taken resps\<close>: the group \<open>r\<close> is reached from a new one when the transactions
  \<open>put\<close> are put into it, it sent the messages \<open>out\<close>, the processes received \<open>taken\<close> from its
  channels and it handled the responses \<open>resps\<close> of the process managers.
\<close>

fun put_tx :: "rg_msg \<Rightarrow> DockerVMMessage list" where
  "put_tx (RgTx m) = (if m_Type m = TX_REQUEST then [m] else [])"
| "put_tx _ = []"

fun msg_ok :: "rg_msg \<Rightarrow> bool" where
  "msg_ok (RgTx m) = tx_msg_ok m"
| "msg_ok _ = True"

definition handled :: "rg_select \<Rightarrow> RequestGroup \<Rightarrow> GetProcessRespMsg list" where
  "handled sel r = (case (sel, rg_eventCh r) of (SelEvent, RgProcessResp m # _) \<Rightarrow> [m] | _ \<Rightarrow> [])"

inductive rg_run ::
  "chain_consts \<Rightarrow> RequestGroup \<Rightarrow> DockerVMMessage list \<Rightarrow> rg_out list \<Rightarrow> TxPayload list \<Rightarrow>
   GetProcessRespMsg list \<Rightarrow> bool" for K where
  rr_new: "rg_run K (NewRequestGroup c n v) [] [] [] []"
| rr_put: "\<lbrakk>rg_run K r P out T R; msg_ok m; rg_PutMsg m r = Val (r', e)\<rbrakk> \<Longrightarrow>
     rg_run K r' (P @ put_tx m) out T R"
| rr_loop: "\<lbrakk>rg_run K r P out T R; calls_ok en; rg_loop K en sel r = Some (Val (r', o2))\<rbrakk> \<Longrightarrow>
     rg_run K r' P (out @ o2) T (R @ handled sel r)"
| rr_timer: "rg_run K r P out T R \<Longrightarrow>
     rg_run K (r\<lparr>rg_getBytecodeTimer := timer_fire (rg_getBytecodeTimer r)\<rparr>) P out T R"
| rr_orig: "\<lbrakk>rg_run K r P out T R; tc_txCh (rg_origTxController r) = p # ps\<rbrakk> \<Longrightarrow>
     rg_run K (r\<lparr>rg_origTxController := (rg_origTxController r)\<lparr>tc_txCh := ps\<rparr>\<rparr>) P out (T @ [p]) R"
| rr_cross: "\<lbrakk>rg_run K r P out T R; tc_txCh (rg_crossTxController r) = p # ps\<rbrakk> \<Longrightarrow>
     rg_run K (r\<lparr>rg_crossTxController := (rg_crossTxController r)\<lparr>tc_txCh := ps\<rparr>\<rparr>) P out (T @ [p]) R"

lemma put_inv:
  assumes "rg_PutMsg m r = Val (r', e)" "msg_ok m" "rg_inv r"
  shows "rg_inv r' \<and> held_ids r' = held_ids r + tx_ids (put_tx m)"
  using assms by (cases m) (auto simp: rg_PutMsg_def rg_inv_def held_ids_def split: if_splits)

lemma run_accounts: "rg_run K r P out T R \<Longrightarrow> rg_inv r \<and> tx_ids P = held_ids r + answered out + ch_ids T"
proof (induction rule: rg_run.induct)
  case (rr_put r P out T R m r' e)
  then show ?case using put_inv[of m r r' e] by simp
next
  case (rr_loop r P out T R en sel r' o2)
  then have "rg_inv r'" "held_ids r' + answered o2 = held_ids r"
    using rg_loop_good[of r en K sel "Val (r', o2)"] by (auto simp: loop_good_def)
  with rr_loop.IH show ?case by (metis (no_types, lifting) add.assoc add.commute answered_append)
qed (auto simp: rg_inv_def NewRequestGroup_def held_ids_def)

section \<open>Requests for processes\<close>

definition reqs :: "bool \<Rightarrow> rg_out list \<Rightarrow> nat" where
  "reqs isOrig out = length (filter (\<lambda>x. case x of RgGetProcess b q \<Rightarrow> b = isOrig | _ \<Rightarrow> False) out)"

definition waits :: "bool \<Rightarrow> RequestGroup \<Rightarrow> nat" where
  "waits isOrig r = (if tc_processWaiting (controller isOrig r) then 1 else 0)"

definition rg_key :: "RequestGroup \<Rightarrow> string \<times> string \<times> string" where
  "rg_key r = (rg_chainID r, rg_contractName r, rg_contractVersion r)"

definition req_of :: "RequestGroup \<Rightarrow> rg_out \<Rightarrow> bool" where
  "req_of r x = (case x of RgGetProcess b q \<Rightarrow> 0 < gpr_ProcessNum q \<and>
      (gpr_ChainID q, gpr_ContractName q, gpr_ContractVersion q) = rg_key r | _ \<Rightarrow> True)"

text \<open>A piece of a handler that sends a request only when none is outstanding.\<close>

definition asks :: "RequestGroup \<Rightarrow> RequestGroup \<Rightarrow> rg_out list \<Rightarrow> bool" where
  "asks r r' out \<longleftrightarrow> (\<forall>b. reqs b out + waits b r \<le> waits b r') \<and> rg_key r' = rg_key r \<and> (\<forall>x\<in>set out. req_of r x)"

lemma asks_trans:
  assumes "asks r r1 o1" "asks r1 r2 o2"
  shows "asks r r2 (o1 @ o2)"
proof -
  have "reqs b (o1 @ o2) + waits b r \<le> waits b r2" for b
  proof -
    have "reqs b o1 + waits b r \<le> waits b r1" "reqs b o2 + waits b r1 \<le> waits b r2"
      using assms by (simp_all add: asks_def)
    then show ?thesis by (simp add: reqs_def)
  qed
  moreover have "req_of r1 = req_of r" using assms by (simp add: asks_def req_of_def[abs_def])
  ultimately show ?thesis using assms by (auto simp: asks_def)
qed

lemma asks_same:
  "rg_origTxController r' = rg_origTxController r \<Longrightarrow> rg_crossTxController r' = rg_crossTxController r \<Longrightarrow>
   rg_key r' = rg_key r \<Longrightarrow> \<forall>x\<in>set out. \<forall>b q. x \<noteq> RgGetProcess b q \<Longrightarrow> asks r r' out"
  by (auto simp: asks_def reqs_def waits_def controller_def req_of_def filter_empty_conv split: rg_out.splits)

lemma asks_getProcesses: "getProcesses en b r = (r', out, n, e) \<Longrightarrow> asks r r' out"
  by (auto simp: getProcesses_def asks_def reqs_def waits_def controller_def updateControllerState_def req_of_def
      rg_key_def Let_def split: if_splits option.splits)

lemma asks_send: "sendGetContractReq en txId r = (r', out, e) \<Longrightarrow> asks r r' out"
  by (rule asks_same) (auto simp: sendGetContractReq_def rg_key_def split: option.splits)

lemma asks_enqueue: "enqueueCh K now req r = Val r' \<Longrightarrow> asks r r' []"
  by (auto simp: enqueueCh_def asks_def reqs_def waits_def controller_def rg_key_def split: if_splits)

lemma asks_put: "putTxReqToCh K en req r = Val (r', out, e) \<Longrightarrow> asks r r' out"
  by (auto simp: putTxReqToCh_def split: option.splits if_splits dest!: asks_enqueue intro: asks_same)

lemma asks_error: "asks r r (fst (rg_returnTxErrorResp en txId msg r))"
  by (auto simp: rg_returnTxErrorResp_def split: option.split intro!: asks_same)

text \<open>
  The handlers are built from a few pieces.  A relation between the group before, the group after
  and the messages sent holds for the handlers when it composes and holds for the pieces.
\<close>

locale handler_rel =
  fixes R :: "RequestGroup \<Rightarrow> RequestGroup \<Rightarrow> rg_out list \<Rightarrow> bool"
  assumes trans: "R r r1 o1 \<Longrightarrow> R r1 r2 o2 \<Longrightarrow> R r r2 (o1 @ o2)"
    and internal: "R r (r\<lparr>rg_bufCh := b, rg_contractState := c, rg_ContractFileVersion := v, rg_getBytecodeTimer := t\<rparr>) []"
    and error: "R r r (fst (rg_returnTxErrorResp en txId msg r))"
    and enqueue: "enqueueCh K now req r = Val r' \<Longrightarrow> R r r' []"
    and put: "putTxReqToCh K en req r = Val (r', out, e) \<Longrightarrow> R r r' out"
    and processes: "getProcesses en isOrig r = (r', out, n, e) \<Longrightarrow> R r r' out"
    and contract: "sendGetContractReq en txId r = (r', out, e) \<Longrightarrow> R r r' out"
begin

lemma buf: "R r (r\<lparr>rg_bufCh := b\<rparr>) []"
  using internal[where b = b and c = "rg_contractState r" and v = "rg_ContractFileVersion r" and t = "rg_getBytecodeTimer r" and r = r] by simp

lemma state: "R r (r\<lparr>rg_contractState := c\<rparr>) []"
  using internal[where b = "rg_bufCh r" and c = c and v = "rg_ContractFileVersion r" and t = "rg_getBytecodeTimer r" and r = r] by simp

lemma stop: "R r (stop_bytecode_timer r) []"
  using internal[where b = "rg_bufCh r" and c = "rg_contractState r" and v = "rg_ContractFileVersion r" and r = r]
  by (simp add: stop_bytecode_timer_def split: prod.split)

lemma ready: "R r (r\<lparr>rg_contractState := c, rg_ContractFileVersion := v\<rparr>) []"
  using internal[where b = "rg_bufCh r" and c = c and v = v and t = "rg_getBytecodeTimer r" and r = r] by simp

lemma timer: "R r (r\<lparr>rg_getBytecodeTimer := t\<rparr>) []"
  using internal[where b = "rg_bufCh r" and c = "rg_contractState r" and v = "rg_ContractFileVersion r" and t = t and r = r] by simp

lemma move: "moveTxs K en i txs r = Val r' \<Longrightarrow> R r r' []"
proof (induction txs arbitrary: i r)
  case Nil
  then show ?case using buf[of r "rg_bufCh r"] by simp
next
  case (Cons tx txs)
  then obtain r1 where r1: "enqueueCh K (re_clk en i) tx (r\<lparr>rg_bufCh := txs\<rparr>) = Val r1" "moveTxs K en (Suc i) txs r1 = Val r'"
    by auto
  from trans[OF trans[OF buf enqueue[OF r1(1)]] Cons.IH[OF r1(2)]] show ?case by simp
qed

lemma err_handler:
  assumes "handleGetBytecodeErr en r = Val (r', out, e)" shows "R r r' out"
proof -
  obtain tx txs where b: "rg_bufCh r = tx # txs"
    using assms by (auto simp: handleGetBytecodeErr_def Let_def split: list.splits)
  let ?r = "r\<lparr>rg_contractState := contractEmpty, rg_bufCh := txs\<rparr>"
  let ?o = "fst (rg_returnTxErrorResp en (m_TxId tx) ''get bytecode error'' ?r)"
  have s: "R r ?r ?o" using trans[OF trans[OF state buf] error] by simp
  obtain r3 o3 e3 where c: "sendGetContractReq en (m_TxId tx) ?r = (r3, o3, e3)" by (metis prod_cases3)
  show ?thesis
    using assms b c s trans[OF s contract[OF c]]
    by (cases txs) (simp_all add: handleGetBytecodeErr_def Let_def case_prod_beta, auto)
qed

lemma tx_handler:
  assumes h: "handleTxReq K en req r = Val (r', out, e)" shows "R r r' out"
proof (cases "rg_contractState r")
  case contractReady
  then obtain r1 o1 e1 where p: "putTxReqToCh K en req r = Val (r1, o1, e1)" using h by (auto simp: handleTxReq_def)
  show ?thesis
  proof (cases e1)
    case None
    then obtain isOrig where i: "IsOrig K req = Val isOrig" using h contractReady p by (auto simp: handleTxReq_def)
    obtain r2 o2 n2 e2 where g: "getProcesses en isOrig r1 = (r2, o2, n2, e2)" by (metis prod_cases3)
    then have "r' = r2" "out = o1 @ o2" using h contractReady p i None by (simp_all add: handleTxReq_def)
    then show ?thesis using trans[OF put[OF p] processes[OF g]] by simp
  qed (use h contractReady p put[OF p] in \<open>simp add: handleTxReq_def\<close>)
next
  case contractEmpty
  obtain r2 o2 e2 where c: "sendGetContractReq en (m_TxId req) (r\<lparr>rg_bufCh := rg_bufCh r @ [req]\<rparr>) = (r2, o2, e2)"
    by (metis prod_cases3)
  have "r' = r2" "out = o2" using h contractEmpty c by (auto simp: handleTxReq_def buf_send_def split: if_splits)
  then show ?thesis using trans[OF buf contract[OF c]] by simp
next
  case contractWaiting
  then show ?thesis using h buf by (auto simp: handleTxReq_def buf_send_def split: if_splits)
qed

lemma ready_handler:
  assumes h: "handleContractReadyResp K en msg r = Val (r', out, e)" shows "R r r' out"
proof -
  let ?r0 = "stop_bytecode_timer r"
  obtain resp where resp: "m_Response msg = Some resp"
    using h by (cases "m_Response msg") (simp_all add: handleContractReadyResp_def)
  show ?thesis
  proof (cases "resp_Code resp = FAIL")
    case True
    then obtain e' where "handleGetBytecodeErr en ?r0 = Val (r', out, e')"
      using h resp by (auto simp: handleContractReadyResp_def handleGetBytecodeFailed_def Let_def)
    from trans[OF stop err_handler[OF this]] show ?thesis by simp
  next
    case False
    let ?r = "?r0\<lparr>rg_contractState := contractReady, rg_ContractFileVersion := re_clk en 0\<rparr>"
    obtain r3 where m: "moveTxs K en 1 (rg_bufCh ?r) ?r = Val r3"
      using h resp False by (auto simp: handleContractReadyResp_def Let_def)
    obtain r4 o4 n4 e4 where g: "getProcesses en True r3 = (r4, o4, n4, e4)" by (metis prod_cases3)
    obtain r5 o5 n5 e5 where k: "getProcesses en False r4 = (r5, o5, n5, e5)" by (metis prod_cases3)
    have "r' = r5" "out = o4 @ o5"
      using h resp False m g k by (simp_all add: handleContractReadyResp_def Let_def)
    then show ?thesis
      using trans[OF trans[OF trans[OF trans[OF stop ready] move[OF m]] processes[OF g]] processes[OF k]] by simp
  qed
qed

end

interpretation asks: handler_rel asks
  by unfold_locales
    (auto simp: rg_key_def intro: asks_trans asks_same asks_error asks_enqueue asks_put asks_getProcesses asks_send)

text \<open>One iteration of the loop; only the handling of a response takes the waiting flag back.\<close>

lemma popTx_no_req [simp]: "RgGetProcess b q \<notin> set (popTx en ms r)"
  by (induction ms) (auto simp: rg_returnTxErrorResp_def split: option.splits)

lemma loop_asks:
  assumes "rg_loop K en sel r = Some (Val (r', out))"
  shows "asks r r' out \<or> (\<exists>m r1. handled sel r = [m] \<and> (\<forall>b. waits b r1 = (if b = gps_IsOrig m then 0 else waits b r)) \<and>
      rg_key r1 = rg_key r \<and> asks r1 r' out)"
proof (cases sel)
  case SelEvent
  obtain msg msgs where ev: "rg_eventCh r = msg # msgs" using assms[unfolded SelEvent] by (rule loop_takes_event)
  let ?r = "r\<lparr>rg_eventCh := msgs\<rparr>"
  show ?thesis
  proof (cases msg)
    case (RgProcessResp m)
    obtain r2 o2 n2 e2 where g: "getProcesses en (gps_IsOrig m) (updateControllerState (gps_IsOrig m) False ?r) = (r2, o2, n2, e2)"
      by (metis prod_cases3)
    then have "r' = r2" "out = o2"
      using assms SelEvent ev RgProcessResp
      by (auto simp: rg_loop_def handleProcessReadyResp_def Let_def split: if_splits)
    moreover have "waits b (updateControllerState (gps_IsOrig m) False ?r) = (if b = gps_IsOrig m then 0 else waits b r)" for b
      by (simp add: waits_def controller_def updateControllerState_def)
    ultimately show ?thesis
      using asks_getProcesses[OF g] SelEvent ev RgProcessResp
      by (intro disjI2 exI[of _ m] exI[of _ "updateControllerState (gps_IsOrig m) False ?r"])
          (auto simp: handled_def rg_key_def updateControllerState_def)
  next
    case (RgBadContract m)
    then have "asks r r' out"
      using assms SelEvent ev by (auto simp: rg_loop_def handleBadContractResp_def sendGetContractReq_def rg_key_def
          Let_def split: if_splits option.splits intro!: asks_same)
    then show ?thesis ..
  qed (use assms SelEvent ev in \<open>auto simp: rg_loop_def Let_def rg_key_def split: if_splits intro!: asks_same\<close>)
next
  case SelTx
  obtain msg msgs where tx: "rg_txCh r = msg # msgs" using assms[unfolded SelTx] by (rule loop_takes_tx)
  have s: "asks r (r\<lparr>rg_txCh := msgs\<rparr>) []" by (rule asks_same) (simp_all add: rg_key_def)
  have "asks (r\<lparr>rg_txCh := msgs\<rparr>) r' out"
    using assms SelTx tx by (auto simp: rg_loop_def Let_def split: if_splits dest: asks.tx_handler asks.ready_handler intro: asks_same)
  from asks_trans[OF s this] show ?thesis by simp
next
  case SelStop
  then have "asks r r' out"
    using assms by (auto simp: rg_loop_def handleStopRequestGroup_def rg_key_def Let_def
        split: if_splits intro!: asks_same)
  then show ?thesis ..
next
  case SelTimer
  let ?r = "r\<lparr>rg_getBytecodeTimer := (rg_getBytecodeTimer r)\<lparr>t_chan := False\<rparr>\<rparr>"
  have s: "asks r ?r []" by (rule asks_same) (simp_all add: rg_key_def)
  have "asks ?r r' out"
    using assms SelTimer by (auto simp: rg_loop_def handleGetBytecodeTimeout_def split: if_splits dest: asks.err_handler)
  from asks_trans[OF s this] show ?thesis by simp
qed

lemma loop_requests:
  assumes "rg_loop K en sel r = Some (Val (r', out))"
  shows "reqs b out + waits b r \<le> waits b r' + length (filter (\<lambda>m. gps_IsOrig m = b) (handled sel r))"
    and "rg_key r' = rg_key r" and "\<forall>x\<in>set out. req_of r x"
proof -
  have w: "waits b r \<le> 1" by (simp add: waits_def)
  from loop_asks[OF assms] have "reqs b out + waits b r \<le> waits b r' + length (filter (\<lambda>m. gps_IsOrig m = b) (handled sel r)) \<and>
    rg_key r' = rg_key r \<and> (\<forall>x\<in>set out. req_of r x)"
  proof (elim disjE exE conjE)
    assume "asks r r' out"
    then show ?thesis unfolding asks_def using trans_le_add1 by blast
  next
    fix m r1 assume m: "handled sel r = [m]" "\<forall>b. waits b r1 = (if b = gps_IsOrig m then 0 else waits b r)"
      "rg_key r1 = rg_key r" "asks r1 r' out"
    then have "reqs b out + waits b r1 \<le> waits b r'" by (simp add: asks_def)
    then have "reqs b out + waits b r \<le> waits b r' + length (filter (\<lambda>m. gps_IsOrig m = b) (handled sel r))"
      using m(1,2) w by (cases "b = gps_IsOrig m") simp_all
    moreover have "req_of r1 = req_of r" using m(3) by (simp add: req_of_def[abs_def])
    ultimately show ?thesis using m(3,4) by (simp add: asks_def)
  qed
  then show "reqs b out + waits b r \<le> waits b r' + length (filter (\<lambda>m. gps_IsOrig m = b) (handled sel r))"
    "rg_key r' = rg_key r" "\<forall>x\<in>set out. req_of r x" by blast+
qed

lemma reqs_append: "reqs b (a @ c) = reqs b a + reqs b c"
  by (simp add: reqs_def)

lemma req_of_key: "rg_key r' = rg_key r \<Longrightarrow> req_of r' = req_of r"
  by (simp add: req_of_def[abs_def])

lemma run_requests:
  "rg_run K r P out T R \<Longrightarrow> (\<forall>b. reqs b out \<le> length (filter (\<lambda>m. gps_IsOrig m = b) R) + waits b r) \<and>
     (\<forall>x\<in>set out. req_of r x)"
proof (induction rule: rg_run.induct)
  case (rr_new c n v)
  show ?case by (simp add: reqs_def)
next
  case (rr_put r P out T R m r' e)
  have k: "rg_key r' = rg_key r" using rr_put.hyps(3) by (cases m) (auto simp: rg_PutMsg_def rg_key_def split: if_splits)
  have "waits b r' = waits b r" for b
    using rr_put.hyps(3) by (cases m) (auto simp: rg_PutMsg_def waits_def controller_def split: if_splits)
  then show ?case using rr_put.IH req_of_key[OF k] by simp
next
  case (rr_loop r P out T R en sel r' o2)
  note l = loop_requests[OF rr_loop.hyps(3)]
  have "reqs b (out @ o2) \<le> length (filter (\<lambda>m. gps_IsOrig m = b) (R @ handled sel r)) + waits b r'" for b
  proof -
    have "reqs b out \<le> length (filter (\<lambda>m. gps_IsOrig m = b) R) + waits b r" using rr_loop.IH by blast
    then show ?thesis using l(1)[of b] by (simp add: reqs_append)
  qed
  then show ?case using l(3) rr_loop.IH req_of_key[OF l(2)] by auto
next
  case (rr_timer r P out T R)
  let ?r = "r\<lparr>rg_getBytecodeTimer := timer_fire (rg_getBytecodeTimer r)\<rparr>"
  have k: "rg_key ?r = rg_key r" by (simp add: rg_key_def)
  have "waits b ?r = waits b r" for b
    by (simp_all add: rg_key_def waits_def controller_def)
  then show ?case using rr_timer.IH by (simp add: req_of_key[OF k])
next
  case (rr_orig r P out T R p ps)
  let ?r = "r\<lparr>rg_origTxController := (rg_origTxController r)\<lparr>tc_txCh := ps\<rparr>\<rparr>"
  have k: "rg_key ?r = rg_key r" by (simp add: rg_key_def)
  have "waits b ?r = waits b r" for b
    by (simp_all add: rg_key_def waits_def controller_def)
  then show ?case using rr_orig.IH by (simp add: req_of_key[OF k])
next
  case (rr_cross r P out T R p ps)
  let ?r = "r\<lparr>rg_crossTxController := (rg_crossTxController r)\<lparr>tc_txCh := ps\<rparr>\<rparr>"
  have k: "rg_key ?r = rg_key r" by (simp add: rg_key_def)
  have "waits b ?r = waits b r" for b
    by (simp_all add: rg_key_def waits_def controller_def)
  then show ?case using rr_cross.IH by (simp add: req_of_key[OF k])
qed

text \<open>Runs are executable.\<close>

datatype rg_cmd = CPut rg_msg | CLoop rg_env rg_select | CFire | CTakeOrig | CTakeCross

type_synonym rg_trace =
  "RequestGroup \<times> DockerVMMessage list \<times> rg_out list \<times> TxPayload list \<times> GetProcessRespMsg list"

fun rg_exec1 :: "chain_consts \<Rightarrow> rg_cmd \<Rightarrow> rg_trace \<Rightarrow> rg_trace option" where
  "rg_exec1 K (CPut m) (r, P, out, T, R) =
     (if msg_ok m then (case rg_PutMsg m r of Val (r', e) \<Rightarrow> Some (r', P @ put_tx m, out, T, R) | _ \<Rightarrow> None) else None)"
| "rg_exec1 K (CLoop en sel) (r, P, out, T, R) =
     (if calls_ok en then (case rg_loop K en sel r of
          Some (Val (r', o2)) \<Rightarrow> Some (r', P, out @ o2, T, R @ handled sel r) | _ \<Rightarrow> None) else None)"
| "rg_exec1 K CFire (r, P, out, T, R) =
     Some (r\<lparr>rg_getBytecodeTimer := timer_fire (rg_getBytecodeTimer r)\<rparr>, P, out, T, R)"
| "rg_exec1 K CTakeOrig (r, P, out, T, R) = (case tc_txCh (rg_origTxController r) of
     p # ps \<Rightarrow> Some (r\<lparr>rg_origTxController := (rg_origTxController r)\<lparr>tc_txCh := ps\<rparr>\<rparr>, P, out, T @ [p], R)
   | [] \<Rightarrow> None)"
| "rg_exec1 K CTakeCross (r, P, out, T, R) = (case tc_txCh (rg_crossTxController r) of
     p # ps \<Rightarrow> Some (r\<lparr>rg_crossTxController := (rg_crossTxController r)\<lparr>tc_txCh := ps\<rparr>\<rparr>, P, out, T @ [p], R)
   | [] \<Rightarrow> None)"

fun rg_exec :: "chain_consts \<Rightarrow> rg_cmd list \<Rightarrow> rg_trace \<Rightarrow> rg_trace option" where
  "rg_exec K [] s = Some s"
| "rg_exec K (c # cs) s = (case rg_exec1 K c s of None \<Rightarrow> None | Some s' \<Rightarrow> rg_exec K cs s')"

lemma rg_exec_run:
  "rg_exec K cs (r, P, out, T, R) = Some (r', P', out', T', R') \<Longrightarrow> rg_run K r P out T R \<Longrightarrow>
   rg_run K r' P' out' T' R'"
proof (induction cs arbitrary: r P out T R)
  case (Cons c cs)
  then obtain r1 P1 o1 T1 R1 where s: "rg_exec1 K c (r, P, out, T, R) = Some (r1, P1, o1, T1, R1)"
    "rg_exec K cs (r1, P1, o1, T1, R1) = Some (r', P', out', T', R')"
    by (auto split: option.splits)
  have "rg_run K r1 P1 o1 T1 R1"
    using s(1) Cons.prems(2)
    by (cases c) (auto split: if_splits go.splits option.splits list.splits intro: rg_run.intros)
  then show ?case using Cons.IH[OF s(2)] by blast
qed simp

definition sample_consts :: chain_consts where
  "sample_consts = \<lparr>CallContractDepth = 5, RuntimeType_GO = 6, GasLimit = 10000000000\<rparr>"

definition sample_rg_env :: rg_env where
  "sample_rg_env = \<lparr>re_processNum = (\<lambda>b. 0), re_readyOrBusyNum = (\<lambda>b. 0), re_clk = int, re_schedErr = None,
     re_cmErr = None, re_pmErr = None, re_mountDir = ''/mount''\<rparr>"

definition sample_request :: "string \<Rightarrow> 32 word \<Rightarrow> DockerVMMessage" where
  "sample_request i d = zero_msg\<lparr>m_TxId := i, m_Type := TX_REQUEST, m_Request := Some zero_req,
     m_CrossContext := Some \<lparr>CurrentDepth = d, ProcessName = [], CrossInfo = 0\<rparr>\<rparr>"

definition sample_code :: "DockerVMCode \<Rightarrow> DockerVMMessage" where
  "sample_code c = zero_msg\<lparr>m_Type := GET_BYTECODE_RESPONSE, m_Response := Some (zero_resp\<lparr>resp_Code := c\<rparr>)\<rparr>"

definition sample_cmds :: "rg_cmd list" where
  "sample_cmds = [CPut (RgTx (sample_request ''t1'' 0)), CLoop sample_rg_env SelTx, CPut (RgTx (sample_request ''t2'' 0)),
     CLoop sample_rg_env SelTx, CPut (RgTx (sample_code FAIL)), CLoop sample_rg_env SelTx,
     CPut (RgTx (sample_code OK)), CLoop sample_rg_env SelTx, CPut (RgTx (sample_request ''t3'' 9)),
     CLoop sample_rg_env SelTx, CPut (RgTx (sample_request ''t4'' 0)), CLoop sample_rg_env SelTx, CTakeOrig]"

definition sample_trace :: rg_trace where
  "sample_trace = the (rg_exec sample_consts sample_cmds (NewRequestGroup ''c'' ''n'' ''v'', [], [], [], []))"

lemma sample_exec:
  "(case rg_exec sample_consts sample_cmds (NewRequestGroup ''c'' ''n'' ''v'', [], [], [], []) of
      Some (r, P, out, T, R) \<Rightarrow> map m_TxId P = [''t1'', ''t2'', ''t3'', ''t4''] \<and> map (m_TxId \<circ> tp_Tx) T = [''t2''] \<and>
        map (m_TxId \<circ> tp_Tx) (tc_txCh (rg_origTxController r)) = [''t4''] \<and> tc_processWaiting (rg_origTxController r) \<and>
        rg_txCh r = [] \<and> rg_bufCh r = [] \<and> tc_txCh (rg_crossTxController r) = [] \<and> length out = 5
    | None \<Rightarrow> False)"
  by code_simp

lemma sample_run:
  obtains r P out T R where "sample_trace = (r, P, out, T, R)" "rg_run sample_consts r P out T R"
    "map m_TxId P = [''t1'', ''t2'', ''t3'', ''t4'']" "map (m_TxId \<circ> tp_Tx) T = [''t2'']"
    "map (m_TxId \<circ> tp_Tx) (tc_txCh (rg_origTxController r)) = [''t4'']" "tc_processWaiting (rg_origTxController r)"
    "rg_txCh r = []" "rg_bufCh r = []" "tc_txCh (rg_crossTxController r) = []"
proof -
  obtain r P out T R where e: "rg_exec sample_consts sample_cmds (NewRequestGroup ''c'' ''n'' ''v'', [], [], [], []) = Some (r, P, out, T, R)"
    using sample_exec by (auto split: option.splits)
  have "rg_run sample_consts r P out T R" by (rule rg_exec_run[OF e rr_new])
  then show ?thesis using that sample_exec e by (simp add: sample_trace_def)
qed

text \<open>Emptying the buffer.\<close>

definition goes_orig :: "chain_consts \<Rightarrow> DockerVMMessage \<Rightarrow> bool" where
  "goes_orig K tx \<longleftrightarrow> IsOrig K tx = Val True"

lemma move_result:
  assumes "\<forall>m\<in>set txs. m_CrossContext m \<noteq> None"
    and "int (length (tc_txCh (rg_origTxController r)) + length txs) \<le> origTxChSize"
    and "int (length (tc_txCh (rg_crossTxController r)) + length txs) \<le> crossTxChSize" and "rg_bufCh r = txs"
  shows "\<exists>r'. moveTxs K en i txs r = Val r' \<and> rg_bufCh r' = [] \<and> rg_contractState r' = rg_contractState r \<and>
    map tp_Tx (tc_txCh (rg_origTxController r')) = map tp_Tx (tc_txCh (rg_origTxController r)) @ filter (goes_orig K) txs \<and>
    map tp_Tx (tc_txCh (rg_crossTxController r')) = map tp_Tx (tc_txCh (rg_crossTxController r)) @ filter (\<lambda>t. \<not> goes_orig K t) txs"
  using assms
proof (induction txs arbitrary: i r)
  case (Cons tx txs)
  obtain cc where cc: "m_CrossContext tx = Some cc" using Cons.prems(1) by auto
  define b where "b = (CurrentDepth cc = 0 \<or> \<not> hasUsed K (CrossInfo cc))"
  have b: "IsOrig K tx = Val b" using cc by (simp add: IsOrig_def b_def)
  define r1 where "r1 = the_elem {x. enqueueCh K (re_clk en i) tx (r\<lparr>rg_bufCh := txs\<rparr>) = Val x}"
  have e: "enqueueCh K (re_clk en i) tx (r\<lparr>rg_bufCh := txs\<rparr>) = Val r1"
    using Cons.prems(2,3) b by (simp add: enqueueCh_def r1_def)
  have "\<exists>r'. moveTxs K en (Suc i) txs r1 = Val r' \<and> rg_bufCh r' = [] \<and> rg_contractState r' = rg_contractState r1 \<and>
    map tp_Tx (tc_txCh (rg_origTxController r')) = map tp_Tx (tc_txCh (rg_origTxController r1)) @ filter (goes_orig K) txs \<and>
    map tp_Tx (tc_txCh (rg_crossTxController r')) = map tp_Tx (tc_txCh (rg_crossTxController r1)) @ filter (\<lambda>t. \<not> goes_orig K t) txs"
    using Cons.prems e b by (intro Cons.IH) (auto simp: enqueueCh_def split: if_splits)
  moreover have "goes_orig K tx = b" using b by (simp add: goes_orig_def)
  ultimately show ?case
    using e b by (auto simp: enqueueCh_def split: if_splits)
qed auto

lemma getProcesses_chans:
  "getProcesses en b r = (r', out, n, e) \<Longrightarrow> tc_txCh (rg_origTxController r') = tc_txCh (rg_origTxController r) \<and>
     tc_txCh (rg_crossTxController r') = tc_txCh (rg_crossTxController r)"
  by (auto simp: getProcesses_def updateControllerState_def Let_def split: if_splits option.splits)

section \<open>Properties\<close>

text \<open>
  no transaction is lost or duplicated by a request group.  In every run, the transactions
  put into it are exactly those it still holds, those the processes received and those it
  answered with an error, each counted as often as it was put.
\<close>

theorem group_accounts_for_txs:
  assumes "rg_run K r P out T R"
  shows "tx_ids P = held_ids r + answered out + ch_ids T"
  using run_accounts[OF assms] by simp

theorem group_accounts_for_txs_witness:
  "\<exists>r P out T R. rg_run sample_consts r P out T R \<and> tx_ids P = {#''t1'', ''t2'', ''t3'', ''t4''#} \<and>
     ch_ids T = {#''t2''#} \<and> held_ids r = {#''t4''#} \<and> answered out = {#''t1'', ''t3''#}"
proof -
  obtain r P out T R where s: "rg_run sample_consts r P out T R"
    "map m_TxId P = [''t1'', ''t2'', ''t3'', ''t4'']" "map (m_TxId \<circ> tp_Tx) T = [''t2'']"
    "map (m_TxId \<circ> tp_Tx) (tc_txCh (rg_origTxController r)) = [''t4'']" "rg_txCh r = []" "rg_bufCh r = []"
    "tc_txCh (rg_crossTxController r) = []"
    by (rule sample_run)
  then have p: "tx_ids P = {#''t1'', ''t2'', ''t3'', ''t4''#}" "ch_ids T = {#''t2''#}" "held_ids r = {#''t4''#}"
    by (simp_all add: tx_ids_def ch_ids_def held_ids_def)
  from group_accounts_for_txs[OF s(1)] p have "answered out = {#''t1'', ''t3''#}" by (simp add: add_mset_commute)
  with s(1) p show ?thesis by blast
qed



text \<open>
  when the binary has arrived, every buffered transaction moves to the processes' channels in
  the order of arrival, original and cross-contract transactions each to their own, and the
  buffer is empty; the handler returns as long as the channels have room.
\<close>

theorem contract_ready_moves_buffer:
  assumes "m_Response msg = Some resp" "resp_Code resp = OK" and ctx: "\<forall>m\<in>set (rg_bufCh r). m_CrossContext m \<noteq> None"
    and room: "int (length (tc_txCh (rg_origTxController r)) + length (rg_bufCh r)) \<le> origTxChSize"
      "int (length (tc_txCh (rg_crossTxController r)) + length (rg_bufCh r)) \<le> crossTxChSize"
  shows "\<exists>r' out. handleContractReadyResp K en msg r = Val (r', out, None) \<and> rg_bufCh r' = [] \<and>
    rg_contractState r' = contractReady \<and>
    map tp_Tx (tc_txCh (rg_origTxController r')) =
      map tp_Tx (tc_txCh (rg_origTxController r)) @ filter (\<lambda>t. IsOrig K t = Val True) (rg_bufCh r) \<and>
    map tp_Tx (tc_txCh (rg_crossTxController r')) =
      map tp_Tx (tc_txCh (rg_crossTxController r)) @ filter (\<lambda>t. IsOrig K t \<noteq> Val True) (rg_bufCh r)"
proof -
  let ?r = "(stop_bytecode_timer r)\<lparr>rg_contractState := contractReady, rg_ContractFileVersion := re_clk en 0\<rparr>"
  have same: "rg_bufCh ?r = rg_bufCh r" "rg_origTxController ?r = rg_origTxController r"
    "rg_crossTxController ?r = rg_crossTxController r"
    by (simp_all add: stop_bytecode_timer_def Let_def split: prod.split)
  obtain r3 where m: "moveTxs K en 1 (rg_bufCh ?r) ?r = Val r3" "rg_bufCh r3 = []" "rg_contractState r3 = contractReady"
    "map tp_Tx (tc_txCh (rg_origTxController r3)) = map tp_Tx (tc_txCh (rg_origTxController r)) @ filter (goes_orig K) (rg_bufCh r)"
    "map tp_Tx (tc_txCh (rg_crossTxController r3)) =
      map tp_Tx (tc_txCh (rg_crossTxController r)) @ filter (\<lambda>t. \<not> goes_orig K t) (rg_bufCh r)"
    using move_result[of "rg_bufCh ?r" ?r K en 1] ctx room same by auto
  obtain r4 o4 n4 e4 where g: "getProcesses en True r3 = (r4, o4, n4, e4)" by (metis prod_cases3)
  obtain r5 o5 n5 e5 where k: "getProcesses en False r4 = (r5, o5, n5, e5)" by (metis prod_cases3)
  have "handleContractReadyResp K en msg r = Val (r5, o4 @ o5, None)"
    using assms(1,2) m(1) g k by (simp add: handleContractReadyResp_def Let_def)
  then show ?thesis
    using m getProcesses_chans[OF g] getProcesses_chans[OF k] getProcesses_frame[OF g] getProcesses_frame[OF k]
    by (simp add: goes_orig_def[abs_def])
qed

theorem contract_ready_moves_buffer_witness:
  "\<exists>r' out. handleContractReadyResp sample_consts sample_rg_env (sample_code OK)
      ((NewRequestGroup ''c'' ''n'' ''v'')\<lparr>rg_bufCh := [sample_request ''t1'' 0, sample_request ''t2'' 0]\<rparr>) = Val (r', out, None) \<and>
    map (m_TxId \<circ> tp_Tx) (tc_txCh (rg_origTxController r')) = [''t1'', ''t2''] \<and> tc_txCh (rg_crossTxController r') = []"
proof -
  let ?r = "(NewRequestGroup ''c'' ''n'' ''v'')\<lparr>rg_bufCh := [sample_request ''t1'' 0, sample_request ''t2'' 0]\<rparr>"
  have o: "IsOrig sample_consts (sample_request i 0) = Val True" for i
    by (simp add: IsOrig_def sample_request_def)
  obtain r' out where "handleContractReadyResp sample_consts sample_rg_env (sample_code OK) ?r = Val (r', out, None)"
    "map tp_Tx (tc_txCh (rg_origTxController r')) = [sample_request ''t1'' 0, sample_request ''t2'' 0]"
    "tc_txCh (rg_crossTxController r') = []"
    using contract_ready_moves_buffer[of "sample_code OK" "zero_resp\<lparr>resp_Code := OK\<rparr>" ?r sample_consts sample_rg_env] o
    by (auto simp: sample_code_def NewRequestGroup_def sample_request_def origTxChSize_def crossTxChSize_def)
  then show ?thesis by (auto simp: sample_request_def map_map[symmetric] simp del: map_map)
qed

text \<open>
  C24: when a process reports a bad binary while transactions wait in the processes' channels, the
  group asks for the binary again with an empty buffer.  If that request fails or times out, the
  error path receives from the empty buffer and the group's goroutine blocks for ever.
\<close>

theorem failed_retry_blocks_group:
  assumes "rg_contractState r = contractReady" "bcr_ContractFileVersion bad = rg_ContractFileVersion r"
    "tc_txCh (rg_origTxController r) \<noteq> []" "rg_bufCh r = []" "re_cmErr en = None"
  shows "\<exists>r' out. handleBadContractResp en bad r = (r', out, None) \<and> rg_contractState r' = contractWaiting \<and>
    handleGetBytecodeTimeout en' r' = Block \<and>
    (\<forall>msg resp. m_Response msg = Some resp \<and> resp_Code resp = FAIL \<longrightarrow> handleContractReadyResp K en' msg r' = Block)"
  using assms
  by (auto simp: handleBadContractResp_def sendGetContractReq_def handleGetBytecodeTimeout_def handleGetBytecodeErr_def
      handleContractReadyResp_def handleGetBytecodeFailed_def stop_bytecode_timer_def Let_def split: prod.split)

theorem failed_retry_blocks_group_witness:
  "\<exists>r' out. handleBadContractResp sample_rg_env \<lparr>bcr_Tx = zero_msg, bcr_IsOrig = True, bcr_ContractFileVersion = 0\<rparr>
      ((NewRequestGroup ''c'' ''n'' ''v'')\<lparr>rg_contractState := contractReady,
         rg_origTxController := \<lparr>tc_txCh = [\<lparr>tp_Tx = sample_request ''t1'' 0, tp_StartTime = 0\<rparr>], tc_processWaiting = False\<rparr>\<rparr>)
      = (r', out, None) \<and> handleContractReadyResp sample_consts sample_rg_env (sample_code FAIL) r' = Block"
  using failed_retry_blocks_group[of "(NewRequestGroup ''c'' ''n'' ''v'')\<lparr>rg_contractState := contractReady,
         rg_origTxController := \<lparr>tc_txCh = [\<lparr>tp_Tx = sample_request ''t1'' 0, tp_StartTime = 0\<rparr>], tc_processWaiting = False\<rparr>\<rparr>"
      "\<lparr>bcr_Tx = zero_msg, bcr_IsOrig = True, bcr_ContractFileVersion = 0\<rparr>" sample_rg_env sample_rg_env sample_consts]
  by (auto simp: NewRequestGroup_def sample_rg_env_def sample_code_def)

text \<open>
  C25: a transaction whose depth exceeds the limit is answered with an error and never reaches a
  process when the binary is ready; while the binary is being fetched the same transaction is
  buffered and handed over without the test.
\<close>

theorem depth_limit_only_when_ready:
  assumes "m_CrossContext req = Some cc" "m_Request req = Some rq" "CurrentDepth cc > CallContractDepth K" "calls_ok en"
  shows "(rg_contractState r = contractReady \<longrightarrow> (\<exists>m e. handleTxReq K en req r = Val (r, [RgToScheduler m], Some e) \<and>
      m_TxId m = m_TxId req \<and> m_Type m = ERROR)) \<and>
    (rg_contractState r = contractWaiting \<and> int (length (rg_bufCh r)) < requestGroupTxChSize \<longrightarrow>
      handleTxReq K en req r = Val (r\<lparr>rg_bufCh := rg_bufCh r @ [req]\<rparr>, [], None))"
  using assms by (auto simp: handleTxReq_def putTxReqToCh_def calls_ok_def buf_send_def)

theorem depth_limit_only_when_ready_witness:
  "\<exists>m e. handleTxReq sample_consts sample_rg_env (sample_request ''t'' 9)
      ((NewRequestGroup ''c'' ''n'' ''v'')\<lparr>rg_contractState := contractReady\<rparr>) =
      Val ((NewRequestGroup ''c'' ''n'' ''v'')\<lparr>rg_contractState := contractReady\<rparr>, [RgToScheduler m], Some e) \<and> m_TxId m = ''t''"
  using depth_limit_only_when_ready[of "sample_request ''t'' 9" "\<lparr>CurrentDepth = 9, ProcessName = [], CrossInfo = 0\<rparr>" zero_req
      sample_consts sample_rg_env "(NewRequestGroup ''c'' ''n'' ''v'')\<lparr>rg_contractState := contractReady\<rparr>"]
  by (auto simp: sample_request_def sample_consts_def sample_rg_env_def calls_ok_def)

text \<open>
  whatever well-formed messages a request group receives, no iteration of its loop panics.
\<close>

theorem group_never_panics:
  assumes "rg_run K r P out T R" "calls_ok en"
  shows "rg_loop K en sel r \<noteq> Some Panic"
  using rg_loop_good[OF _ assms(2), of r K sel Panic] run_accounts[OF assms(1)] by (auto simp: loop_good_def)

theorem group_never_panics_witness:
  "\<exists>r P out T R. rg_run sample_consts r P out T R \<and> rg_loop sample_consts sample_rg_env SelTx r \<noteq> Some Panic"
proof -
  obtain r P out T R where s: "rg_run sample_consts r P out T R" by (rule sample_run)
  moreover have "calls_ok sample_rg_env" by (simp add: calls_ok_def sample_rg_env_def)
  ultimately show ?thesis using group_never_panics[OF s] by blast
qed

end
