(* ===== verification/Request_Scheduler.thy ===== *)
theory Request_Scheduler
  imports Request_Group
begin

text \<open>
  The request scheduler, \<open>core/request_scheduler.go\<close>: it hands every transaction to the request
  group of its contract, which it creates on demand, and passes the messages about binaries and
  the errors between the chain, the contract manager and the groups.

  The groups are the \<open>RequestGroup\<close> records of \<open>Request_Group\<close>.  The send of \<open>CloseMsg\<close> is a
  rendezvous with the grp's loop: the scheduler waits in \<open>rs_closing\<close>, holding its lock, until
  the group has received it.  A group that was removed from the map keeps running in \<open>rs_removed\<close>.
\<close>

section \<open>State\<close>

definition requestSchedulerTxChSize :: int where "requestSchedulerTxChSize = 50000"
definition requestSchedulerEventChSize :: int where "requestSchedulerEventChSize = 1000"
definition closeChSize :: int where "closeChSize = 8"

record RequestScheduler =
  rs_eventCh :: "DockerVMMessage list"
  rs_txCh :: "DockerVMMessage list"
  rs_closeCh :: "RequestGroupKey list"
  rs_requestGroups :: "(string, RequestGroup) gomap"
  rs_closing :: "string option"
  rs_removed :: "RequestGroup list"

datatype rs_msg = RsVm DockerVMMessage | RsClose RequestGroupKey | RsUnknown

text \<open>What \<open>PutMsg\<close> of the chain service and of the contract manager return.\<close>

record rs_env =
  se_chainErr :: "error option"
  se_cmErr :: "error option"

datatype rs_out = RsToChain DockerVMMessage | RsToManager DockerVMMessage

definition NewRequestScheduler :: RequestScheduler where
  "NewRequestScheduler = \<lparr>rs_eventCh = [], rs_txCh = [], rs_closeCh = [], rs_requestGroups = [],
     rs_closing = None, rs_removed = []\<rparr>"

definition rs_PutMsg :: "rs_msg \<Rightarrow> RequestScheduler \<Rightarrow> (RequestScheduler \<times> error option) go" where
  "rs_PutMsg msg s = (case msg of
       RsVm m \<Rightarrow>
         if m_Type m = GET_BYTECODE_REQUEST \<or> m_Type m = GET_BYTECODE_RESPONSE \<or> m_Type m = ERROR
         then (if int (length (rs_eventCh s)) \<ge> requestSchedulerEventChSize then Block
               else Val (s\<lparr>rs_eventCh := rs_eventCh s @ [m]\<rparr>, None))
         else if m_Type m = TX_REQUEST
         then (if int (length (rs_txCh s)) \<ge> requestSchedulerTxChSize then Block
               else Val (s\<lparr>rs_txCh := rs_txCh s @ [m]\<rparr>, None))
         else Val (s, Some ''unknown msg type'')
     | RsClose m \<Rightarrow>
         if int (length (rs_closeCh s)) \<ge> closeChSize then Block
         else Val (s\<lparr>rs_closeCh := rs_closeCh s @ [m]\<rparr>, None)
     | RsUnknown \<Rightarrow> Val (s, Some ''unknown msg type''))"

definition GetRequestGroup :: "string \<Rightarrow> string \<Rightarrow> string \<Rightarrow> RequestScheduler \<Rightarrow> RequestGroup option" where
  "GetRequestGroup chainID contractName contractVersion s =
     map_of (rs_requestGroups s) (contract_key chainID contractName contractVersion)"

section \<open>Handlers\<close>

definition rs_handleGetContractReq :: "rs_env \<Rightarrow> DockerVMMessage \<Rightarrow> rs_out list \<times> error option" where
  "rs_handleGetContractReq en req = (case se_chainErr en of
       Some e \<Rightarrow> ([], Some (''failed to invoke chain rpc service PutMsg, '' @ e))
     | None \<Rightarrow> ([RsToChain req], None))"

definition rs_handleGetContractResp :: "rs_env \<Rightarrow> DockerVMMessage \<Rightarrow> rs_out list \<times> error option" where
  "rs_handleGetContractResp en resp = (case se_cmErr en of
       Some e \<Rightarrow> ([], Some (''failed to invoke contract manager PutMsg, '' @ e))
     | None \<Rightarrow> ([RsToManager resp], None))"

definition rs_handleTxReq ::
  "DockerVMMessage \<Rightarrow> RequestScheduler \<Rightarrow> (RequestScheduler \<times> error option) go" where
  "rs_handleTxReq req s = (case m_Request req of
       None \<Rightarrow> Val (s, Some ''empty request payload'')
     | Some rq \<Rightarrow>
         (let groupKey = contract_key (req_ChainId rq) (req_ContractName rq) (req_ContractVersion rq);
              grp = (case map_of (rs_requestGroups s) groupKey of
                  Some grp \<Rightarrow> grp
                | None \<Rightarrow> NewRequestGroup (req_ChainId rq) (req_ContractName rq) (req_ContractVersion rq))
          in go_bind (rg_PutMsg (RgTx req) grp) (\<lambda>(grp', e).
               Val (s\<lparr>rs_requestGroups := AList.update groupKey grp' (rs_requestGroups s)\<rparr>,
                    map_option (\<lambda>e. ''failed to invoke request group PutMsg, '' @ e) e))))"

definition rs_handleErrResp :: "rs_env \<Rightarrow> DockerVMMessage \<Rightarrow> rs_out list \<times> error option" where
  "rs_handleErrResp en resp = (case se_chainErr en of
       Some e \<Rightarrow> ([], Some (''failed to invoke chain rpc service PutMsg, '' @ e))
     | None \<Rightarrow> ([RsToChain resp], None))"

text \<open>
  \<open>handleCloseReq\<close> up to the send to the group, and from the receipt on.
\<close>

definition handleCloseReq ::
  "RequestGroupKey \<Rightarrow> RequestScheduler \<Rightarrow> (RequestScheduler \<times> error option) go" where
  "handleCloseReq msg s =
     (let groupKey = contract_key (rgk_ChainID msg) (rgk_ContractName msg) (rgk_ContractVersion msg)
      in case map_of (rs_requestGroups s) groupKey of
           None \<Rightarrow> Val (s, Some (''request group '' @ groupKey @ '' not found''))
         | Some grp \<Rightarrow> go_bind (rg_PutMsg RgClose grp) (\<lambda>(grp', e). case e of
             Some e \<Rightarrow> Val (s\<lparr>rs_requestGroups := AList.update groupKey grp' (rs_requestGroups s)\<rparr>,
                Some (''failed to invoke request group PutMsg, '' @ e))
           | None \<Rightarrow> Val (s\<lparr>rs_requestGroups := AList.update groupKey grp' (rs_requestGroups s),
                rs_closing := Some groupKey\<rparr>, None)))"

definition finishCloseReq :: "RequestScheduler \<Rightarrow> RequestScheduler option" where
  "finishCloseReq s = (case rs_closing s of
       None \<Rightarrow> None
     | Some groupKey \<Rightarrow> (case map_of (rs_requestGroups s) groupKey of
         None \<Rightarrow> None
       | Some grp \<Rightarrow> if rg_stopCh grp = 0
           then Some (s\<lparr>rs_requestGroups := AList.delete groupKey (rs_requestGroups s),
                  rs_removed := grp # rs_removed s, rs_closing := None\<rparr>)
           else None))"

datatype rs_select = RsSelEvent | RsSelTx | RsSelClose

text \<open>One iteration of the loop in \<open>Start\<close>; \<^term>\<open>None\<close> when the chosen case is not ready.\<close>

definition rs_loop ::
  "rs_env \<Rightarrow> rs_select \<Rightarrow> RequestScheduler \<Rightarrow> (RequestScheduler \<times> rs_out list) go option" where
  "rs_loop en sel s =
     (if rs_closing s \<noteq> None then None else case sel of
        RsSelEvent \<Rightarrow> (case rs_eventCh s of
            [] \<Rightarrow> None
          | msg # msgs \<Rightarrow> Some (Val (s\<lparr>rs_eventCh := msgs\<rparr>,
              if m_Type msg = GET_BYTECODE_REQUEST then fst (rs_handleGetContractReq en msg)
              else if m_Type msg = GET_BYTECODE_RESPONSE then fst (rs_handleGetContractResp en msg)
              else if m_Type msg = ERROR then fst (rs_handleErrResp en msg)
              else [])))
      | RsSelTx \<Rightarrow> (case rs_txCh s of
            [] \<Rightarrow> None
          | msg # msgs \<Rightarrow> Some (go_bind (rs_handleTxReq msg (s\<lparr>rs_txCh := msgs\<rparr>)) (\<lambda>(s', e). Val (s', []))))
      | RsSelClose \<Rightarrow> (case rs_closeCh s of
            [] \<Rightarrow> None
          | msg # msgs \<Rightarrow> Some (go_bind (handleCloseReq msg (s\<lparr>rs_closeCh := msgs\<rparr>)) (\<lambda>(s', e). Val (s', [])))))"

section \<open>Properties\<close>

text \<open>
  a transaction goes to the request group of its contract and to no other.  When the scheduler
  handles a transaction, the group of its key, created if there was none, has it as the last
  element of its channel; every other group is unchanged, and no group disappears.
\<close>

theorem tx_reaches_its_group:
  assumes "m_Request req = Some rq" "rs_handleTxReq req s = Val (s', e)"
  shows "e = None \<and> (\<exists>r. GetRequestGroup (req_ChainId rq) (req_ContractName rq) (req_ContractVersion rq) s' = Some r \<and>
      rg_txCh r = (case GetRequestGroup (req_ChainId rq) (req_ContractName rq) (req_ContractVersion rq) s of
        None \<Rightarrow> [] | Some r0 \<Rightarrow> rg_txCh r0) @ [req]) \<and>
    (\<forall>k. k \<noteq> contract_key (req_ChainId rq) (req_ContractName rq) (req_ContractVersion rq) \<longrightarrow>
      map_of (rs_requestGroups s') k = map_of (rs_requestGroups s) k) \<and>
    fst ` set (rs_requestGroups s) \<subseteq> fst ` set (rs_requestGroups s')"
proof -
  let ?k = "contract_key (req_ChainId rq) (req_ContractName rq) (req_ContractVersion rq)"
  obtain r where r: "s' = s\<lparr>rs_requestGroups := AList.update ?k r (rs_requestGroups s)\<rparr>" "e = None"
      "rg_txCh r = (case map_of (rs_requestGroups s) ?k of None \<Rightarrow> [] | Some r0 \<Rightarrow> rg_txCh r0) @ [req]"
    using assms by (auto simp: rs_handleTxReq_def rg_PutMsg_def NewRequestGroup_def Let_def split: if_splits option.splits)
  then show ?thesis by (simp add: GetRequestGroup_def update_conv' subset_insertI)
qed

theorem tx_reaches_its_group_witness:
  "\<exists>s' r. rs_handleTxReq (sample_request ''t'' 0) NewRequestScheduler = Val (s', None) \<and>
     GetRequestGroup [] [] [] s' = Some r \<and> rg_txCh r = [sample_request ''t'' 0]"
proof -
  obtain s' e where h: "rs_handleTxReq (sample_request ''t'' 0) NewRequestScheduler = Val (s', e)"
    by (auto simp: rs_handleTxReq_def sample_request_def NewRequestScheduler_def NewRequestGroup_def rg_PutMsg_def
        requestGroupTxChSize_def zero_req_def Let_def)
  have "m_Request (sample_request ''t'' 0) = Some zero_req" by (simp add: sample_request_def)
  from tx_reaches_its_group[OF this h] h show ?thesis
    by (auto simp: zero_req_def GetRequestGroup_def NewRequestScheduler_def)
qed

end
