(* ===== verification/Contract_Manager.thy ===== *)
theory Contract_Manager
  imports Engine_Config Lru_Cache Paths Files
begin

text \<open>
  The contract manager, \<open>core/contract_manager.go\<close>.  It keeps the paths of the contract binaries
  in an LRU cache and removes the binaries that fall out of it.

  The disk, which the Go code reaches through the operating system, is the field \<open>cm_disk\<close>.
  Messages to the scheduler and to request groups are outputs.
\<close>

section \<open>State\<close>

definition DockerMountDir :: string where "DockerMountDir = ''/mount''"
definition ContractsDir :: string where "ContractsDir = ''contract-bins''"
definition sizePerContract :: int where "sizePerContract = 15"
definition contractManagerEventChSize :: nat where "contractManagerEventChSize = 64"

datatype cm_msg = CmMsg DockerVMMessage | CmBadContract BadContractResp | CmUnknown

record ContractManager =
  contractsLRU :: "(string, string) Cache"
  cm_scheduler :: bool
  cm_eventCh :: "cm_msg list"
  mountDir :: string
  cm_disk :: disk

record cm_env =
  ce_fs :: fs_env
  ce_cfg :: conf
  ce_hasGroup :: "string \<Rightarrow> string \<Rightarrow> string \<Rightarrow> bool"
  ce_schedErr :: "error option"
  ce_groupErr :: "error option"

datatype cm_out =
    CmToScheduler DockerVMMessage
  | CmToGroup string string string DockerVMMessage

text \<open>Go's integer division truncates towards zero.\<close>

definition go_div :: "int \<Rightarrow> int \<Rightarrow> int" where
  "go_div a b = sgn a * sgn b * (\<bar>a\<bar> div \<bar>b\<bar>)"

definition initContractPath :: "cm_env \<Rightarrow> ContractManager \<Rightarrow> ContractManager \<times> error option" where
  "initContractPath en cm =
     (let contractDir = filepath_Join [DockerMountDir, ContractsDir];
          (d, e) = CreateDir (ce_fs en) contractDir (cm_disk cm)
      in (cm\<lparr>cm_disk := d\<rparr>, e))"

text \<open>The loop over the files of the mount directory.\<close>

fun load_files :: "cm_env \<Rightarrow> nat \<Rightarrow> string list \<Rightarrow> ContractManager \<Rightarrow> ContractManager \<times> error option" where
  "load_files en i [] cm = (cm, None)"
| "load_files en i (name # names) cm =
     (let path = filepath_Join [mountDir cm, name]
      in if int i < MaxEntries (contractsLRU cm)
         then load_files en (Suc i) names (cm\<lparr>contractsLRU := fst (Add (contractsLRU cm) name path)\<rparr>)
         else let (d, e) = RemoveDir (ce_fs en) path (cm_disk cm)
              in (case e of
                    Some e \<Rightarrow> (cm\<lparr>cm_disk := d\<rparr>, Some (''failed to remove contract files, file path: ['' @ path @ ''], '' @ e))
                  | None \<Rightarrow> load_files en (Suc i) names (cm\<lparr>cm_disk := d\<rparr>)))"

definition initContractLRU ::
  "cm_env \<Rightarrow> ContractManager \<Rightarrow> ContractManager \<times> error option" where
  "initContractLRU en cm = (case initContractPath en cm of
       (cm1, Some e) \<Rightarrow> (cm1, Some (''failed to init contract path, '' @ e))
     | (cm1, None) \<Rightarrow> (case ReadDir (ce_fs en) (mountDir cm1) (cm_disk cm1) of
         Inl e \<Rightarrow> (cm1, Some (''failed to read contract dir ['' @ mountDir cm1 @ ''], '' @ e))
       | Inr files \<Rightarrow> load_files en 0 files cm1))"

definition NewContractManager :: "cm_env \<Rightarrow> disk \<Rightarrow> disk \<times> ContractManager res" where
  "NewContractManager en d =
     (let cm = \<lparr>contractsLRU = NewCache (go_div (MaxFileSize (Contract_conf (ce_cfg en))) sizePerContract),
            cm_scheduler = False, cm_eventCh = [], mountDir = filepath_Join [DockerMountDir, ContractsDir], cm_disk = d\<rparr>
      in case initContractLRU en cm of
           (cm1, Some e) \<Rightarrow> (cm_disk cm1, Inl e)
         | (cm1, None) \<Rightarrow> (cm_disk cm1, Inr cm1))"

definition cm_SetScheduler :: "ContractManager \<Rightarrow> ContractManager" where
  "cm_SetScheduler cm = cm\<lparr>cm_scheduler := True\<rparr>"

definition cm_PutMsg :: "cm_msg \<Rightarrow> ContractManager \<Rightarrow> (ContractManager \<times> error option) go" where
  "cm_PutMsg msg cm =
     (if msg = CmUnknown then Val (cm, Some ''unknown msg type'')
      else if length (cm_eventCh cm) \<ge> contractManagerEventChSize then Block
      else Val (cm\<lparr>cm_eventCh := cm_eventCh cm @ [msg]\<rparr>, None))"

definition GetContractMountDir :: "ContractManager \<Rightarrow> string" where
  "GetContractMountDir cm = mountDir cm"

section \<open>Handlers\<close>

definition sendContractReadySignal ::
  "cm_env \<Rightarrow> string \<Rightarrow> string \<Rightarrow> string \<Rightarrow> DockerVMCode \<Rightarrow> ContractManager \<Rightarrow> cm_out list \<times> error option" where
  "sendContractReadySignal en chainID contractName contractVersion status cm =
     (if \<not> cm_scheduler cm then ([], Some ''request scheduler has not been initialized'')
      else if \<not> ce_hasGroup en chainID contractName contractVersion
      then ([], Some (''failed to get request group, '' @ contract_key chainID contractName contractVersion))
      else case ce_groupErr en of
        Some e \<Rightarrow> ([], Some (''failed to invoke request group PutMsg, '' @ e))
      | None \<Rightarrow> ([CmToGroup chainID contractName contractVersion (zero_msg\<lparr>m_ChainId := chainID,
            m_Type := GET_BYTECODE_RESPONSE, m_Response := Some (zero_resp\<lparr>resp_Code := status\<rparr>)\<rparr>)], None))"

definition requestContractFromChain ::
  "cm_env \<Rightarrow> DockerVMMessage \<Rightarrow> ContractManager \<Rightarrow> (cm_out list \<times> error option) go" where
  "requestContractFromChain en msg cm =
     (if \<not> cm_scheduler cm then Panic
      else case ce_schedErr en of
        Some e \<Rightarrow> Val ([], Some (''failed to invoke scheduler PutMsg, '' @ e))
      | None \<Rightarrow> Val ([CmToScheduler msg], None))"

definition handleGetContractReq ::
  "cm_env \<Rightarrow> DockerVMMessage \<Rightarrow> ContractManager \<Rightarrow> (ContractManager \<times> cm_out list \<times> error option) go" where
  "handleGetContractReq en req cm = (case m_Request req of
       None \<Rightarrow> Val (cm, [], Some ''empty request payload'')
     | Some rq \<Rightarrow>
         (let contractKey = contract_key (req_ChainId rq) (req_ContractName rq) (req_ContractVersion rq);
              (lru, found) = Get (contractsLRU cm) contractKey;
              cm1 = cm\<lparr>contractsLRU := lru\<rparr>
          in case found of
               Some path \<Rightarrow>
                 (let (out, e) = sendContractReadySignal en (req_ChainId rq) (req_ContractName rq) (req_ContractVersion rq) OK cm1
                  in Val (cm1, out, map_option (\<lambda>e. ''failed to handle get bytecode request, '' @ e) e))
             | None \<Rightarrow>
                 go_bind (requestContractFromChain en req cm1) (\<lambda>(out, e).
                   Val (cm1, out, map_option (\<lambda>e. ''failed to request contract from chain, '' @ e) e))))"

text \<open>The two halves of \<open>handleGetContractResp\<close>: making room, and saving the binary.\<close>

definition evictOldest :: "cm_env \<Rightarrow> ContractManager \<Rightarrow> ContractManager \<times> error option" where
  "evictOldest en cm =
     (if Len (contractsLRU cm) = MaxEntries (contractsLRU cm)
      then (case GetOldest (contractsLRU cm) of
          None \<Rightarrow> (cm, Some ''oldest contract is nil'')
        | Some oldestContractPath \<Rightarrow>
            let cm1 = cm\<lparr>contractsLRU := fst (RemoveOldest (contractsLRU cm))\<rparr>;
                (d, e) = RemoveDir (ce_fs en) oldestContractPath (cm_disk cm1)
            in (cm1\<lparr>cm_disk := d\<rparr>, map_option (\<lambda>e. ''failed to remove file, '' @ e) e))
      else (cm, None))"

definition saveContract :: "cm_env \<Rightarrow> TxResponse \<Rightarrow> ContractManager \<Rightarrow> ContractManager \<times> error option" where
  "saveContract en rs cm =
     (let contractKey = contract_key (resp_ChainId rs) (resp_ContractName rs) (resp_ContractVersion rs);
          path = filepath_Join [mountDir cm, contractKey];
          cm1 = cm\<lparr>contractsLRU := fst (Add (contractsLRU cm) contractKey path)\<rparr>
      in if ChainRPCProtocol (RPC (ce_cfg en)) = TCP
         then (if blen (resp_Result rs) = 0 then (cm1, Some ''invalid contract, contract is nil'')
               else let (d, e) = WriteFile (ce_fs en) path (bytes_str (resp_Result rs)) (cm_disk cm1)
                 in (cm1\<lparr>cm_disk := d\<rparr>,
                     map_option (\<lambda>e. ''failed to write contract file, ['' @ contractKey @ '']'') e))
         else (cm1, None))"

definition handleGetContractResp ::
  "cm_env \<Rightarrow> DockerVMMessage \<Rightarrow> ContractManager \<Rightarrow> ContractManager \<times> error option" where
  "handleGetContractResp en resp cm = (case m_Response resp of
       None \<Rightarrow> (cm, Some ''empty response payload'')
     | Some rs \<Rightarrow>
         if resp_Code rs = FAIL then (cm, Some ''chain failed to load bytecode'')
         else case evictOldest en cm of
           (cm1, Some e) \<Rightarrow> (cm1, Some e)
         | (cm1, None) \<Rightarrow> saveContract en rs cm1)"

definition processContractResp ::
  "cm_env \<Rightarrow> DockerVMMessage \<Rightarrow> error option \<Rightarrow> ContractManager \<Rightarrow> (cm_out list \<times> error option) go" where
  "processContractResp en msg err cm =
     (let code = (case err of Some _ \<Rightarrow> FAIL | None \<Rightarrow> OK)
      in case m_Response msg of
           None \<Rightarrow> Panic
         | Some rs \<Rightarrow>
             let (out, sendErr) = sendContractReadySignal en (resp_ChainId rs) (resp_ContractName rs) (resp_ContractVersion rs) code cm
             in Val (out, case sendErr of
                    None \<Rightarrow> err
                  | Some e \<Rightarrow> Some ((case err of None \<Rightarrow> ''<nil>'' | Some x \<Rightarrow> x) @ '', '' @ e)))"

definition cm_handleBadContractResp ::
  "cm_env \<Rightarrow> BadContractResp \<Rightarrow> ContractManager \<Rightarrow> (ContractManager \<times> error option) go" where
  "cm_handleBadContractResp en msg cm = (case m_Request (bcr_Tx msg) of
       None \<Rightarrow> Panic
     | Some rq \<Rightarrow>
         (let contractKey = contract_key (req_ChainId rq) (req_ContractName rq) (req_ContractVersion rq);
              (lru, found) = Get (contractsLRU cm) contractKey
          in case found of
               None \<Rightarrow> Val (cm\<lparr>contractsLRU := lru\<rparr>, Some (''contract '' @ contractKey @ '' not exists in lru''))
             | Some path \<Rightarrow>
                 (let cm1 = cm\<lparr>contractsLRU := fst (Remove lru contractKey)\<rparr>;
                      (d, e) = RemoveDir (ce_fs en) path (cm_disk cm1)
                  in Val (cm1\<lparr>cm_disk := d\<rparr>,
                          map_option (\<lambda>e. ''failed to remove file, '' @ e) e))))"

text \<open>One iteration of the loop in \<open>Start\<close>; errors are logged.\<close>

definition cm_loop :: "cm_env \<Rightarrow> ContractManager \<Rightarrow> (ContractManager \<times> cm_out list) go option" where
  "cm_loop en cm = (case cm_eventCh cm of
       [] \<Rightarrow> None
     | msg # msgs \<Rightarrow> Some (let cm1 = cm\<lparr>cm_eventCh := msgs\<rparr> in case msg of
           CmMsg m \<Rightarrow>
             if m_Type m = GET_BYTECODE_REQUEST
             then go_bind (handleGetContractReq en m cm1) (\<lambda>(cm2, out, e). Val (cm2, out))
             else if m_Type m = GET_BYTECODE_RESPONSE
             then (let (cm2, e) = handleGetContractResp en m cm1
                   in go_bind (processContractResp en m e cm2) (\<lambda>(out, e). Val (cm2, out)))
             else Val (cm1, [])
         | CmBadContract m \<Rightarrow> go_bind (cm_handleBadContractResp en m cm1) (\<lambda>(cm2, e). Val (cm2, []))
         | CmUnknown \<Rightarrow> Val (cm1, [])))"

section \<open>Invariant\<close>

text \<open>
  Every entry of the cache names the file of its key, and the cache is within its limit.  When
  files can be removed, every entry of the mount directory is the file of a cached binary.
\<close>

definition cm_inv :: "ContractManager \<Rightarrow> bool" where
  "cm_inv cm \<longleftrightarrow> lru_inv (contractsLRU cm) \<and>
     (\<forall>e\<in>set (lru_abs (contractsLRU cm)). snd e = filepath_Join [mountDir cm, fst e])"

definition dir_paths :: "string \<Rightarrow> disk \<Rightarrow> string set" where
  "dir_paths dir d = {p \<in> fst ` set d. child_name dir p \<noteq> None}"

definition no_orphans :: "ContractManager \<Rightarrow> bool" where
  "no_orphans cm \<longleftrightarrow> dir_paths (mountDir cm) (cm_disk cm) \<subseteq> snd ` set (lru_abs (contractsLRU cm))"

definition fs_removes :: "fs_env \<Rightarrow> bool" where
  "fs_removes en \<longleftrightarrow> fs_chmodErr en = (\<lambda>_. None) \<and> fs_removeErr en = (\<lambda>_. None)"

lemma dir_paths_delete: "dir_paths dir (AList.delete p d) = dir_paths dir d - {p}"
  by (auto simp: dir_paths_def)

lemma dir_paths_update: "dir_paths dir (AList.update p v d) \<subseteq> insert p (dir_paths dir d)"
  by (auto simp: dir_paths_def)

lemma removed_paths:
  "fs_removes en \<Longrightarrow> dir_paths dir (fst (RemoveDir en p d)) = dir_paths dir d - {p}"
  by (auto simp: RemoveDir_def fs_removes_def dir_paths_delete map_of_eq_None_iff)
    (auto simp: dir_paths_def)

lemma written_paths: "dir_paths dir (fst (WriteFile en p v d)) \<subseteq> insert p (dir_paths dir d)"
  using dir_paths_update[of dir p _ d] by (auto simp: WriteFile_def split: option.split)

lemma set_mru_touch: "gm_ok xs \<Longrightarrow> set (mru_touch k xs) = set xs"
  by (auto simp: mru_touch_def split: option.split dest: map_of_SomeD eq_key_imp_eq_value)

lemmas cm_lru = lru_code.lru_simps

lemma cached_get:
  assumes "cm_inv cm" shows "cm_inv (cm\<lparr>contractsLRU := fst (Get (contractsLRU cm) k)\<rparr>)"
  using assms lru_code.keys[of "contractsLRU cm"] by (auto simp: cm_inv_def cm_lru set_mru_touch)

lemma set_mru_add: "set (fst (mru_add mx k v xs)) \<subseteq> insert (k, v) {e \<in> set xs. fst e \<noteq> k}"
  by (auto simp: mru_add_def Let_def dest: in_set_butlastD split: if_splits)

lemma cached_add:
  assumes "cm_inv cm" "mountDir cm = dir"
  shows "cm_inv (cm\<lparr>contractsLRU := fst (Add (contractsLRU cm) k (filepath_Join [dir, k]))\<rparr>)"
  using assms set_mru_add[of "MaxEntries (contractsLRU cm)" k "filepath_Join [dir, k]" "lru_abs (contractsLRU cm)"]
  by (auto simp: cm_inv_def cm_lru)

lemma cached_remove:
  assumes "cm_inv cm"
  shows "cm_inv (cm\<lparr>contractsLRU := fst (Remove (contractsLRU cm) k)\<rparr>)"
    "cm_inv (cm\<lparr>contractsLRU := fst (RemoveOldest (contractsLRU cm))\<rparr>)"
  using assms by (auto simp: cm_inv_def cm_lru dest: in_set_butlastD)

lemma inv_frame [simp]: "cm_inv (cm\<lparr>cm_disk := d\<rparr>) = cm_inv cm" "cm_inv (cm\<lparr>cm_eventCh := q\<rparr>) = cm_inv cm"
  "cm_inv (cm\<lparr>cm_scheduler := b\<rparr>) = cm_inv cm"
  "no_orphans (cm\<lparr>cm_eventCh := q\<rparr>) = no_orphans cm" "no_orphans (cm\<lparr>cm_scheduler := b\<rparr>) = no_orphans cm"
  by (simp_all add: cm_inv_def no_orphans_def)

section \<open>The handlers keep the invariant\<close>

definition cm_room :: "ContractManager \<Rightarrow> bool" where
  "cm_room cm \<longleftrightarrow> int (length (lru_abs (contractsLRU cm))) < MaxEntries (contractsLRU cm)"

lemma add_with_room:
  assumes "cm_inv cm" "cm_room cm"
  shows "lru_abs (fst (Add (contractsLRU cm) k v)) = (k, v) # AList.delete k (lru_abs (contractsLRU cm))"
  using assms length_delete_le[of k "lru_abs (contractsLRU cm)"]
  by (auto simp: cm_inv_def cm_room_def cm_lru mru_add_def Let_def)

lemma evict_frame:
  "mountDir (fst (evictOldest en cm)) = mountDir cm"
  "MaxEntries (contractsLRU (fst (evictOldest en cm))) = MaxEntries (contractsLRU cm)"
  by (auto simp: evictOldest_def cm_lru Let_def split: option.split prod.split)

lemma evict_inv: "cm_inv cm \<Longrightarrow> cm_inv (fst (evictOldest en cm))"
  using cached_remove(2)[of cm] by (auto simp: evictOldest_def Let_def split: option.split prod.split)

definition cm_bounded :: "ContractManager \<Rightarrow> bool" where
  "cm_bounded cm \<longleftrightarrow> int (length (lru_abs (contractsLRU cm))) \<le> MaxEntries (contractsLRU cm)"

lemma int_pred_less: "xs \<noteq> [] \<Longrightarrow> int (length xs) = m \<Longrightarrow> int (length xs - Suc 0) < m"
  by (cases xs) auto

lemma evict_bounded:
  assumes "cm_inv cm" "cm_bounded cm"
  shows "cm_bounded (fst (evictOldest en cm))"
    "snd (evictOldest en cm) = None \<Longrightarrow> cm_room (fst (evictOldest en cm))"
  using assms
  by (auto simp: evictOldest_def cm_inv_def cm_room_def cm_bounded_def cm_lru Let_def int_pred_less
      split: option.splits prod.splits if_splits)

lemma image_butlast: "f ` set xs - {f (last xs)} \<subseteq> f ` set (butlast xs)"
  by (cases xs rule: rev_cases) auto

lemma orphans_shrink:
  assumes "no_orphans cm" "fs_removes en"
    "snd ` set (lru_abs (contractsLRU cm)) - {p} \<subseteq> snd ` set (lru_abs L)"
  shows "no_orphans (cm\<lparr>contractsLRU := L, cm_disk := fst (RemoveDir en p (cm_disk cm))\<rparr>)"
  using assms(1,3) removed_paths[OF assms(2), of "mountDir cm" p "cm_disk cm"] unfolding no_orphans_def by simp blast

lemma evict_orphans:
  assumes "cm_inv cm" "no_orphans cm" "fs_removes (ce_fs en)"
  shows "no_orphans (fst (evictOldest en cm))"
proof (cases "Len (contractsLRU cm) = MaxEntries (contractsLRU cm) \<and> lru_abs (contractsLRU cm) \<noteq> []")
  case True
  let ?xs = "lru_abs (contractsLRU cm)" and ?L = "fst (RemoveOldest (contractsLRU cm))"
  have i: "lru_inv (contractsLRU cm)" using assms(1) by (simp add: cm_inv_def)
  have "no_orphans (cm\<lparr>contractsLRU := ?L, cm_disk := fst (RemoveDir (ce_fs en) (snd (last ?xs)) (cm_disk cm))\<rparr>)"
    using image_butlast[of snd ?xs] i by (intro orphans_shrink[OF assms(2,3)]) (simp add: cm_lru)
  then show ?thesis using True i by (simp add: evictOldest_def cm_lru Let_def case_prod_beta)
next
  case False
  then show ?thesis using assms by (auto simp: evictOldest_def cm_inv_def cm_lru)
qed

lemma save_frame:
  "mountDir (fst (saveContract en rs cm)) = mountDir cm"
  "MaxEntries (contractsLRU (fst (saveContract en rs cm))) = MaxEntries (contractsLRU cm)"
  by (auto simp: saveContract_def cm_lru Let_def split: prod.split)

lemma save_inv: "cm_inv cm \<Longrightarrow> cm_inv (fst (saveContract en rs cm))"
  using cached_add[of cm "mountDir cm"] by (auto simp: saveContract_def Let_def split: prod.split)

lemma save_bounded:
  assumes "cm_inv cm" "cm_room cm" shows "cm_bounded (fst (saveContract en rs cm))"
  using assms add_with_room[OF assms] length_delete_le[of
      "contract_key (resp_ChainId rs) (resp_ContractName rs) (resp_ContractVersion rs)" "lru_abs (contractsLRU cm)"]
  by (auto simp: saveContract_def cm_bounded_def cm_room_def cm_lru Let_def split: prod.split)

lemma save_orphans:
  assumes "cm_inv cm" "no_orphans cm" "cm_room cm"
  shows "no_orphans (fst (saveContract en rs cm))"
proof -
  let ?k = "contract_key (resp_ChainId rs) (resp_ContractName rs) (resp_ContractVersion rs)"
  let ?p = "filepath_Join [mountDir cm, ?k]"
  have "snd ` set (lru_abs (contractsLRU cm)) \<subseteq> insert ?p (snd ` {e \<in> set (lru_abs (contractsLRU cm)). fst e \<noteq> ?k})"
    using assms(1) by (auto simp: cm_inv_def)
  then have s: "insert ?p (dir_paths (mountDir cm) (cm_disk cm)) \<subseteq>
      snd ` set (lru_abs (fst (Add (contractsLRU cm) ?k ?p)))"
    using assms(2) unfolding add_with_room[OF assms(1,3)] no_orphans_def by auto
  show ?thesis
    using s written_paths[of "mountDir cm" "ce_fs en" ?p "bytes_str (resp_Result rs)" "cm_disk cm"]
    by (auto simp: saveContract_def no_orphans_def Let_def split: prod.split)
qed

definition cm_good :: "ContractManager \<Rightarrow> bool" where
  "cm_good cm \<longleftrightarrow> cm_inv cm \<and> no_orphans cm \<and> cm_bounded cm"

lemma response_good:
  assumes "cm_good cm" "fs_removes (ce_fs en)"
  shows "cm_good (fst (handleGetContractResp en resp cm))"
proof -
  obtain cm1 e where ev: "evictOldest en cm = (cm1, e)" by (cases "evictOldest en cm") auto
  have c1: "cm_good cm1"
    using evict_inv[of cm en] evict_orphans[of cm en] evict_bounded(1)[of cm en] assms ev by (simp add: cm_good_def)
  show ?thesis
  proof (cases e)
    case None
    then have "cm_room cm1" using evict_bounded(2)[of cm en] assms(1) ev by (simp add: cm_good_def)
    then have "cm_good (fst (saveContract en rs cm1))" for rs
      using save_inv[of cm1 en rs] save_orphans[of cm1 en rs] save_bounded[of cm1 en rs] c1 by (simp add: cm_good_def)
    then show ?thesis using assms(1) ev None by (auto simp: handleGetContractResp_def split: option.split)
  next
    case (Some x)
    then show ?thesis using assms(1) c1 ev by (auto simp: handleGetContractResp_def split: option.split)
  qed
qed

lemma touched_good: "cm_good cm \<Longrightarrow> cm_good (cm\<lparr>contractsLRU := fst (Get (contractsLRU cm) k)\<rparr>)"
  using cached_get[of cm k] lru_code.keys[of "contractsLRU cm"]
  by (auto simp: cm_good_def no_orphans_def cm_inv_def cm_bounded_def cm_lru set_mru_touch length_mru_touch)

lemma request_good:
  "cm_good cm \<Longrightarrow> handleGetContractReq en req cm = Val (cm', out, e) \<Longrightarrow> cm_good cm'"
  using touched_good[of cm]
  by (auto simp: handleGetContractReq_def Let_def split: option.splits prod.splits) (metis fst_conv)+

lemma bad_contract_good:
  assumes "cm_good cm" "fs_removes (ce_fs en)" "cm_handleBadContractResp en msg cm = Val (cm', e)"
  shows "cm_good cm'"
proof -
  obtain rq where rq: "m_Request (bcr_Tx msg) = Some rq"
    using assms(3) by (auto simp: cm_handleBadContractResp_def split: option.splits)
  let ?k = "contract_key (req_ChainId rq) (req_ContractName rq) (req_ContractVersion rq)"
  define cm1 where "cm1 = cm\<lparr>contractsLRU := fst (Get (contractsLRU cm) ?k)\<rparr>"
  have g: "cm_good cm1" using touched_good[OF assms(1)] by (simp add: cm1_def)
  then have i: "lru_inv (contractsLRU cm1)" by (simp add: cm_good_def cm_inv_def)
  show ?thesis
  proof (cases "snd (Get (contractsLRU cm) ?k)")
    case None
    then show ?thesis using assms(3) rq g
      by (auto simp: cm_handleBadContractResp_def cm1_def Let_def split: prod.splits)
  next
    case (Some p)
    then have p: "(?k, p) \<in> set (lru_abs (contractsLRU cm))"
      using assms(1) by (auto simp: cm_good_def cm_inv_def cm_lru dest: map_of_SomeD)
    then have p1: "p = filepath_Join [mountDir cm, ?k]" using assms(1) by (auto simp: cm_good_def cm_inv_def)
    have cm': "cm' = cm1\<lparr>contractsLRU := fst (Remove (contractsLRU cm1) ?k),
        cm_disk := fst (RemoveDir (ce_fs en) p (cm_disk cm))\<rparr>"
      using assms(3) rq Some by (auto simp: cm_handleBadContractResp_def cm1_def Let_def split: prod.splits)
    have "snd ` set (lru_abs (contractsLRU cm1)) - {p} \<subseteq> snd ` set (lru_abs (fst (Remove (contractsLRU cm1) ?k)))"
      using g i p1 by (auto simp: cm_good_def cm_inv_def cm_lru cm1_def)
    then have "no_orphans cm'"
      using orphans_shrink[OF _ assms(2), of cm1 p] g by (simp add: cm' cm_good_def cm1_def)
    moreover have "cm_bounded cm'"
      using g i length_delete_le[of ?k "lru_abs (contractsLRU cm1)"] by (simp add: cm' cm_good_def cm_bounded_def cm_lru)
    ultimately show ?thesis using cached_remove(1)[of cm1 ?k] g by (simp add: cm' cm_good_def)
  qed
qed

lemma loop_good:
  assumes "cm_good cm" "fs_removes (ce_fs en)" "cm_loop en cm = Some (Val (cm', out))"
  shows "cm_good cm'"
proof -
  obtain msg msgs where q: "cm_eventCh cm = msg # msgs" using assms(3) by (auto simp: cm_loop_def split: list.splits)
  let ?c = "cm\<lparr>cm_eventCh := msgs\<rparr>"
  have g: "cm_good ?c" using assms(1) by (simp add: cm_good_def cm_bounded_def)
  show ?thesis
    using assms(3) q g request_good[OF g] response_good[OF g assms(2)] bad_contract_good[OF g assms(2)]
    by (cases msg) (auto simp: cm_loop_def Let_def split: if_splits prod.splits, (metis fst_conv)+)
qed

section \<open>Loading the directory\<close>

lemma load_good:
  assumes "cm_inv cm" "cm_bounded cm" "length (lru_abs (contractsLRU cm)) \<le> i" "fs_removes (ce_fs en)"
    "dir_paths (mountDir cm) (cm_disk cm) \<subseteq>
       snd ` set (lru_abs (contractsLRU cm)) \<union> (\<lambda>n. filepath_Join [mountDir cm, n]) ` set names"
    "load_files en i names cm = (cm', None)"
  shows "cm_good cm' \<and> mountDir cm' = mountDir cm \<and> MaxEntries (contractsLRU cm') = MaxEntries (contractsLRU cm)"
  using assms
proof (induction names arbitrary: i cm)
  case Nil
  then show ?case by (simp add: cm_good_def no_orphans_def)
next
  case (Cons n ns)
  let ?p = "filepath_Join [mountDir cm, n]" and ?xs = "lru_abs (contractsLRU cm)"
  show ?case
  proof (cases "int i < MaxEntries (contractsLRU cm)")
    case True
    let ?c = "cm\<lparr>contractsLRU := fst (Add (contractsLRU cm) n ?p)\<rparr>"
    have "cm_room cm" using Cons.prems(3) True by (simp add: cm_room_def)
    note a = add_with_room[OF Cons.prems(1) this]
    have l: "length (lru_abs (contractsLRU ?c)) \<le> Suc i"
      using Cons.prems(3) length_delete_le[of n ?xs] by (simp add: a)
    moreover have "cm_bounded ?c" using l True by (simp add: cm_bounded_def cm_lru)
    moreover have "snd ` set ?xs \<subseteq> insert ?p (snd ` {e \<in> set ?xs. fst e \<noteq> n})"
      using Cons.prems(1) by (auto simp: cm_inv_def)
    then have "dir_paths (mountDir ?c) (cm_disk ?c) \<subseteq>
        snd ` set (lru_abs (contractsLRU ?c)) \<union> (\<lambda>n. filepath_Join [mountDir ?c, n]) ` set ns"
      using Cons.prems(5) by (simp add: a) blast
    ultimately show ?thesis
      using Cons.IH[of ?c "Suc i"] cached_add[OF Cons.prems(1) refl, of n] Cons.prems(4,6) True by (simp add: cm_lru)
  next
    case False
    let ?c = "cm\<lparr>cm_disk := fst (RemoveDir (ce_fs en) ?p (cm_disk cm))\<rparr>"
    have "load_files en (Suc i) ns ?c = (cm', None)"
      using Cons.prems(6) False by (auto simp: Let_def split: prod.splits option.splits)
    moreover have "dir_paths (mountDir ?c) (cm_disk ?c) \<subseteq>
        snd ` set (lru_abs (contractsLRU ?c)) \<union> (\<lambda>n. filepath_Join [mountDir ?c, n]) ` set ns"
      using Cons.prems(5) removed_paths[OF Cons.prems(4), of "mountDir cm" ?p "cm_disk cm"] by auto
    ultimately show ?thesis
      using Cons.IH[of ?c "Suc i"] Cons.prems(1-4) by (simp add: cm_bounded_def)
  qed
qed

definition contract_dir :: string where "contract_dir = abs_path [''mount'', ''contract-bins'']"

lemma mount_path: "filepath_Join [DockerMountDir, ContractsDir] = contract_dir"
  by code_simp

definition plain_children :: "string \<Rightarrow> disk \<Rightarrow> bool" where
  "plain_children dir d \<longleftrightarrow> (\<forall>p\<in>fst ` set d. child_name dir p \<noteq> None \<longrightarrow> plain_name (the (child_name dir p)))"

lemma plain_children_paths: "plain_children dir d \<longleftrightarrow> (\<forall>p\<in>dir_paths dir d. plain_name (the (child_name dir p)))"
  by (auto simp: plain_children_def dir_paths_def)

lemma child_path: "child_name dir p = Some n \<Longrightarrow> p = dir @ ''/'' @ n"
  by (auto simp: child_name_def Let_def split: if_splits) (metis append_take_drop_id append.assoc append_Cons append_Nil)

lemma child_join:
  assumes "child_name contract_dir p = Some n" "plain_name n"
  shows "filepath_Join [contract_dir, n] = p"
  using child_path[OF assms(1)] join_plain[of "[''mount'', ''contract-bins'']" n] assms(2)
  by (simp add: contract_dir_def plain_name_def abs_path_def)

lemma read_dir_paths:
  assumes "ReadDir en contract_dir d = Inr names" "plain_children contract_dir d"
  shows "dir_paths contract_dir d \<subseteq> (\<lambda>n. filepath_Join [contract_dir, n]) ` set names"
proof
  fix p assume p: "p \<in> dir_paths contract_dir d"
  then obtain n where n: "p \<in> fst ` set d" "child_name contract_dir p = Some n" by (auto simp: dir_paths_def)
  have "n \<in> set names"
    using assms(1) n by (force simp: ReadDir_def List.map_filter_def split: option.splits if_splits)
  moreover have "plain_name n" using assms(2) n by (auto simp: plain_children_def)
  ultimately show "p \<in> (\<lambda>n. filepath_Join [contract_dir, n]) ` set names"
    using child_join[OF n(2)] by force
qed

lemma keys_add_dir: "fst ` set (add_dir p d) = insert p (fst ` set d)"
  by (auto simp: add_dir_def map_of_None_iff)

lemma keys_add_dirs: "fst ` set (fold add_dir ps d) = set ps \<union> fst ` set d"
  by (induction ps arbitrary: d) (auto simp: keys_add_dir)

lemma mount_ancestors: "\<forall>p\<in>set (ancestors [] contract_dir). child_name contract_dir p = None"
  by code_simp

lemma create_paths: "dir_paths contract_dir (fst (CreateDir en contract_dir d)) = dir_paths contract_dir d"
proof -
  have "dir_paths contract_dir (fold add_dir (ancestors [] contract_dir) d) = dir_paths contract_dir d"
    using mount_ancestors unfolding dir_paths_def keys_add_dirs by auto
  then show ?thesis by (simp add: CreateDir_def MkdirAll_def split: sum.split option.split)
qed

lemma new_parts:
  assumes "NewContractManager en d = (d', Inr cm)"
  defines "c \<equiv> \<lparr>contractsLRU = NewCache (go_div (MaxFileSize (Contract_conf (ce_cfg en))) sizePerContract),
    cm_scheduler = False, cm_eventCh = [], mountDir = contract_dir,
    cm_disk = fst (CreateDir (ce_fs en) contract_dir d)\<rparr>"
  shows "\<exists>names. ReadDir (ce_fs en) contract_dir (cm_disk c) = Inr names \<and> load_files en 0 names c = (cm, None)"
proof (cases "CreateDir (ce_fs en) contract_dir d")
  case (Pair d1 e)
  then show ?thesis using assms
    by (cases e; cases "ReadDir (ce_fs en) contract_dir d1")
      (auto simp: NewContractManager_def initContractLRU_def initContractPath_def mount_path Let_def
        split: option.splits prod.splits)
qed

lemma new_good:
  assumes "NewContractManager en d = (d', Inr cm)" "0 \<le> MaxFileSize (Contract_conf (ce_cfg en))"
    "fs_removes (ce_fs en)" "plain_children contract_dir d"
  shows "cm_good cm \<and> mountDir cm = contract_dir \<and>
    MaxEntries (contractsLRU cm) = MaxFileSize (Contract_conf (ce_cfg en)) div sizePerContract"
proof -
  define mx where "mx = MaxFileSize (Contract_conf (ce_cfg en)) div sizePerContract"
  define d1 where "d1 = fst (CreateDir (ce_fs en) contract_dir d)"
  define c where "c = \<lparr>contractsLRU = NewCache mx, cm_scheduler = False, cm_eventCh = [],
    mountDir = contract_dir, cm_disk = d1\<rparr>"
  have mx: "go_div (MaxFileSize (Contract_conf (ce_cfg en))) sizePerContract = mx" "0 \<le> mx"
    using assms(2) by (auto simp: mx_def go_div_def sizePerContract_def sgn_if)
  obtain names where n: "ReadDir (ce_fs en) contract_dir d1 = Inr names" "load_files en 0 names c = (cm, None)"
    using new_parts[OF assms(1)] by (auto simp: c_def d1_def mx(1))
  have "plain_children contract_dir d1" using assms(4) by (simp add: plain_children_paths d1_def create_paths)
  then have "dir_paths contract_dir d1 \<subseteq> (\<lambda>n. filepath_Join [contract_dir, n]) ` set names"
    by (rule read_dir_paths[OF n(1)])
  then show ?thesis
    using load_good[of c 0 en names cm] n(2) assms(3) mx(2)
    by (simp add: c_def cm_inv_def cm_bounded_def cm_lru mx_def)
qed

section \<open>Runs\<close>

text \<open>
  The contract manager under a fixed configuration with TCP, where it alone writes the directory
  (with UDS the chain does): created on a disk whose directory entries have proper names, then fed
  messages that its loop handles.  Files can be removed; all other calls of
  the operating system may fail.
\<close>

inductive cm_run :: "conf \<Rightarrow> ContractManager \<Rightarrow> bool" for cfg where
  cr_new: "NewContractManager en d = (d', Inr cm) \<Longrightarrow> ce_cfg en = cfg \<Longrightarrow> ChainRPCProtocol (RPC cfg) = TCP \<Longrightarrow>
    fs_removes (ce_fs en) \<Longrightarrow> plain_children contract_dir d \<Longrightarrow> cm_run cfg cm"
| cr_scheduler: "cm_run cfg cm \<Longrightarrow> cm_run cfg (cm_SetScheduler cm)"
| cr_put: "cm_run cfg cm \<Longrightarrow> cm_PutMsg msg cm = Val (cm', e) \<Longrightarrow> cm_run cfg cm'"
| cr_loop: "cm_run cfg cm \<Longrightarrow> cm_loop en cm = Some (Val (cm', out)) \<Longrightarrow> ce_cfg en = cfg \<Longrightarrow>
    fs_removes (ce_fs en) \<Longrightarrow> cm_run cfg cm'"

definition cm_frame :: "ContractManager \<Rightarrow> ContractManager \<Rightarrow> bool" where
  "cm_frame cm cm' \<longleftrightarrow> mountDir cm' = mountDir cm \<and> MaxEntries (contractsLRU cm') = MaxEntries (contractsLRU cm)"

lemma response_frame: "cm_frame cm (fst (handleGetContractResp en resp cm))"
  using evict_frame[of en cm] save_frame[of en _ "fst (evictOldest en cm)"]
  by (auto simp: cm_frame_def handleGetContractResp_def split: option.split prod.splits)

lemma request_frame: "handleGetContractReq en req cm = Val (cm', out, e) \<Longrightarrow> cm_frame cm cm'"
  using lru_code.keep(2)[of "contractsLRU cm"]
  by (auto simp: cm_frame_def handleGetContractReq_def Let_def split: option.splits prod.splits) (metis fst_conv)+

lemma bad_contract_frame:
  assumes "cm_handleBadContractResp en msg cm = Val (cm', e)" shows "cm_frame cm cm'"
proof -
  obtain rq where rq: "m_Request (bcr_Tx msg) = Some rq"
    using assms by (auto simp: cm_handleBadContractResp_def split: option.splits)
  then show ?thesis
    using assms by (cases "snd (Get (contractsLRU cm) (contract_key (req_ChainId rq) (req_ContractName rq) (req_ContractVersion rq)))")
      (auto simp: cm_frame_def cm_handleBadContractResp_def Let_def lru_code.keep case_prod_beta)
qed

lemma loop_frame:
  assumes "cm_loop en cm = Some (Val (cm', out))" shows "cm_frame cm cm'"
proof -
  obtain msg msgs where q: "cm_eventCh cm = msg # msgs" using assms by (auto simp: cm_loop_def split: list.splits)
  let ?c = "cm\<lparr>cm_eventCh := msgs\<rparr>"
  have "cm_frame ?c cm'"
    using assms q request_frame[of en _ ?c cm'] response_frame[of ?c en] bad_contract_frame[of en _ ?c cm']
    by (cases msg) (auto simp: cm_loop_def Let_def cm_frame_def split: if_splits prod.splits, (metis fst_conv)+)
  then show ?thesis by (simp add: cm_frame_def)
qed

lemma run_good:
  assumes "cm_run cfg cm" "0 \<le> MaxFileSize (Contract_conf cfg)"
  shows "cm_good cm \<and> MaxEntries (contractsLRU cm) = MaxFileSize (Contract_conf cfg) div sizePerContract"
  using assms
proof induction
  case (cr_new en d d' cm)
  then show ?case using new_good[of en d d' cm] by simp
next
  case (cr_scheduler cm)
  then show ?case by (simp add: cm_SetScheduler_def cm_good_def cm_bounded_def)
next
  case (cr_put cm msg cm' e)
  then show ?case by (auto simp: cm_PutMsg_def cm_good_def cm_bounded_def split: if_splits)
next
  case (cr_loop cm en cm' out)
  then show ?case using loop_good[of cm en cm' out] loop_frame[of en cm cm' out] by (simp add: cm_frame_def)
qed

section \<open>Properties\<close>


definition sample_cm_env :: cm_env where
  "sample_cm_env = \<lparr>ce_fs = \<lparr>fs_statErr = \<lambda>_. None, fs_readDirErr = \<lambda>_. None, fs_chmodErr = \<lambda>_. None,
     fs_removeErr = \<lambda>_. None, fs_writeErr = \<lambda>_. None, fs_mkdirErr = \<lambda>_. None\<rparr>,
     ce_cfg = setDefaultConfigs\<lparr>Contract_conf := \<lparr>MaxFileSize = 30\<rparr>\<rparr>,
     ce_hasGroup = \<lambda>_ _ _. True, ce_schedErr = None, ce_groupErr = None\<rparr>"

definition sample_disk :: disk where
  "sample_disk = [(''/mount'', Dir), (''/mount/contract-bins'', Dir), (''/mount/contract-bins/z'', File ''1''),
     (''/mount/contract-bins/b'', File ''2''), (''/mount/contract-bins/a'', File ''3'')]"

definition sample_cm_resp :: "string \<Rightarrow> DockerVMMessage" where
  "sample_cm_resp code = zero_msg\<lparr>m_Type := GET_BYTECODE_RESPONSE, m_Response := Some (zero_resp\<lparr>resp_Code := OK,
     resp_ChainId := ''c'', resp_ContractName := ''n'', resp_ContractVersion := ''v'', resp_Result := Some code\<rparr>)\<rparr>"

definition sample_cm_req :: DockerVMMessage where
  "sample_cm_req = zero_msg\<lparr>m_Type := GET_BYTECODE_REQUEST, m_Request := Some (zero_req\<lparr>req_ChainId := ''c'',
     req_ContractName := ''n'', req_ContractVersion := ''v''\<rparr>)\<rparr>"

definition sample_cm :: ContractManager where
  "sample_cm = (case NewContractManager sample_cm_env sample_disk of (d, Inr cm) \<Rightarrow> cm_SetScheduler cm)"

text \<open>The manager after the message \<open>m\<close> has been put and handled.\<close>

definition sample_cm_after :: "DockerVMMessage \<Rightarrow> ContractManager" where
  "sample_cm_after m = (case cm_PutMsg (CmMsg m) sample_cm of
     Val (cm, e) \<Rightarrow> (case cm_loop sample_cm_env cm of Some (Val (cm', out)) \<Rightarrow> cm'))"

lemma sample_cm_run: "cm_run (ce_cfg sample_cm_env) sample_cm"
proof -
  have "snd (NewContractManager sample_cm_env sample_disk) = Inr (projr (snd (NewContractManager sample_cm_env sample_disk)))"
    by code_simp
  then obtain d cm where n: "NewContractManager sample_cm_env sample_disk = (d, Inr cm)"
    by (metis prod.collapse)
  moreover have "ChainRPCProtocol (RPC (ce_cfg sample_cm_env)) = TCP" "plain_children contract_dir sample_disk"
    by code_simp+
  moreover have "fs_removes (ce_fs sample_cm_env)" by (simp add: sample_cm_env_def fs_removes_def)
  ultimately have "cm_run (ce_cfg sample_cm_env) cm" by (intro cr_new) auto
  then show ?thesis using cr_scheduler by (simp add: sample_cm_def n)
qed

lemma val_result:
  "map_option (\<lambda>r. case r of Val _ \<Rightarrow> True | _ \<Rightarrow> False) x = Some True \<Longrightarrow> \<exists>a b. x = Some (Val (a, b))"
  by (cases x; cases "the x") auto

lemma sample_after_run: "cm_run (ce_cfg sample_cm_env) (sample_cm_after (sample_cm_resp ''code''))"
proof -
  let ?c = "sample_cm\<lparr>cm_eventCh := cm_eventCh sample_cm @ [CmMsg (sample_cm_resp ''code'')]\<rparr>"
  have p: "cm_PutMsg (CmMsg (sample_cm_resp ''code'')) sample_cm = Val (?c, None)"
    "map_option (\<lambda>r. case r of Val _ \<Rightarrow> True | _ \<Rightarrow> False) (cm_loop sample_cm_env ?c) = Some True"
    by code_simp+
  then obtain cm' out where l: "cm_loop sample_cm_env ?c = Some (Val (cm', out))"
    using val_result by blast
  have "cm_run (ce_cfg sample_cm_env) cm'"
    using cr_put[OF sample_cm_run p(1)] l by (rule cr_loop) (simp_all add: sample_cm_env_def fs_removes_def)
  then show ?thesis by (simp add: sample_cm_after_def p(1) l)
qed


text \<open>
  C28: a binary that was saved is served.  When the handling of a response succeeds, a later request
  for the same contract is answered from the cache with a ready signal to its group and no request
  to the chain; with TCP the file holds the bytes of the response.
\<close>

theorem saved_binary_is_served:
  assumes "lru_inv (contractsLRU cm)" "0 \<le> MaxEntries (contractsLRU cm)" "cm_scheduler cm'"
    "m_Response resp = Some rs" "handleGetContractResp en resp cm = (cm', None)" "m_Request req = Some rq"
    "req_ChainId rq = resp_ChainId rs" "req_ContractName rq = resp_ContractName rs"
    "req_ContractVersion rq = resp_ContractVersion rs"
    "ce_hasGroup en' (resp_ChainId rs) (resp_ContractName rs) (resp_ContractVersion rs)" "ce_groupErr en' = None"
  shows "\<exists>cm'' m. handleGetContractReq en' req cm' =
      Val (cm'', [CmToGroup (resp_ChainId rs) (resp_ContractName rs) (resp_ContractVersion rs) m], None) \<and>
      m_Type m = GET_BYTECODE_RESPONSE \<and> map_option resp_Code (m_Response m) = Some OK \<and>
      (ChainRPCProtocol (RPC (ce_cfg en)) = TCP \<longrightarrow> map_of (cm_disk cm') (filepath_Join [mountDir cm',
         contract_key (resp_ChainId rs) (resp_ContractName rs) (resp_ContractVersion rs)]) = Some (File (bytes_str (resp_Result rs))))"
proof -
  let ?k = "contract_key (resp_ChainId rs) (resp_ContractName rs) (resp_ContractVersion rs)"
  obtain cm1 where ev: "evictOldest en cm = (cm1, None)" and sv: "saveContract en rs cm1 = (cm', None)"
    using assms(4,5) by (auto simp: handleGetContractResp_def split: if_splits prod.splits option.splits)
  have i: "lru_inv (contractsLRU cm1)" "0 \<le> MaxEntries (contractsLRU cm1)"
    using ev assms(1,2) by (auto simp: evictOldest_def cm_lru Let_def split: if_splits option.splits prod.splits)
  have c: "contractsLRU cm' = fst (Add (contractsLRU cm1) ?k (filepath_Join [mountDir cm1, ?k]))"
    and d: "ChainRPCProtocol (RPC (ce_cfg en)) = TCP \<longrightarrow>
      map_of (cm_disk cm') (filepath_Join [mountDir cm', ?k]) = Some (File (bytes_str (resp_Result rs)))"
    using sv by (auto simp: saveContract_def WriteFile_def Let_def update_conv split: if_splits prod.splits option.splits)
  have "snd (Get (contractsLRU cm') ?k) = Some (filepath_Join [mountDir cm1, ?k])"
    unfolding c by (rule lru_code.get_after_add[OF i])
  then show ?thesis
    using assms(3,6-11) d
    by (auto simp: handleGetContractReq_def sendContractReadySignal_def Let_def case_prod_beta)
qed

theorem saved_binary_is_served_witness:
  "\<exists>cm'' m. handleGetContractReq sample_cm_env sample_cm_req (fst (handleGetContractResp sample_cm_env (sample_cm_resp ''code'') sample_cm)) =
     Val (cm'', [CmToGroup ''c'' ''n'' ''v'' m], None) \<and> map_option resp_Code (m_Response m) = Some OK"
proof -
  have i: "lru_inv (contractsLRU sample_cm)"
    using run_good[OF sample_cm_run] by (simp add: cm_good_def cm_inv_def sample_cm_env_def)
  have e: "0 \<le> MaxEntries (contractsLRU sample_cm)"
    "cm_scheduler (fst (handleGetContractResp sample_cm_env (sample_cm_resp ''code'') sample_cm))"
    "snd (handleGetContractResp sample_cm_env (sample_cm_resp ''code'') sample_cm) = None" by code_simp+
  have r: "handleGetContractResp sample_cm_env (sample_cm_resp ''code'') sample_cm =
      (fst (handleGetContractResp sample_cm_env (sample_cm_resp ''code'') sample_cm), None)"
    using e(3) by (metis prod.collapse)
  show ?thesis
    using saved_binary_is_served[OF i e(1,2) _ r, of "the (m_Response (sample_cm_resp ''code''))" sample_cm_req
        "the (m_Request sample_cm_req)" sample_cm_env]
    by (auto simp: sample_cm_resp_def sample_cm_req_def sample_cm_env_def)
qed

text \<open>
  C29: a binary that could not be saved is served as well.  With TCP, a response without contents is
  reported as a failure, but its key stays in the cache: the next request is answered with a
  ready signal although the file does not exist.
\<close>

theorem unsaved_binary_is_served:
  fixes rs :: TxResponse and cm :: ContractManager
  defines "k \<equiv> contract_key (resp_ChainId rs) (resp_ContractName rs) (resp_ContractVersion rs)"
  assumes "lru_inv (contractsLRU cm)" "0 \<le> MaxEntries (contractsLRU cm)" "cm_scheduler cm"
    "Len (contractsLRU cm) \<noteq> MaxEntries (contractsLRU cm)" "ChainRPCProtocol (RPC (ce_cfg en)) = TCP"
    "m_Response resp = Some rs" "resp_Code rs = OK" "blen (resp_Result rs) = 0"
    "map_of (cm_disk cm) (filepath_Join [mountDir cm, k]) = None"
    "m_Request req = Some rq" "req_ChainId rq = resp_ChainId rs" "req_ContractName rq = resp_ContractName rs"
    "req_ContractVersion rq = resp_ContractVersion rs"
    "ce_hasGroup en (resp_ChainId rs) (resp_ContractName rs) (resp_ContractVersion rs)" "ce_groupErr en = None"
  shows "\<exists>cm' cm'' e m. handleGetContractResp en resp cm = (cm', Some e) \<and>
    handleGetContractReq en req cm' =
      Val (cm'', [CmToGroup (resp_ChainId rs) (resp_ContractName rs) (resp_ContractVersion rs) m], None) \<and>
    map_option resp_Code (m_Response m) = Some OK \<and>
    map_of (cm_disk cm'') (filepath_Join [mountDir cm'', k]) = None"
proof -
  define c where "c = fst (Add (contractsLRU cm) k (filepath_Join [mountDir cm, k]))"
  have "handleGetContractResp en resp cm = (cm\<lparr>contractsLRU := c\<rparr>, Some ''invalid contract, contract is nil'')"
    using assms(4-9) by (simp add: handleGetContractResp_def evictOldest_def saveContract_def c_def k_def Let_def)
  moreover have "snd (Get c k) = Some (filepath_Join [mountDir cm, k])"
    unfolding c_def by (rule lru_code.get_after_add[OF assms(2,3)])
  ultimately show ?thesis
    using assms(4,10-16)
    by (auto simp: handleGetContractReq_def sendContractReadySignal_def Let_def case_prod_beta k_def)
qed

theorem unsaved_binary_is_served_witness:
  "\<exists>cm cm' cm'' e m. handleGetContractResp sample_cm_env (sample_cm_resp []) cm = (cm', Some e) \<and>
     handleGetContractReq sample_cm_env sample_cm_req cm' = Val (cm'', [CmToGroup ''c'' ''n'' ''v'' m], None) \<and>
     map_option resp_Code (m_Response m) = Some OK \<and> map_of (cm_disk cm'') ''/mount/contract-bins/c#n#v'' = None"
proof -
  define cm where "cm = \<lparr>contractsLRU = NewCache 2, cm_scheduler = True, cm_eventCh = [],
    mountDir = ''/mount/contract-bins'', cm_disk = sample_disk\<rparr>"
  have p: "filepath_Join [''/mount/contract-bins'', contract_key ''c'' ''n'' ''v''] = ''/mount/contract-bins/c#n#v''"
    "map_of sample_disk ''/mount/contract-bins/c#n#v'' = None"
    "ChainRPCProtocol (RPC (ce_cfg sample_cm_env)) = TCP" by code_simp+
  obtain cm' cm'' e m where r: "handleGetContractResp sample_cm_env (sample_cm_resp []) cm = (cm', Some e)"
      "handleGetContractReq sample_cm_env sample_cm_req cm' = Val (cm'', [CmToGroup ''c'' ''n'' ''v'' m], None)"
      "map_option resp_Code (m_Response m) = Some OK"
      "map_of (cm_disk cm'') (filepath_Join [mountDir cm'', contract_key ''c'' ''n'' ''v'']) = None"
    using unsaved_binary_is_served[of cm sample_cm_env "sample_cm_resp []" "the (m_Response (sample_cm_resp []))"
        sample_cm_req "the (m_Request sample_cm_req)"] p
    by (auto simp: cm_def cm_lru sample_cm_resp_def sample_cm_req_def blen_def sample_cm_env_def)
  have "mountDir cm'' = ''/mount/contract-bins''"
    using request_frame[OF r(2)] response_frame[of cm sample_cm_env "sample_cm_resp []"] r(1) by (simp add: cm_frame_def cm_def)
  then have "map_of (cm_disk cm'') ''/mount/contract-bins/c#n#v'' = None" using r(4) unfolding p(1)[symmetric] by simp
  then show ?thesis using r(1-3) by blast
qed


text \<open>
  with less than 15 MiB configured the engine can run no contract: creating the manager removes
  every binary, and in every run every response of the chain is refused.
\<close>

theorem small_limit_refuses_all:
  assumes "cm_run cfg cm" "0 \<le> MaxFileSize (Contract_conf cfg)" "MaxFileSize (Contract_conf cfg) < sizePerContract"
  shows "dir_paths (mountDir cm) (cm_disk cm) = {} \<and> snd (handleGetContractResp en resp cm) \<noteq> None"
proof -
  have g: "cm_good cm" "MaxEntries (contractsLRU cm) = 0"
    using run_good[OF assms(1,2)] assms(2,3) by (auto simp: sizePerContract_def)
  then have "lru_abs (contractsLRU cm) = []" by (simp add: cm_good_def cm_bounded_def)
  then show ?thesis using g
    by (auto simp: cm_good_def no_orphans_def cm_inv_def handleGetContractResp_def evictOldest_def cm_lru
        split: option.split)
qed

definition tiny_cm_env :: cm_env where
  "tiny_cm_env = sample_cm_env\<lparr>ce_cfg := setDefaultConfigs\<lparr>Contract_conf := \<lparr>MaxFileSize = 14\<rparr>\<rparr>\<rparr>"

theorem small_limit_refuses_all_witness:
  "\<exists>d cm. NewContractManager tiny_cm_env sample_disk = (d, Inr cm) \<and> dir_paths (mountDir cm) (cm_disk cm) = {} \<and>
     snd (handleGetContractResp tiny_cm_env (sample_cm_resp ''code'') cm) \<noteq> None"
proof -
  have "snd (NewContractManager tiny_cm_env sample_disk) = Inr (projr (snd (NewContractManager tiny_cm_env sample_disk)))"
    by code_simp
  then obtain d cm where n: "NewContractManager tiny_cm_env sample_disk = (d, Inr cm)" by (metis prod.collapse)
  have "ChainRPCProtocol (RPC (ce_cfg tiny_cm_env)) = TCP" "plain_children contract_dir sample_disk" by code_simp+
  then have "cm_run (ce_cfg tiny_cm_env) cm"
    using n by (intro cr_new) (auto simp: tiny_cm_env_def sample_cm_env_def fs_removes_def)
  then show ?thesis
    using n small_limit_refuses_all[of "ce_cfg tiny_cm_env" cm tiny_cm_env "sample_cm_resp ''code''"]
    by (auto simp: tiny_cm_env_def sizePerContract_def)
qed

end
