(* ===== verification/Engine.thy ===== *)
theory Engine
  imports Request_Scheduler Contract_Manager
begin

text \<open>
  The contract engine between the chain and the process managers: the request scheduler, its
  request groups and the contract manager running concurrently, as \<open>vm_mgr/module/manager.go\<close>
  wires them.  A step is one iteration of one component's loop; the messages it sends are put
  into the channels of their receivers at its end, and the step can happen once they have room.

  \<open>eng_run\<close> collects the steps.  Requests to close a group do not occur: the only sender,
  \<open>closeRequestGroup\<close> of the process manager, is not called.
\<close>

section \<open>The composed engine\<close>

record engine =
  e_sched :: RequestScheduler
  e_cm :: ContractManager
  e_chain :: "DockerVMMessage list"
  e_reqs :: "(bool \<times> GetProcessReqMsg) list"
  e_taken :: "TxPayload list"

abbreviation e_groups :: "engine \<Rightarrow> (string, RequestGroup) gomap" where
  "e_groups e \<equiv> rs_requestGroups (e_sched e)"

definition set_group :: "string \<Rightarrow> RequestGroup \<Rightarrow> engine \<Rightarrow> engine" where
  "set_group k r e = e\<lparr>e_sched := (e_sched e)\<lparr>rs_requestGroups := AList.update k r (e_groups e)\<rparr>\<rparr>"

text \<open>Delivery of what a group, the contract manager and the scheduler send.\<close>

definition to_sched :: "rs_msg \<Rightarrow> engine \<Rightarrow> engine go" where
  "to_sched m e = go_bind (rs_PutMsg m (e_sched e)) (\<lambda>(s, err). Val (e\<lparr>e_sched := s\<rparr>))"

definition to_cm :: "cm_msg \<Rightarrow> engine \<Rightarrow> engine go" where
  "to_cm m e = go_bind (cm_PutMsg m (e_cm e)) (\<lambda>(c, err). Val (e\<lparr>e_cm := c\<rparr>))"

definition to_group :: "string \<Rightarrow> rg_msg \<Rightarrow> engine \<Rightarrow> engine go" where
  "to_group k m e = (case map_of (e_groups e) k of
       None \<Rightarrow> Val e
     | Some r \<Rightarrow> go_bind (rg_PutMsg m r) (\<lambda>(r', err). Val (set_group k r' e)))"

fun send_rg :: "rg_out \<Rightarrow> engine \<Rightarrow> engine go" where
  "send_rg (RgToScheduler m) e = to_sched (RsVm m) e"
| "send_rg (RgGetContract m) e = to_cm (CmMsg m) e"
| "send_rg (RgRemoveContract b) e = to_cm (CmBadContract b) e"
| "send_rg (RgGetProcess b q) e = Val (e\<lparr>e_reqs := e_reqs e @ [(b, q)]\<rparr>)"

fun send_cm :: "cm_out \<Rightarrow> engine \<Rightarrow> engine go" where
  "send_cm (CmToScheduler m) e = to_sched (RsVm m) e"
| "send_cm (CmToGroup c n v m) e = to_group (contract_key c n v) (RgTx m) e"

fun send_rs :: "rs_out \<Rightarrow> engine \<Rightarrow> engine go" where
  "send_rs (RsToChain m) e = Val (e\<lparr>e_chain := e_chain e @ [m]\<rparr>)"
| "send_rs (RsToManager m) e = to_cm (CmMsg m) e"

fun send_all :: "('x \<Rightarrow> engine \<Rightarrow> engine go) \<Rightarrow> 'x list \<Rightarrow> engine \<Rightarrow> engine go" where
  "send_all f [] e = Val e"
| "send_all f (x # xs) e = go_bind (f x e) (send_all f xs)"

text \<open>
  The environments the components see inside the engine: \<open>PutMsg\<close> of the scheduler, the contract
  manager, the groups and the chain service returns no error for the messages they are sent.
\<close>

definition cm_sees :: "engine \<Rightarrow> cm_env \<Rightarrow> bool" where
  "cm_sees e en \<longleftrightarrow> (\<forall>c n v. ce_hasGroup en c n v = (GetRequestGroup c n v (e_sched e) \<noteq> None)) \<and>
     ce_schedErr en = None \<and> ce_groupErr en = None"

definition rg_sees :: "engine \<Rightarrow> rg_env \<Rightarrow> bool" where
  "rg_sees e en \<longleftrightarrow> calls_ok en \<and> re_mountDir en = mountDir (e_cm e)"

definition rs_sees :: "rs_env \<Rightarrow> bool" where
  "rs_sees en \<longleftrightarrow> se_chainErr en = None \<and> se_cmErr en = None"

text \<open>Messages of the chain: transactions, and responses with the binary.\<close>

definition chain_msg_ok :: "DockerVMMessage \<Rightarrow> bool" where
  "chain_msg_ok m \<longleftrightarrow> tx_msg_ok m \<and> (m_Type m = TX_REQUEST \<or> m_Type m = GET_BYTECODE_RESPONSE)"

fun group_msg_ok :: "rg_msg \<Rightarrow> bool" where
  "group_msg_ok (RgProcessResp m) = True"
| "group_msg_ok (RgBadContract b) = (m_Request (bcr_Tx b) \<noteq> None)"
| "group_msg_ok _ = False"

inductive eng_run :: "chain_consts \<Rightarrow> engine \<Rightarrow> DockerVMMessage list \<Rightarrow> bool" for K where
  er_new: "NewContractManager en d = (d', Inr cm) \<Longrightarrow>
    eng_run K \<lparr>e_sched = NewRequestScheduler, e_cm = cm_SetScheduler cm, e_chain = [], e_reqs = [], e_taken = []\<rparr> []"
| er_chain: "\<lbrakk>eng_run K e P; chain_msg_ok m; to_sched (RsVm m) e = Val e'\<rbrakk> \<Longrightarrow> eng_run K e' (P @ [m])"
| er_sched: "\<lbrakk>eng_run K e P; rs_sees en; rs_loop en sel (e_sched e) = Some (Val (s, out));
    send_all send_rs out (e\<lparr>e_sched := s\<rparr>) = Val e'\<rbrakk> \<Longrightarrow> eng_run K e' P"
| er_cm: "\<lbrakk>eng_run K e P; cm_sees e en; cm_loop en (e_cm e) = Some (Val (c, out));
    send_all send_cm out (e\<lparr>e_cm := c\<rparr>) = Val e'\<rbrakk> \<Longrightarrow> eng_run K e' P"
| er_group: "\<lbrakk>eng_run K e P; map_of (e_groups e) k = Some r; rg_sees e en;
    rg_loop K en sel r = Some (Val (r', out)); send_all send_rg out (set_group k r' e) = Val e'\<rbrakk> \<Longrightarrow> eng_run K e' P"
| er_timer: "\<lbrakk>eng_run K e P; map_of (e_groups e) k = Some r\<rbrakk> \<Longrightarrow>
    eng_run K (set_group k (r\<lparr>rg_getBytecodeTimer := timer_fire (rg_getBytecodeTimer r)\<rparr>) e) P"
| er_take_orig: "\<lbrakk>eng_run K e P; map_of (e_groups e) k = Some r; tc_txCh (rg_origTxController r) = p # ps\<rbrakk> \<Longrightarrow>
    eng_run K ((set_group k (r\<lparr>rg_origTxController := (rg_origTxController r)\<lparr>tc_txCh := ps\<rparr>\<rparr>) e)\<lparr>e_taken := e_taken e @ [p]\<rparr>) P"
| er_take_cross: "\<lbrakk>eng_run K e P; map_of (e_groups e) k = Some r; tc_txCh (rg_crossTxController r) = p # ps\<rbrakk> \<Longrightarrow>
    eng_run K ((set_group k (r\<lparr>rg_crossTxController := (rg_crossTxController r)\<lparr>tc_txCh := ps\<rparr>\<rparr>) e)\<lparr>e_taken := e_taken e @ [p]\<rparr>) P"
| er_process: "\<lbrakk>eng_run K e P; group_msg_ok m; to_group k m e = Val e'\<rbrakk> \<Longrightarrow> eng_run K e' P"

section \<open>What a group sends\<close>

definition rg_out_ok :: "RequestGroup \<Rightarrow> rg_out \<Rightarrow> bool" where
  "rg_out_ok r x = (case x of
       RgToScheduler m \<Rightarrow> m_Type m = ERROR
     | RgGetContract m \<Rightarrow> m_Type m = GET_BYTECODE_REQUEST \<and> m_Request m \<noteq> None
     | RgRemoveContract b \<Rightarrow> RgBadContract b \<in> set (rg_eventCh r)
     | RgGetProcess b q \<Rightarrow> True)"

lemma out_ok_simps [simp]:
  "rg_out_ok r (RgToScheduler m) = (m_Type m = ERROR)"
  "rg_out_ok r (RgGetContract m) = (m_Type m = GET_BYTECODE_REQUEST \<and> m_Request m \<noteq> None)"
  "rg_out_ok r (RgRemoveContract b) = (RgBadContract b \<in> set (rg_eventCh r))"
  "rg_out_ok r (RgGetProcess isOrig q)"
  by (simp_all add: rg_out_ok_def)

definition sends_ok :: "RequestGroup \<Rightarrow> RequestGroup \<Rightarrow> rg_out list \<Rightarrow> bool" where
  "sends_ok r r' out \<longleftrightarrow> rg_eventCh r' = rg_eventCh r \<and> (\<forall>x\<in>set out. rg_out_ok (r\<lparr>rg_eventCh := []\<rparr>) x)"

lemma sends_enqueue: "enqueueCh K now req r = Val r' \<Longrightarrow> sends_ok r r' []"
  by (auto simp: sends_ok_def enqueueCh_def split: if_splits)

lemma sends_put: "putTxReqToCh K en req r = Val (r', out, e) \<Longrightarrow> sends_ok r r' out"
  by (auto simp: putTxReqToCh_def sends_ok_def split: option.splits if_splits dest!: sends_enqueue)

lemma out_ok_cong: "rg_eventCh r' = rg_eventCh r \<Longrightarrow> rg_out_ok r' x = rg_out_ok r x"
  by (simp add: rg_out_ok_def split: rg_out.split)

lemma sends_trans: "sends_ok r r1 o1 \<Longrightarrow> sends_ok r1 r2 o2 \<Longrightarrow> sends_ok r r2 (o1 @ o2)"
  using out_ok_cong[of "r1\<lparr>rg_eventCh := []\<rparr>" "r\<lparr>rg_eventCh := []\<rparr>"] by (auto simp: sends_ok_def)

lemma sends_internal:
  "sends_ok r (r\<lparr>rg_bufCh := b, rg_contractState := c, rg_ContractFileVersion := v, rg_getBytecodeTimer := t\<rparr>) []"
  "sends_ok r r (fst (rg_returnTxErrorResp en txId msg r))"
  by (auto simp: sends_ok_def rg_returnTxErrorResp_def split: option.split)

interpretation sends: handler_rel sends_ok
proof unfold_locales
  show "\<And>en isOrig r r' out n e. getProcesses en isOrig r = (r', out, n, e) \<Longrightarrow> sends_ok r r' out"
    by (auto simp: sends_ok_def getProcesses_def updateControllerState_def Let_def split: if_splits option.splits)
  show "\<And>en txId r r' out e. sendGetContractReq en txId r = (r', out, e) \<Longrightarrow> sends_ok r r' out"
    by (auto simp: sends_ok_def sendGetContractReq_def split: option.splits)
qed (auto intro: sends_trans sends_enqueue sends_put sends_internal)

lemma sends_here: "sends_ok r r' out \<Longrightarrow> x \<in> set out \<Longrightarrow> rg_out_ok r0 x"
  by (cases x) (auto simp: sends_ok_def)

lemma popTx_errors: "x \<in> set (popTx en ms r) \<Longrightarrow> rg_out_ok r0 x"
  by (induction ms) (auto simp: rg_returnTxErrorResp_def split: option.splits if_splits)

lemma loop_sends:
  assumes "rg_loop K en sel r = Some (Val (r', out))"
  shows "set (rg_eventCh r') \<subseteq> set (rg_eventCh r) \<and> (\<forall>x\<in>set out. rg_out_ok r x)"
proof (cases sel)
  case SelEvent
  obtain msg msgs where ev: "rg_eventCh r = msg # msgs"
    using assms[unfolded SelEvent] by (rule loop_takes_event)
  show ?thesis
  proof (cases msg)
    case (RgProcessResp m)
    let ?r = "updateControllerState (gps_IsOrig m) False (r\<lparr>rg_eventCh := msgs\<rparr>)"
    obtain r2 o2 n2 e2 where g: "getProcesses en (gps_IsOrig m) ?r = (r2, o2, n2, e2)" by (metis prod_cases3)
    then have "r' = r2" "out = o2"
      using assms SelEvent ev RgProcessResp
      by (auto simp: rg_loop_def handleProcessReadyResp_def Let_def split: if_splits)
    then show ?thesis
      using sends.processes[OF g] sends_here[OF sends.processes[OF g]] ev
      by (auto simp: sends_ok_def updateControllerState_def split: if_splits)
  next
    case (RgBadContract m)
    then show ?thesis
      using assms SelEvent ev by (auto simp: rg_loop_def handleBadContractResp_def sendGetContractReq_def
          Let_def split: if_splits option.splits)
  qed (use assms SelEvent ev in \<open>auto simp: rg_loop_def Let_def split: if_splits\<close>)
next
  case SelTx
  obtain msg msgs where tx: "rg_txCh r = msg # msgs"
    using assms[unfolded SelTx] by (rule loop_takes_tx)
  have "sends_ok (r\<lparr>rg_txCh := msgs\<rparr>) r' out"
    using assms SelTx tx sends.buf[of "r\<lparr>rg_txCh := msgs\<rparr>" "rg_bufCh r"]
    by (auto simp: rg_loop_def Let_def split: if_splits dest: sends.tx_handler sends.ready_handler)
  then show ?thesis using sends_here by (auto simp: sends_ok_def)
next
  case SelStop
  then show ?thesis
    using assms popTx_errors by (auto simp: rg_loop_def handleStopRequestGroup_def Let_def split: if_splits)
next
  case SelTimer
  let ?r = "r\<lparr>rg_getBytecodeTimer := (rg_getBytecodeTimer r)\<lparr>t_chan := False\<rparr>\<rparr>"
  have "sends_ok ?r r' out"
    using assms SelTimer by (auto simp: rg_loop_def handleGetBytecodeTimeout_def split: if_splits dest: sends.err_handler)
  then show ?thesis using sends_here by (auto simp: sends_ok_def)
qed

section \<open>The invariant of the engine\<close>

definition group_ok :: "string \<Rightarrow> RequestGroup \<Rightarrow> bool" where
  "group_ok k r \<longleftrightarrow> k = contract_key (rg_chainID r) (rg_contractName r) (rg_contractVersion r) \<and> rg_inv r \<and>
     (\<forall>b. RgBadContract b \<in> set (rg_eventCh r) \<longrightarrow> m_Request (bcr_Tx b) \<noteq> None)"

definition sched_ok :: "RequestScheduler \<Rightarrow> bool" where
  "sched_ok s \<longleftrightarrow> gm_ok (rs_requestGroups s) \<and> rs_closing s = None \<and> rs_closeCh s = [] \<and>
     (\<forall>m\<in>set (rs_txCh s). m_Type m = TX_REQUEST \<and> tx_msg_ok m) \<and> (\<forall>m\<in>set (rs_eventCh s). tx_msg_ok m) \<and>
     (\<forall>k r. map_of (rs_requestGroups s) k = Some r \<longrightarrow> group_ok k r)"

fun cm_msg_ok :: "cm_msg \<Rightarrow> bool" where
  "cm_msg_ok (CmMsg m) = (tx_msg_ok m \<and> m_Type m \<noteq> TX_REQUEST)"
| "cm_msg_ok (CmBadContract b) = (m_Request (bcr_Tx b) \<noteq> None)"
| "cm_msg_ok CmUnknown = True"

definition cm_ok :: "ContractManager \<Rightarrow> bool" where
  "cm_ok c \<longleftrightarrow> cm_scheduler c \<and> (\<forall>m\<in>set (cm_eventCh c). cm_msg_ok m)"

definition known_req :: "(string, RequestGroup) gomap \<Rightarrow> GetProcessReqMsg \<Rightarrow> bool" where
  "known_req gs q \<longleftrightarrow> 0 < gpr_ProcessNum q \<and>
     contract_key (gpr_ChainID q) (gpr_ContractName q) (gpr_ContractVersion q) \<in> fst ` set gs"

definition reqs_known :: "(string, RequestGroup) gomap \<Rightarrow> (bool \<times> GetProcessReqMsg) list \<Rightarrow> bool" where
  "reqs_known gs xs \<longleftrightarrow> (\<forall>q\<in>snd ` set xs. known_req gs q)"

lemma reqs_known_simps [simp]: "reqs_known gs []"
  "reqs_known gs (xs @ [(b, q)]) \<longleftrightarrow> reqs_known gs xs \<and> known_req gs q"
  by (auto simp: reqs_known_def)

definition eng_inv :: "engine \<Rightarrow> bool" where
  "eng_inv e \<longleftrightarrow> sched_ok (e_sched e) \<and> cm_ok (e_cm e) \<and> reqs_known (e_groups e) (e_reqs e)"

text \<open>Where the transactions are.\<close>

definition errs :: "DockerVMMessage list \<Rightarrow> string multiset" where
  "errs ms = tx_ids (filter (\<lambda>m. m_Type m = ERROR) ms)"

definition held_all :: "(string, RequestGroup) gomap \<Rightarrow> string multiset" where
  "held_all gs = sum_list (map (\<lambda>kr. held_ids (snd kr)) gs)"

definition accounted :: "engine \<Rightarrow> string multiset" where
  "accounted e = tx_ids (rs_txCh (e_sched e)) + held_all (e_groups e) + errs (rs_eventCh (e_sched e)) +
     errs (e_chain e) + ch_ids (e_taken e)"

lemma errs_simps [simp]: "errs [] = {#}" "errs (a @ b) = errs a + errs b"
  "errs (m # ms) = (if m_Type m = ERROR then add_mset (m_TxId m) (errs ms) else errs ms)"
  by (simp_all add: errs_def)

lemma held_all_new: "k \<notin> fst ` set gs \<Longrightarrow> held_all (AList.update k r gs) = held_all gs + held_ids r"
  by (simp add: held_all_def update_new)

lemma held_all_update:
  "map_of gs k = Some r \<Longrightarrow> held_all (AList.update k r' gs) + held_ids r = held_all gs + held_ids r'"
  by (induction gs) (auto simp: held_all_def ac_simps split: if_splits)

lemma reqs_known_update: "reqs_known gs xs \<Longrightarrow> reqs_known (AList.update k r gs) xs"
  by (auto simp: reqs_known_def known_req_def)

lemma set_group_inv:
  assumes "eng_inv e" "group_ok k r"
  shows "eng_inv (set_group k r e)"
  using assms by (auto simp: eng_inv_def sched_ok_def set_group_def update_conv' reqs_known_update split: if_splits)

lemma set_group_accounted:
  assumes "map_of (e_groups e) k = Some r"
  shows "accounted (set_group k r' e) + held_ids r = accounted e + held_ids r'"
  using held_all_update[OF assms, of r'] by (simp add: accounted_def set_group_def ac_simps)

section \<open>Delivery keeps it\<close>

text \<open>The engine after a message was delivered: same groups' keys, invariant, and \<open>new\<close> transactions more.\<close>

definition delivered :: "engine \<Rightarrow> string multiset \<Rightarrow> engine \<Rightarrow> bool" where
  "delivered e new e' \<longleftrightarrow> eng_inv e' \<and> accounted e' = accounted e + new \<and> fst ` set (e_groups e') = fst ` set (e_groups e)"

lemma delivered_trans: "delivered e n e1 \<Longrightarrow> delivered e1 n' e2 \<Longrightarrow> delivered e (n + n') e2"
  by (simp add: delivered_def ac_simps)

lemma to_sched_delivered:
  assumes "eng_inv e" "tx_msg_ok m" "to_sched (RsVm m) e = Val e'"
  shows "delivered e (if m_Type m = TX_REQUEST \<or> m_Type m = ERROR then {#m_TxId m#} else {#}) e'"
  using assms
  by (auto simp: to_sched_def rs_PutMsg_def delivered_def eng_inv_def sched_ok_def accounted_def split: if_splits)

lemma to_cm_delivered:
  assumes "eng_inv e" "cm_msg_ok m" "to_cm m e = Val e'"
  shows "delivered e {#} e'"
  using assms by (auto simp: to_cm_def cm_PutMsg_def delivered_def eng_inv_def cm_ok_def accounted_def split: if_splits)

lemma to_group_delivered:
  assumes "eng_inv e" "msg_ok m" "\<forall>b. m = RgBadContract b \<longrightarrow> m_Request (bcr_Tx b) \<noteq> None" "to_group k m e = Val e'"
  shows "delivered e (if map_of (e_groups e) k = None then {#} else tx_ids (put_tx m)) e'"
proof (cases "map_of (e_groups e) k")
  case None
  then show ?thesis using assms by (auto simp: to_group_def delivered_def)
next
  case (Some r)
  then obtain r' err where p: "rg_PutMsg m r = Val (r', err)" "e' = set_group k r' e"
    using assms(4) by (auto simp: to_group_def)
  have g: "group_ok k r" using assms(1) Some by (simp add: eng_inv_def sched_ok_def)
  have i: "rg_inv r'" "held_ids r' = held_ids r + tx_ids (put_tx m)"
    using put_inv[OF p(1) assms(2)] g by (simp_all add: group_ok_def)
  have "group_ok k r'"
    using g i(1) p(1) assms(3) by (cases m) (auto simp: group_ok_def rg_PutMsg_def split: if_splits)
  then have "eng_inv e'" using set_group_inv[OF assms(1)] p(2) by simp
  moreover have "accounted e' = accounted e + tx_ids (put_tx m)"
    using set_group_accounted[OF Some, of r'] p(2) i(2) by (simp add: ac_simps)
  moreover have "fst ` set (e_groups e') = fst ` set (e_groups e)"
    using Some p(2) by (auto simp: set_group_def dest: map_of_in_keys)
  ultimately show ?thesis using Some by (simp add: delivered_def)
qed

lemma send_all_delivered:
  assumes step: "\<And>x e e'. x \<in> set xs \<Longrightarrow> eng_inv e \<Longrightarrow> fst ` set (e_groups e) = ks \<Longrightarrow> f x e = Val e' \<Longrightarrow> delivered e (n x) e'"
    and "eng_inv e" "fst ` set (e_groups e) = ks" "send_all f xs e = Val e'"
  shows "delivered e (sum_list (map n xs)) e'"
  using assms
proof (induction xs arbitrary: e)
  case Nil
  then show ?case by (simp add: delivered_def)
next
  case (Cons x xs)
  then obtain e1 where e1: "f x e = Val e1" "send_all f xs e1 = Val e'" by auto
  have d: "delivered e (n x) e1" using Cons.prems(1)[of x] Cons.prems(2,3) e1(1) by simp
  then have i: "eng_inv e1" "fst ` set (e_groups e1) = ks" using Cons.prems(3) by (simp_all add: delivered_def)
  have "delivered e1 (sum_list (map n xs)) e'" by (rule Cons.IH[OF Cons.prems(1) i e1(2)]) simp_all
  from delivered_trans[OF d this] show ?case by simp
qed

lemma send_rg_delivered:
  assumes "eng_inv e" "send_rg x e = Val e'" "rg_out_ok r x" "group_ok k r" "req_of r x" "k \<in> fst ` set (e_groups e)"
  shows "delivered e (answered [x]) e'"
proof (cases x)
  case (RgToScheduler m)
  then show ?thesis using to_sched_delivered[of e m e'] assms by (simp add: tx_msg_ok_def)
next
  case (RgGetContract m)
  then show ?thesis using to_cm_delivered[of e "CmMsg m" e'] assms by (simp add: tx_msg_ok_def)
next
  case (RgRemoveContract b)
  then show ?thesis using to_cm_delivered[of e "CmBadContract b" e'] assms by (simp add: group_ok_def)
next
  case (RgGetProcess b q)
  then have "known_req (e_groups e) q" using assms by (simp add: req_of_def known_req_def group_ok_def rg_key_def)
  then show ?thesis using assms RgGetProcess by (auto simp: delivered_def eng_inv_def accounted_def)
qed

lemma answered_sum: "sum_list (map (\<lambda>x. answered [x]) out) = answered out"
proof (induction out)
  case (Cons x out)
  then show ?case by (cases x) simp_all
qed simp

lemma group_step:
  assumes "eng_inv e" "map_of (e_groups e) k = Some r" "rg_sees e en" "rg_loop K en sel r = Some (Val (r', out))"
    "send_all send_rg out (set_group k r' e) = Val e'"
  shows "eng_inv e' \<and> accounted e' = accounted e"
proof -
  have g: "group_ok k r" using assms(1,2) by (simp add: eng_inv_def sched_ok_def)
  have l: "rg_inv r'" "held_ids r' + answered out = held_ids r"
    using rg_loop_good[of r en K sel "Val (r', out)"] g assms(3,4) by (auto simp: loop_good_def group_ok_def rg_sees_def)
  note q = loop_requests(2,3)[OF assms(4)] and sn = loop_sends[OF assms(4)]
  have g': "group_ok k r'" using g l(1) q(1) sn by (auto simp: group_ok_def rg_key_def)
  have k: "k \<in> fst ` set (e_groups (set_group k r' e))" by (simp add: set_group_def)
  have "delivered (set_group k r' e) (sum_list (map (\<lambda>x. answered [x]) out)) e'"
    by (rule send_all_delivered[OF _ set_group_inv[OF assms(1) g'] refl assms(5)],
      rule send_rg_delivered[OF _ _ _ g]) (use sn q(2) k in auto)
  then have "accounted e' = accounted (set_group k r' e) + answered out" "eng_inv e'"
    by (simp_all add: delivered_def answered_sum)
  moreover have "accounted (set_group k r' e) + held_ids r = accounted e + held_ids r'"
    by (rule set_group_accounted[OF assms(2)])
  ultimately show ?thesis using l(2) by (metis add.assoc add.commute add_right_cancel)
qed

lemma request_out:
  assumes "handleGetContractReq en m c = Val (c', out, e)" "m_Type m = GET_BYTECODE_REQUEST"
  shows "cm_eventCh c' = cm_eventCh c \<and> cm_scheduler c' = cm_scheduler c \<and>
    (\<forall>x\<in>set out. x = CmToScheduler m \<or> (\<exists>a b v m'. x = CmToGroup a b v m' \<and> tx_msg_ok m' \<and> m_Type m' = GET_BYTECODE_RESPONSE))"
proof -
  obtain rq where rq: "m_Request m = Some rq \<or> m_Request m = None" by (cases "m_Request m") auto
  show ?thesis using assms rq
    by (cases "m_Request m"; cases "snd (Get (contractsLRU c) (contract_key (req_ChainId rq) (req_ContractName rq) (req_ContractVersion rq)))")
      (auto simp: handleGetContractReq_def requestContractFromChain_def sendContractReadySignal_def tx_msg_ok_def Let_def
        case_prod_beta split: if_splits option.splits)
qed

lemma response_keeps:
  "cm_eventCh (fst (handleGetContractResp en m c)) = cm_eventCh c"
  "cm_scheduler (fst (handleGetContractResp en m c)) = cm_scheduler c"
proof -
  have e: "cm_eventCh (fst (evictOldest en c)) = cm_eventCh c" "cm_scheduler (fst (evictOldest en c)) = cm_scheduler c"
    by (auto simp: evictOldest_def Let_def case_prod_beta split: option.split)
  have "cm_eventCh (fst (saveContract en rs c1)) = cm_eventCh c1" "cm_scheduler (fst (saveContract en rs c1)) = cm_scheduler c1" for rs c1
    by (auto simp: saveContract_def Let_def case_prod_beta)
  then show "cm_eventCh (fst (handleGetContractResp en m c)) = cm_eventCh c"
    "cm_scheduler (fst (handleGetContractResp en m c)) = cm_scheduler c"
    using e by (auto simp: handleGetContractResp_def split: option.split prod.splits)
qed

lemma process_out:
  "processContractResp en m e c = Val (out, e') \<Longrightarrow>
   \<forall>x\<in>set out. \<exists>a b v m'. x = CmToGroup a b v m' \<and> tx_msg_ok m' \<and> m_Type m' = GET_BYTECODE_RESPONSE"
  by (auto simp: processContractResp_def sendContractReadySignal_def tx_msg_ok_def Let_def case_prod_beta
      split: option.splits if_splits)

lemma bad_keeps:
  "cm_handleBadContractResp en m c = Val (c', e) \<Longrightarrow> cm_eventCh c' = cm_eventCh c \<and> cm_scheduler c' = cm_scheduler c"
  by (auto simp: cm_handleBadContractResp_def Let_def case_prod_beta split: option.splits)

lemma cm_loop_out:
  assumes "cm_loop en c = Some (Val (c', out))" "cm_ok c"
  shows "cm_ok c' \<and> (\<forall>x\<in>set out. (\<exists>m. x = CmToScheduler m \<and> m_Type m = GET_BYTECODE_REQUEST) \<or>
    (\<exists>a b v m'. x = CmToGroup a b v m' \<and> tx_msg_ok m' \<and> m_Type m' = GET_BYTECODE_RESPONSE))"
proof -
  obtain msg msgs where q: "cm_eventCh c = msg # msgs" using assms(1) by (auto simp: cm_loop_def split: list.splits)
  show ?thesis
  proof (cases msg)
    case (CmMsg m)
    consider "m_Type m = GET_BYTECODE_REQUEST" | "m_Type m = GET_BYTECODE_RESPONSE"
      | "m_Type m \<noteq> GET_BYTECODE_REQUEST" "m_Type m \<noteq> GET_BYTECODE_RESPONSE" by blast
    then show ?thesis
    proof cases
      case 1
      then show ?thesis using assms q CmMsg request_out[OF _ 1]
        by (auto simp: cm_loop_def cm_ok_def Let_def) blast+
    next
      case 2
      then show ?thesis using assms q CmMsg response_keeps[of en m "c\<lparr>cm_eventCh := msgs\<rparr>"]
        by (auto simp: cm_loop_def cm_ok_def Let_def case_prod_beta dest!: process_out)
    next
      case 3
      then show ?thesis using assms q CmMsg by (auto simp: cm_loop_def cm_ok_def Let_def)
    qed
  next
    case (CmBadContract b)
    then show ?thesis using assms q by (auto simp: cm_loop_def cm_ok_def Let_def dest!: bad_keeps)
  next
    case CmUnknown
    then show ?thesis using assms q by (auto simp: cm_loop_def cm_ok_def Let_def)
  qed
qed

section \<open>Steps\<close>

lemma cm_to_sched: "eng_inv e \<Longrightarrow> m_Type m = GET_BYTECODE_REQUEST \<Longrightarrow> send_cm (CmToScheduler m) e = Val e' \<Longrightarrow> delivered e {#} e'"
  using to_sched_delivered[of e m e'] by (simp add: tx_msg_ok_def)

lemma cm_to_group:
  "eng_inv e \<Longrightarrow> tx_msg_ok m \<Longrightarrow> m_Type m = GET_BYTECODE_RESPONSE \<Longrightarrow> send_cm (CmToGroup a b v m) e = Val e' \<Longrightarrow>
   delivered e {#} e'"
  using to_group_delivered[of e "RgTx m" "contract_key a b v" e'] by (simp split: if_splits)

lemma cm_step:
  assumes "eng_inv e" "cm_loop en (e_cm e) = Some (Val (c, out))" "send_all send_cm out (e\<lparr>e_cm := c\<rparr>) = Val e'"
  shows "eng_inv e' \<and> accounted e' = accounted e"
proof -
  have o: "cm_ok c" "\<forall>x\<in>set out. (\<exists>m. x = CmToScheduler m \<and> m_Type m = GET_BYTECODE_REQUEST) \<or>
      (\<exists>a b v m'. x = CmToGroup a b v m' \<and> tx_msg_ok m' \<and> m_Type m' = GET_BYTECODE_RESPONSE)"
    using cm_loop_out[OF assms(2)] assms(1) by (auto simp: eng_inv_def)
  have d: "delivered e0 {#} e1" if "x \<in> set out" "eng_inv e0" "send_cm x e0 = Val e1" for x e0 e1
    using bspec[OF o(2) that(1)] that(3) cm_to_sched[OF that(2)] cm_to_group[OF that(2)] by metis
  have i: "eng_inv (e\<lparr>e_cm := c\<rparr>)" using assms(1) o(1) by (simp add: eng_inv_def)
  have "delivered (e\<lparr>e_cm := c\<rparr>) (sum_list (map (\<lambda>x. {#}) out)) e'"
    by (rule send_all_delivered[OF _ i refl assms(3)]) (rule d)
  then show ?thesis by (simp add: delivered_def accounted_def)
qed

lemma new_group_ok: "group_ok (contract_key c n v) (NewRequestGroup c n v)" "held_ids (NewRequestGroup c n v) = {#}"
  by (simp_all add: group_ok_def NewRequestGroup_def rg_inv_def held_ids_def)

lemma sched_tx_step:
  assumes "eng_inv e" "rs_txCh (e_sched e) = m # ms"
    "rs_handleTxReq m ((e_sched e)\<lparr>rs_txCh := ms\<rparr>) = Val (s, err)"
  shows "eng_inv (e\<lparr>e_sched := s\<rparr>) \<and> accounted (e\<lparr>e_sched := s\<rparr>) = accounted e"
proof -
  have m: "m_Type m = TX_REQUEST" "tx_msg_ok m" using assms(1,2) by (simp_all add: eng_inv_def sched_ok_def)
  then obtain rq where rq: "m_Request m = Some rq" by (auto simp: tx_msg_ok_def)
  define k where "k = contract_key (req_ChainId rq) (req_ContractName rq) (req_ContractVersion rq)"
  define r where "r = (case map_of (e_groups e) k of Some r \<Rightarrow> r
    | None \<Rightarrow> NewRequestGroup (req_ChainId rq) (req_ContractName rq) (req_ContractVersion rq))"
  have g: "group_ok k r"
    using assms(1) new_group_ok(1) by (auto simp: r_def k_def eng_inv_def sched_ok_def split: option.split)
  obtain r' e2 where p: "rg_PutMsg (RgTx m) r = Val (r', e2)"
      "s = (e_sched e)\<lparr>rs_txCh := ms, rs_requestGroups := AList.update k r' (e_groups e)\<rparr>"
    using assms(3) by (auto simp: rs_handleTxReq_def rq Let_def r_def k_def)
  have i: "rg_inv r'" "held_ids r' = add_mset (m_TxId m) (held_ids r)"
    using put_inv[OF p(1)] g m by (auto simp: group_ok_def)
  have g': "group_ok k r'" using g i(1) p(1) by (auto simp: group_ok_def rg_PutMsg_def split: if_splits)
  define e0 where "e0 = e\<lparr>e_sched := (e_sched e)\<lparr>rs_txCh := ms\<rparr>\<rparr>"
  have es: "e\<lparr>e_sched := s\<rparr> = set_group k r' e0" by (simp add: p(2) set_group_def e0_def)
  have "eng_inv e0" using assms(1,2) by (simp add: e0_def eng_inv_def sched_ok_def)
  then have inv: "eng_inv (e\<lparr>e_sched := s\<rparr>)" using set_group_inv g' es by simp
  have a0: "accounted e = add_mset (m_TxId m) (accounted e0)" using assms(2) by (simp add: accounted_def e0_def)
  have "held_all (AList.update k r' (e_groups e)) = add_mset (m_TxId m) (held_all (e_groups e))"
  proof (cases "map_of (e_groups e) k")
    case None
    then have "held_ids r = {#}" using new_group_ok(2) by (simp add: r_def)
    then show ?thesis using None held_all_new[of k "e_groups e" r'] i(2) by (simp add: map_of_None_iff)
  next
    case (Some r0)
    then show ?thesis using held_all_update[OF Some, of r'] i(2) by (simp add: r_def)
  qed
  then have "accounted (set_group k r' e0) = add_mset (m_TxId m) (accounted e0)"
    by (simp add: accounted_def set_group_def e0_def)
  then show ?thesis using inv a0 es by simp
qed

lemma sched_event_step:
  assumes "eng_inv e" "rs_sees en" "rs_eventCh (e_sched e) = m # ms"
    "rs_loop en RsSelEvent (e_sched e) = Some (Val (s, out))" "send_all send_rs out (e\<lparr>e_sched := s\<rparr>) = Val e'"
  shows "eng_inv e' \<and> accounted e' = accounted e"
proof -
  have s: "s = (e_sched e)\<lparr>rs_eventCh := ms\<rparr>" using assms(3,4) by (auto simp: rs_loop_def split: if_splits)
  have m: "tx_msg_ok m" using assms(1,3) by (simp add: eng_inv_def sched_ok_def)
  have inv: "eng_inv (e\<lparr>e_sched := s\<rparr>)" using assms(1,3) by (simp add: s eng_inv_def sched_ok_def)
  show ?thesis
  proof (cases "m_Type m = GET_BYTECODE_RESPONSE")
    case True
    then have "to_cm (CmMsg m) (e\<lparr>e_sched := s\<rparr>) = Val e'"
      using assms(2-5) by (auto simp: rs_loop_def rs_sees_def rs_handleGetContractResp_def split: if_splits)
    from to_cm_delivered[OF inv _ this] m True assms(3) show ?thesis
      by (simp add: delivered_def accounted_def s)
  next
    case False
    then show ?thesis using assms(2-5) inv
      by (auto simp: rs_loop_def rs_sees_def rs_handleGetContractReq_def rs_handleErrResp_def s accounted_def eng_inv_def
          split: if_splits)
  qed
qed

lemma sched_step:
  assumes "eng_inv e" "rs_sees en" "rs_loop en sel (e_sched e) = Some (Val (s, out))"
    "send_all send_rs out (e\<lparr>e_sched := s\<rparr>) = Val e'"
  shows "eng_inv e' \<and> accounted e' = accounted e"
proof (cases sel)
  case RsSelEvent
  then show ?thesis using assms sched_event_step[OF assms(1,2)]
    by (cases "rs_eventCh (e_sched e)") (auto simp: rs_loop_def split: if_splits)
next
  case RsSelTx
  obtain m ms where q: "rs_txCh (e_sched e) = m # ms"
    using assms(3) RsSelTx by (auto simp: rs_loop_def split: list.splits if_splits)
  obtain err where "rs_handleTxReq m ((e_sched e)\<lparr>rs_txCh := ms\<rparr>) = Val (s, err)" "out = []"
    using assms(3) RsSelTx q by (auto simp: rs_loop_def split: if_splits)
  then show ?thesis using sched_tx_step[OF assms(1) q] assms(4) by simp
next
  case RsSelClose
  then show ?thesis using assms(1,3) by (auto simp: rs_loop_def eng_inv_def sched_ok_def)
qed

lemma load_keeps: "load_files en i names c = (c', e) \<Longrightarrow> cm_eventCh c' = cm_eventCh c"
  by (induction names arbitrary: i c) (fastforce simp: Let_def split: if_splits prod.splits option.splits)+

lemma take_inv: "eng_inv (e\<lparr>e_taken := ps\<rparr>) = eng_inv e"
  by (simp add: eng_inv_def)

lemma take_step:
  assumes "map_of (e_groups e) k = Some r" "held_ids r = add_mset (m_TxId (tp_Tx p)) (held_ids r')"
  shows "accounted ((set_group k r' e)\<lparr>e_taken := e_taken e @ [p]\<rparr>) = accounted e"
proof -
  have "accounted ((set_group k r' e)\<lparr>e_taken := e_taken e @ [p]\<rparr>) = add_mset (m_TxId (tp_Tx p)) (accounted (set_group k r' e))"
    by (simp add: accounted_def set_group_def)
  then show ?thesis using set_group_accounted[OF assms(1), of r'] assms(2) by simp
qed

lemma run_inv: "eng_run K e P \<Longrightarrow> eng_inv e \<and> tx_ids (filter (\<lambda>m. m_Type m = TX_REQUEST) P) = accounted e"
proof (induction rule: eng_run.induct)
  case (er_new en d d' cm)
  have "cm_eventCh cm = []" using new_parts[OF er_new] by (auto dest: load_keeps)
  then show ?case
    by (simp add: eng_inv_def sched_ok_def cm_ok_def NewRequestScheduler_def cm_SetScheduler_def accounted_def held_all_def)
next
  case (er_chain e P m e')
  then show ?case using to_sched_delivered[of e m e'] by (auto simp: delivered_def chain_msg_ok_def)
next
  case (er_sched e P en sel s out e')
  then show ?case using sched_step[of e en sel s out e'] by simp
next
  case (er_cm e P en c out e')
  then show ?case using cm_step[of e en c out e'] by simp
next
  case (er_group e P k r en sel r' out e')
  then show ?case using group_step[of e k r en K sel r' out e'] by simp
next
  case (er_timer e P k r)
  let ?r = "r\<lparr>rg_getBytecodeTimer := timer_fire (rg_getBytecodeTimer r)\<rparr>"
  have "group_ok k ?r" using er_timer by (simp add: eng_inv_def sched_ok_def group_ok_def rg_inv_def)
  then show ?case using er_timer set_group_inv[of e k ?r] set_group_accounted[of e k r ?r] by simp
next
  case (er_take_orig e P k r p ps)
  let ?r = "r\<lparr>rg_origTxController := (rg_origTxController r)\<lparr>tc_txCh := ps\<rparr>\<rparr>"
  have g: "group_ok k ?r" using er_take_orig by (simp add: eng_inv_def sched_ok_def group_ok_def rg_inv_def)
  have "held_ids r = add_mset (m_TxId (tp_Tx p)) (held_ids ?r)" using er_take_orig by (simp add: held_ids_def)
  then show ?case using er_take_orig set_group_inv[of e k ?r] take_step[of e k r p ?r] g by (simp add: take_inv)
next
  case (er_take_cross e P k r p ps)
  let ?r = "r\<lparr>rg_crossTxController := (rg_crossTxController r)\<lparr>tc_txCh := ps\<rparr>\<rparr>"
  have g: "group_ok k ?r" using er_take_cross by (simp add: eng_inv_def sched_ok_def group_ok_def rg_inv_def)
  have "held_ids r = add_mset (m_TxId (tp_Tx p)) (held_ids ?r)" using er_take_cross by (simp add: held_ids_def)
  then show ?case using er_take_cross set_group_inv[of e k ?r] take_step[of e k r p ?r] g by (simp add: take_inv)
next
  case (er_process e P m k e')
  have "put_tx m = []" "msg_ok m" using er_process.hyps(2) by (cases m; simp)+
  then show ?case using er_process to_group_delivered[of e m k e'] by (cases m) (auto simp: delivered_def split: if_splits)
qed

lemma cm_no_panic: "cm_ok c \<Longrightarrow> cm_loop en c \<noteq> Some Panic"
proof (cases "cm_eventCh c")
  case (Cons msg msgs)
  assume "cm_ok c"
  then show ?thesis
    using Cons by (cases msg)
      (auto simp: cm_ok_def tx_msg_ok_def cm_loop_def handleGetContractReq_def requestContractFromChain_def
        processContractResp_def cm_handleBadContractResp_def Let_def response_keeps case_prod_beta split: option.splits)
qed (simp add: cm_loop_def)

lemma sched_no_panic: "rs_loop en sel s \<noteq> Some Panic"
  by (cases sel) (auto simp: rs_loop_def rs_handleTxReq_def handleCloseReq_def rg_PutMsg_def Let_def
      split: list.splits option.splits if_splits)

section \<open>A sample run\<close>

text \<open>Runs are executable.\<close>

datatype eng_cmd = XChain DockerVMMessage | XSched rs_select | XManager | XGroup string rg_select | XTake string

definition in_engine :: "cm_env \<Rightarrow> engine \<Rightarrow> cm_env" where
  "in_engine en e = en\<lparr>ce_hasGroup := \<lambda>c n v. GetRequestGroup c n v (e_sched e) \<noteq> None, ce_schedErr := None, ce_groupErr := None\<rparr>"

fun to_option :: "'a go \<Rightarrow> 'a option" where
  "to_option (Val x) = Some x" | "to_option _ = None"

fun eng_exec1 :: "chain_consts \<Rightarrow> rg_env \<Rightarrow> cm_env \<Rightarrow> eng_cmd \<Rightarrow> engine \<times> DockerVMMessage list \<Rightarrow>
    (engine \<times> DockerVMMessage list) option" where
  "eng_exec1 K ren cen (XChain m) (e, P) =
     (if chain_msg_ok m then map_option (\<lambda>e'. (e', P @ [m])) (to_option (to_sched (RsVm m) e)) else None)"
| "eng_exec1 K ren cen (XSched sel) (e, P) =
     (case rs_loop \<lparr>se_chainErr = None, se_cmErr = None\<rparr> sel (e_sched e) of
        Some (Val (s, out)) \<Rightarrow> map_option (\<lambda>e'. (e', P)) (to_option (send_all send_rs out (e\<lparr>e_sched := s\<rparr>)))
      | _ \<Rightarrow> None)"
| "eng_exec1 K ren cen XManager (e, P) =
     (case cm_loop (in_engine cen e) (e_cm e) of
        Some (Val (c, out)) \<Rightarrow> map_option (\<lambda>e'. (e', P)) (to_option (send_all send_cm out (e\<lparr>e_cm := c\<rparr>)))
      | _ \<Rightarrow> None)"
| "eng_exec1 K ren cen (XGroup k sel) (e, P) =
     (case map_of (e_groups e) k of None \<Rightarrow> None | Some r \<Rightarrow>
        (case rg_loop K (ren\<lparr>re_mountDir := mountDir (e_cm e), re_schedErr := None, re_cmErr := None\<rparr>) sel r of
           Some (Val (r', out)) \<Rightarrow> map_option (\<lambda>e'. (e', P)) (to_option (send_all send_rg out (set_group k r' e)))
         | _ \<Rightarrow> None))"
| "eng_exec1 K ren cen (XTake k) (e, P) =
     (case map_of (e_groups e) k of None \<Rightarrow> None | Some r \<Rightarrow>
        (case tc_txCh (rg_origTxController r) of [] \<Rightarrow> None | p # ps \<Rightarrow>
           Some ((set_group k (r\<lparr>rg_origTxController := (rg_origTxController r)\<lparr>tc_txCh := ps\<rparr>\<rparr>) e)\<lparr>e_taken := e_taken e @ [p]\<rparr>, P)))"

fun eng_exec :: "chain_consts \<Rightarrow> rg_env \<Rightarrow> cm_env \<Rightarrow> eng_cmd list \<Rightarrow> engine \<times> DockerVMMessage list \<Rightarrow>
    (engine \<times> DockerVMMessage list) option" where
  "eng_exec K ren cen [] s = Some s"
| "eng_exec K ren cen (c # cs) s = (case eng_exec1 K ren cen c s of None \<Rightarrow> None | Some s' \<Rightarrow> eng_exec K ren cen cs s')"

lemma to_option_Some: "to_option x = Some y \<longleftrightarrow> x = Val y"
  by (cases x) auto

lemma eng_exec1_run:
  assumes "eng_exec1 K ren cen c (e, P) = Some (e', P')" "eng_run K e P"
  shows "eng_run K e' P'"
proof (cases c)
  case (XChain m)
  then show ?thesis using assms by (auto simp: to_option_Some split: if_splits intro: er_chain)
next
  case (XSched sel)
  then obtain s out where l: "rs_loop \<lparr>se_chainErr = None, se_cmErr = None\<rparr> sel (e_sched e) = Some (Val (s, out))"
      "send_all send_rs out (e\<lparr>e_sched := s\<rparr>) = Val e'" "P' = P"
    using assms(1) by (auto simp: to_option_Some split: option.splits go.splits)
  show ?thesis unfolding l(3) by (rule er_sched[OF assms(2) _ l(1,2)]) (simp add: rs_sees_def)
next
  case XManager
  then obtain c out where l: "cm_loop (in_engine cen e) (e_cm e) = Some (Val (c, out))"
      "send_all send_cm out (e\<lparr>e_cm := c\<rparr>) = Val e'" "P' = P"
    using assms(1) by (auto simp: to_option_Some split: option.splits go.splits)
  show ?thesis unfolding l(3) by (rule er_cm[OF assms(2) _ l(1,2)]) (simp add: cm_sees_def in_engine_def)
next
  case (XGroup k sel)
  then obtain r r' out where l: "map_of (e_groups e) k = Some r"
      "rg_loop K (ren\<lparr>re_mountDir := mountDir (e_cm e), re_schedErr := None, re_cmErr := None\<rparr>) sel r = Some (Val (r', out))"
      "send_all send_rg out (set_group k r' e) = Val e'" "P' = P"
    using assms(1) by (auto simp: to_option_Some split: option.splits go.splits)
  show ?thesis unfolding l(4) by (rule er_group[OF assms(2) l(1) _ l(2,3)]) (simp add: rg_sees_def calls_ok_def)
next
  case (XTake k)
  then show ?thesis using assms by (auto split: option.splits list.splits intro!: er_take_orig)
qed

lemma eng_exec_run:
  "eng_exec K ren cen cs (e, P) = Some (e', P') \<Longrightarrow> eng_run K e P \<Longrightarrow> eng_run K e' P'"
proof (induction cs arbitrary: e P)
  case (Cons c cs)
  then obtain e1 P1 where "eng_exec1 K ren cen c (e, P) = Some (e1, P1)" "eng_exec K ren cen cs (e1, P1) = Some (e', P')"
    by (auto split: option.splits)
  then show ?case using Cons.IH eng_exec1_run Cons.prems(2) by blast
qed simp

text \<open>Two transactions of one contract: its binary is fetched, a process is asked for and takes one.\<close>

definition sample_tx :: "string \<Rightarrow> DockerVMMessage" where
  "sample_tx i = (sample_request i 0)\<lparr>m_Request := m_Request sample_cm_req\<rparr>"

definition sample_engine :: engine where
  "sample_engine = \<lparr>e_sched = NewRequestScheduler, e_cm = cm_SetScheduler (projr (snd (NewContractManager sample_cm_env sample_disk))),
     e_chain = [], e_reqs = [], e_taken = []\<rparr>"

definition sample_eng_cmds :: "eng_cmd list" where
  "sample_eng_cmds = [XChain (sample_tx ''t1''), XSched RsSelTx, XGroup ''c#n#v'' SelTx, XManager, XSched RsSelEvent,
     XChain (sample_tx ''t2''), XSched RsSelTx, XChain (sample_cm_resp ''code''), XSched RsSelEvent, XManager,
     XGroup ''c#n#v'' SelTx, XGroup ''c#n#v'' SelTx, XTake ''c#n#v'']"

definition sample_eng_end :: "engine \<times> DockerVMMessage list" where
  "sample_eng_end = the (eng_exec sample_consts sample_rg_env sample_cm_env sample_eng_cmds (sample_engine, []))"

lemma sample_eng_exec:
  "(case eng_exec sample_consts sample_rg_env sample_cm_env sample_eng_cmds (sample_engine, []) of
      Some (e, P) \<Rightarrow> map m_TxId (filter (\<lambda>m. m_Type m = TX_REQUEST) P) = [''t1'', ''t2''] \<and>
        map (m_TxId \<circ> tp_Tx) (e_taken e) = [''t1''] \<and> map m_Type (e_chain e) = [GET_BYTECODE_REQUEST] \<and>
        map fst (e_reqs e) = [True] \<and> map fst (e_groups e) = [''c#n#v'']
    | None \<Rightarrow> False)"
  by code_simp

lemma sample_eng_run:
  obtains e P where "sample_eng_end = (e, P)" "eng_run sample_consts e P"
    "map m_TxId (filter (\<lambda>m. m_Type m = TX_REQUEST) P) = [''t1'', ''t2'']" "map (m_TxId \<circ> tp_Tx) (e_taken e) = [''t1'']"
    "map fst (e_reqs e) = [True]"
proof -
  let ?n = "NewContractManager sample_cm_env sample_disk"
  have "snd ?n = Inr (projr (snd ?n))" by code_simp
  then have "?n = (fst ?n, Inr (projr (snd ?n)))" by (metis prod.collapse)
  then have "eng_run sample_consts sample_engine []" unfolding sample_engine_def by (rule er_new)
  then show thesis
    using sample_eng_exec that eng_exec_run by (fastforce simp: sample_eng_end_def split: option.splits)
qed

section \<open>Properties\<close>

text \<open>
  C1: no transaction is lost or duplicated between the chain and the sandboxes.  In every run of the
  engine, however its goroutines are interleaved, the transactions the chain sent are those
  still in the scheduler's channel, those held by the request groups, those being answered or
  already answered with an error, and those the processes took.
\<close>

theorem engine_accounts_for_txs:
  assumes "eng_run K e P"
  shows "tx_ids (filter (\<lambda>m. m_Type m = TX_REQUEST) P) =
    tx_ids (rs_txCh (e_sched e)) + held_all (rs_requestGroups (e_sched e)) +
    errs (rs_eventCh (e_sched e)) + errs (e_chain e) + ch_ids (e_taken e)"
  using run_inv[OF assms] by (simp add: accounted_def)

theorem engine_accounts_for_txs_witness:
  "\<exists>e P. eng_run sample_consts e P \<and>
     {#''t1'', ''t2''#} = tx_ids (rs_txCh (e_sched e)) + held_all (rs_requestGroups (e_sched e)) +
       errs (rs_eventCh (e_sched e)) + errs (e_chain e) + ch_ids (e_taken e) \<and> ch_ids (e_taken e) = {#''t1''#}"
proof -
  obtain e P where r: "eng_run sample_consts e P"
      "map m_TxId (filter (\<lambda>m. m_Type m = TX_REQUEST) P) = [''t1'', ''t2'']" "map (m_TxId \<circ> tp_Tx) (e_taken e) = [''t1'']"
    by (rule sample_eng_run)
  then have "tx_ids (filter (\<lambda>m. m_Type m = TX_REQUEST) P) = {#''t1'', ''t2''#}" "ch_ids (e_taken e) = {#''t1''#}"
    by (simp_all add: tx_ids_def ch_ids_def del: map_eq_Cons_conv)
  then show ?thesis using engine_accounts_for_txs[OF r(1)] r(1) by auto
qed

text \<open>
  C2: no goroutine of the composed engine panics: neither the scheduler nor the contract manager
  nor any request group, whatever well-formed messages the chain and the processes send.
\<close>

theorem engine_never_panics:
  assumes "eng_run K e P"
  shows "rs_loop en sel (e_sched e) \<noteq> Some Panic \<and> cm_loop cen (e_cm e) \<noteq> Some Panic \<and>
    (\<forall>k r ren rsel. map_of (rs_requestGroups (e_sched e)) k = Some r \<and> rg_sees e ren \<longrightarrow> rg_loop K ren rsel r \<noteq> Some Panic)"
proof -
  have i: "sched_ok (e_sched e)" "cm_ok (e_cm e)" using run_inv[OF assms] by (auto simp: eng_inv_def)
  have "rg_loop K ren rsel r \<noteq> Some Panic" if "map_of (e_groups e) k = Some r" "rg_sees e ren" for k r ren rsel
    using rg_loop_good[of r ren K rsel Panic] that i(1) by (auto simp: loop_good_def sched_ok_def group_ok_def rg_sees_def)
  then show ?thesis using sched_no_panic cm_no_panic[OF i(2)] by blast
qed

theorem engine_never_panics_witness:
  "\<exists>e P. eng_run sample_consts e P \<and> length (e_taken e) = 1 \<and> rs_loop \<lparr>se_chainErr = None, se_cmErr = None\<rparr> RsSelTx (e_sched e) \<noteq> Some Panic"
proof -
  obtain e P where r: "eng_run sample_consts e P" "map (m_TxId \<circ> tp_Tx) (e_taken e) = [''t1'']" by (rule sample_eng_run)
  then show ?thesis using engine_never_panics[OF r(1)] arg_cong[OF r(2), of length] by auto
qed

text \<open>
  C31: the process managers are only asked for a positive number of processes, and always for a
  contract whose request group the scheduler finds when they report back.
\<close>

theorem process_requests_have_groups:
  assumes "eng_run K e P" "(b, q) \<in> set (e_reqs e)"
  shows "0 < gpr_ProcessNum q \<and>
    GetRequestGroup (gpr_ChainID q) (gpr_ContractName q) (gpr_ContractVersion q) (e_sched e) \<noteq> None"
proof -
  have "reqs_known (e_groups e) (e_reqs e)" using run_inv[OF assms(1)] by (simp add: eng_inv_def)
  then have "known_req (e_groups e) q" using assms(2) unfolding reqs_known_def by force
  then show ?thesis unfolding known_req_def GetRequestGroup_def by (simp add: map_of_eq_None_iff)
qed

theorem process_requests_have_groups_witness:
  "\<exists>e P q. eng_run sample_consts e P \<and> e_reqs e = [(True, q)] \<and> 0 < gpr_ProcessNum q"
proof -
  obtain e P where r: "eng_run sample_consts e P" "map fst (e_reqs e) = [True]" by (rule sample_eng_run)
  then obtain q where q: "e_reqs e = [(True, q)]" by auto
  then show ?thesis using process_requests_have_groups[OF r(1), of True q] r(1) by auto
qed

end
