(* ===== verification/Process_Manager.thy ===== *)
theory Process_Manager
  imports Process
begin

text \<open>
  The process manager, \<open>core/process_manager.go\<close>.  There are two instances, one for original and
  one for cross-contract processes; they share the user manager.

  Process objects live in a store (\<open>procs\<close>) and the manager's maps hold their addresses, since
  the same object sits in a cache, in a process group and in goroutines at once.  The linked
  hash maps of the gods library are the parameters \<open>v_idle\<close> and \<open>v_wait\<close>.

  Where a handler starts one goroutine per process and waits for them, each goroutine is a
  small program (\<open>gor\<close>) whose steps are the critical sections and calls of the code; a run of
  the pool follows a schedule, an arbitrary sequence of goroutine numbers, after which every
  goroutine is run to its end.  What holds for every schedule holds for every interleaving.
\<close>

section \<open>State\<close>

record ('m, 'w) pm_env =
  v_idle :: "(string, nat, 'm) lhm_ops"
  v_wait :: "(RequestGroupKey, bool, 'w) lhm_ops"
  v_cfg :: conf
  v_hasGroup :: "RequestGroupKey \<Rightarrow> bool"
  v_penv :: "nat \<Rightarrow> proc_env"
  v_releaseQuota :: int
  v_thread :: nat

record ('m, 'w) ProcessManager =
  maxProcessNum :: int
  isOrigManager :: bool
  idleProcesses :: 'm
  busyProcesses :: "(string, nat) gomap"
  processGroups :: "(string, (string, nat) gomap) gomap"
  waitingRequestGroups :: 'w
  allocateIdleCh :: nat
  allocateNewCh :: nat
  cleanTimer :: go_timer
  processCnt :: "64 word"
  requestScheduler :: bool
  userManager :: UserManager
  procs :: "(nat, Process) gomap"
  nextPid :: nat
  groupMsgs :: "(RequestGroupKey \<times> GetProcessRespMsg) list"

text \<open>
  \<open>groupMsgs\<close> collects the responses put into the request groups' channels, and
  \<open>v_releaseQuota\<close> is the integer part of the product of the release rate and the maximum.
\<close>

definition processManagerEventChSize :: nat where "processManagerEventChSize = 50000"

definition rgk :: "string \<Rightarrow> string \<Rightarrow> string \<Rightarrow> RequestGroupKey" where
  "rgk c n v = \<lparr>rgk_ChainID = c, rgk_ContractName = n, rgk_ContractVersion = v\<rparr>"

abbreviation key_str :: "RequestGroupKey \<Rightarrow> string" where
  "key_str k \<equiv> contract_key (rgk_ChainID k) (rgk_ContractName k) (rgk_ContractVersion k)"

definition proc_key :: "Process \<Rightarrow> RequestGroupKey" where
  "proc_key p = rgk (p_chainID p) (p_contractName p) (p_contractVersion p)"

definition NewProcessManager ::
  "('m, 'w) pm_env \<Rightarrow> int \<Rightarrow> bool \<Rightarrow> UserManager \<Rightarrow> ('m, 'w) ProcessManager" where
  "NewProcessManager V mx orig um =
     \<lparr>maxProcessNum = mx, isOrigManager = orig, idleProcesses = lhm_New (v_idle V),
      busyProcesses = [], processGroups = [], waitingRequestGroups = lhm_New (v_wait V),
      allocateIdleCh = 0, allocateNewCh = 0,
      cleanTimer = \<lparr>t_active = True, t_chan = False, t_duration = ReleasePeriod (Process_conf (v_cfg V))\<rparr>,
      processCnt = 0, requestScheduler = False, userManager = um, procs = [], nextPid = 0,
      groupMsgs = []\<rparr>"

definition SetScheduler :: "('m, 'w) ProcessManager \<Rightarrow> ('m, 'w) ProcessManager" where
  "SetScheduler pm = pm\<lparr>requestScheduler := True\<rparr>"

section \<open>Caches and groups\<close>

definition getAvailableProcessNum :: "('m, 'w) pm_env \<Rightarrow> ('m, 'w) ProcessManager \<Rightarrow> int" where
  "getAvailableProcessNum V pm =
     maxProcessNum pm - lhm_Size (v_idle V) (idleProcesses pm) - int (length (busyProcesses pm))"

definition getProcessByName ::
  "('m, 'w) pm_env \<Rightarrow> string \<Rightarrow> ('m, 'w) ProcessManager \<Rightarrow> nat option" where
  "getProcessByName V processName pm =
     (case lhm_Get (v_idle V) processName (idleProcesses pm) of
        Some pid \<Rightarrow> Some pid
      | None \<Rightarrow> map_of (busyProcesses pm) processName)"

definition GetProcessNumByContractKey ::
  "string \<Rightarrow> string \<Rightarrow> string \<Rightarrow> ('m, 'w) ProcessManager \<Rightarrow> int" where
  "GetProcessNumByContractKey chainID contractName contractVersion pm =
     (case map_of (processGroups pm) (contract_key chainID contractName contractVersion) of
        Some g \<Rightarrow> int (length g)
      | None \<Rightarrow> 0)"

definition GetReadyOrBusyProcessNum ::
  "string \<Rightarrow> string \<Rightarrow> string \<Rightarrow> ('m, 'w) ProcessManager \<Rightarrow> int" where
  "GetReadyOrBusyProcessNum chainID contractName contractVersion pm =
     (case map_of (processGroups pm) (contract_key chainID contractName contractVersion) of
        Some g \<Rightarrow> int (length (filter (\<lambda>(nm, pid). case map_of (procs pm) pid of
             Some p \<Rightarrow> IsReadyOrBusy p | None \<Rightarrow> False) g))
      | None \<Rightarrow> 0)"

definition sendProcessReadyResp ::
  "('m, 'w) pm_env \<Rightarrow> int \<Rightarrow> RequestGroupKey \<Rightarrow> ('m, 'w) ProcessManager \<Rightarrow>
   ('m, 'w) ProcessManager \<times> error option" where
  "sendProcessReadyResp V processNum k pm =
     (if \<not> v_hasGroup V k
      then (pm, Some (''failed to get request group, chainID: '' @ rgk_ChainID k @
              '', contract name: '' @ rgk_ContractName k @
              '', contract version: '' @ rgk_ContractVersion k))
      else (pm\<lparr>groupMsgs := groupMsgs pm @
              [(k, \<lparr>gps_IsOrig = isOrigManager pm, gps_ProcessNum = processNum\<rparr>)]\<rparr>, None))"

definition removeFromWaitingGroup ::
  "('m, 'w) pm_env \<Rightarrow> RequestGroupKey \<Rightarrow> ('m, 'w) ProcessManager \<Rightarrow> ('m, 'w) ProcessManager" where
  "removeFromWaitingGroup V k pm =
     fst (sendProcessReadyResp V 0 k
            (pm\<lparr>waitingRequestGroups := lhm_Remove (v_wait V) k (waitingRequestGroups pm)\<rparr>))"

definition addToProcessGroup ::
  "nat \<Rightarrow> RequestGroupKey \<Rightarrow> string \<Rightarrow> ('m, 'w) ProcessManager \<Rightarrow> ('m, 'w) ProcessManager" where
  "addToProcessGroup pid k processName pm =
     (let g = (case map_of (processGroups pm) (key_str k) of Some g \<Rightarrow> g | None \<Rightarrow> [])
      in pm\<lparr>processGroups := AList.update (key_str k) (AList.update processName pid g) (processGroups pm)\<rparr>)"

definition removeFromProcessGroup ::
  "('m, 'w) pm_env \<Rightarrow> RequestGroupKey \<Rightarrow> string \<Rightarrow> ('m, 'w) ProcessManager \<Rightarrow> ('m, 'w) ProcessManager" where
  "removeFromProcessGroup V k processName pm =
     (case map_of (processGroups pm) (key_str k) of
        None \<Rightarrow> pm
      | Some g \<Rightarrow>
          (let g' = AList.delete processName g
           in if g' = []
              then removeFromWaitingGroup V k
                     (pm\<lparr>processGroups := AList.delete (key_str k) (processGroups pm)\<rparr>)
              else pm\<lparr>processGroups := AList.update (key_str k) g' (processGroups pm)\<rparr>))"

definition addProcessToIdle ::
  "('m, 'w) pm_env \<Rightarrow> string \<Rightarrow> nat \<Rightarrow> ('m, 'w) ProcessManager \<Rightarrow> ('m, 'w) ProcessManager go" where
  "addProcessToIdle V processName pid pm = (case map_of (procs pm) pid of
       None \<Rightarrow> Panic
     | Some p \<Rightarrow>
         (let pm1 = pm\<lparr>idleProcesses := lhm_Put (v_idle V) processName pid (idleProcesses pm)\<rparr>;
              groupKey = proc_key p;
              pm2 = (case lhm_Get (v_wait V) groupKey (waitingRequestGroups pm1) of
                  Some _ \<Rightarrow> removeFromWaitingGroup V groupKey pm1
                | None \<Rightarrow> pm1)
          in if lhm_Size (v_wait V) (waitingRequestGroups pm2) > 0
             then (if allocateIdleCh pm2 \<ge> processManagerEventChSize then Block
                   else Val (pm2\<lparr>allocateIdleCh := allocateIdleCh pm2 + 1\<rparr>))
             else Val pm2))"

definition addProcessToCache ::
  "('m, 'w) pm_env \<Rightarrow> RequestGroupKey \<Rightarrow> string \<Rightarrow> nat \<Rightarrow> bool \<Rightarrow> ('m, 'w) ProcessManager \<Rightarrow>
   ('m, 'w) ProcessManager go" where
  "addProcessToCache V k processName pid isBusy pm =
     go_bind (if isBusy then Val (pm\<lparr>busyProcesses := AList.update processName pid (busyProcesses pm)\<rparr>)
              else addProcessToIdle V processName pid pm)
       (\<lambda>pm1. Val (addToProcessGroup pid k processName pm1))"

definition removeProcessFromCache ::
  "('m, 'w) pm_env \<Rightarrow> RequestGroupKey \<Rightarrow> string \<Rightarrow> ('m, 'w) ProcessManager \<Rightarrow> ('m, 'w) ProcessManager" where
  "removeProcessFromCache V k processName pm =
     removeFromProcessGroup V k processName
       (pm\<lparr>busyProcesses := AList.delete processName (busyProcesses pm),
           idleProcesses := lhm_Remove (v_idle V) processName (idleProcesses pm)\<rparr>)"

definition ChangeProcessState ::
  "('m, 'w) pm_env \<Rightarrow> string \<Rightarrow> bool \<Rightarrow> ('m, 'w) ProcessManager \<Rightarrow>
   (('m, 'w) ProcessManager \<times> error option) go" where
  "ChangeProcessState V processName toBusy pm =
     (if toBusy then
        (case lhm_Get (v_idle V) processName (idleProcesses pm) of
           None \<Rightarrow> Val (pm, Some ''process not exist in idle processes'')
         | Some pid \<Rightarrow> Val (pm\<lparr>busyProcesses := AList.update processName pid (busyProcesses pm),
               idleProcesses := lhm_Remove (v_idle V) processName (idleProcesses pm)\<rparr>, None))
      else
        (case map_of (busyProcesses pm) processName of
           None \<Rightarrow> Val (pm, Some ''process not exist in busy processes'')
         | Some pid \<Rightarrow> go_bind (addProcessToIdle V processName pid pm) (\<lambda>pm1.
               Val (pm1\<lparr>busyProcesses := AList.delete processName (busyProcesses pm1)\<rparr>, None))))"

definition generateProcessName ::
  "RequestGroupKey \<Rightarrow> ('m, 'w) ProcessManager \<Rightarrow> ('m, 'w) ProcessManager \<times> string" where
  "generateProcessName k pm =
     (let localIndex = (case map_of (processGroups pm) (key_str k) of
             Some g \<Rightarrow> int (length g) | None \<Rightarrow> 0);
          pm1 = pm\<lparr>processCnt := processCnt pm + 1\<rparr>
      in (pm1, ConstructProcessName (rgk_ChainID k) (rgk_ContractName k) (rgk_ContractVersion k)
                 localIndex (processCnt pm1) (isOrigManager pm1)))"

definition peekIdleProcesses ::
  "('m, 'w) pm_env \<Rightarrow> int \<Rightarrow> ('m, 'w) ProcessManager \<Rightarrow> nat list res" where
  "peekIdleProcesses V num pm =
     (if num > lhm_Size (v_idle V) (idleProcesses pm) then Inl ''num > current size''
      else Inr (take (nat num) (map snd (lhm_Entries (v_idle V) (idleProcesses pm)))))"

definition peekWaitingRequestGroups ::
  "('m, 'w) pm_env \<Rightarrow> int \<Rightarrow> ('m, 'w) ProcessManager \<Rightarrow> RequestGroupKey list res" where
  "peekWaitingRequestGroups V num pm =
     (if num > lhm_Size (v_wait V) (waitingRequestGroups pm) then Inl ''num > current size''
      else Inr (take (nat num) (map fst (lhm_Entries (v_wait V) (waitingRequestGroups pm)))))"

section \<open>Creating and closing processes\<close>

definition createNewProcess ::
  "('m, 'w) pm_env \<Rightarrow> RequestGroupKey \<Rightarrow> string \<Rightarrow> ('m, 'w) ProcessManager \<Rightarrow>
   (('m, 'w) ProcessManager \<times> nat res) go" where
  "createNewProcess V k processName pm =
     (if \<not> requestScheduler pm
      then Val (pm, Inl ''request scheduler has not been initialized'')
      else case GetAvailableUser (v_thread V) (userManager pm) of
        (um, Val (Inl e)) \<Rightarrow> Val (pm\<lparr>userManager := um\<rparr>, Inl e)
      | (um, Val (Inr u)) \<Rightarrow>
          go_bind (NewProcess (v_hasGroup V k) u (rgk_ChainID k) (rgk_ContractName k)
                     (rgk_ContractVersion k) processName (isOrigManager pm))
            (\<lambda>p. let pid = nextPid pm
                 in Val (pm\<lparr>userManager := um, procs := AList.update pid p (procs pm),
                            nextPid := pid + 1\<rparr>, Inr pid))
      | (um, Block) \<Rightarrow> Block
      | (um, Panic) \<Rightarrow> Panic)"

definition pm_releaseUser ::
  "('m, 'w) pm_env \<Rightarrow> string \<Rightarrow> ('m, 'w) ProcessManager \<Rightarrow> (('m, 'w) ProcessManager \<times> error option) go" where
  "pm_releaseUser V processName pm =
     (case getProcessByName V processName pm of
        None \<Rightarrow> Panic
      | Some pid \<Rightarrow> (case map_of (procs pm) pid of
          None \<Rightarrow> Panic
        | Some p \<Rightarrow> (let (um, ch, e) = FreeUser (p_user p) (userManager pm)
            in Val (pm\<lparr>userManager := um\<rparr>, map_option (\<lambda>e. ''failed to free user, '' @ e) e))))"

definition closeSandbox ::
  "('m, 'w) pm_env \<Rightarrow> RequestGroupKey \<Rightarrow> string \<Rightarrow> ('m, 'w) ProcessManager \<Rightarrow>
   (('m, 'w) ProcessManager \<times> error option) go" where
  "closeSandbox V k processName pm =
     go_bind (pm_releaseUser V processName pm) (\<lambda>(pm1, e). case e of
         Some e \<Rightarrow> Val (pm1, Some (''failed to release user of '' @ processName @ '', '' @ e))
       | None \<Rightarrow> Val (removeProcessFromCache V k processName pm1, None))"

section \<open>Goroutines\<close>

text \<open>
  The program points of the goroutines of the four handlers: \<open>Cr\<close> creates a process for a
  request, \<open>Ch\<close> changes an idle one for it, \<open>Cl\<close> closes an idle one, \<open>Ai\<close> gives an idle process
  to a waiting group and \<open>An\<close> a new one.  A counter is shared by the goroutines of a pool: the
  number of processes obtained (\<open>ProcessNum - needProcessNum\<close>) or closed (\<open>actualNum\<close>).
\<close>

datatype gor =
    CrStart RequestGroupKey
  | CrNamed RequestGroupKey string
  | CrMade RequestGroupKey string nat
  | ChStart RequestGroupKey nat
  | ChNamed RequestGroupKey nat RequestGroupKey string string
  | ChChanged RequestGroupKey nat RequestGroupKey string string
  | ClStart nat
  | ClClosed nat
  | AiStart RequestGroupKey nat
  | AiSame RequestGroupKey
  | AiNamed RequestGroupKey nat RequestGroupKey string string
  | AiChanged RequestGroupKey nat RequestGroupKey string string
  | AiSent RequestGroupKey nat RequestGroupKey string string
  | AnStart RequestGroupKey
  | AnSent RequestGroupKey
  | AnNamed RequestGroupKey string
  | AnMade RequestGroupKey string nat
  | GDone

type_synonym ('m, 'w) pool_state = "('m, 'w) ProcessManager \<times> int"

definition same_contract :: "RequestGroupKey \<Rightarrow> Process \<Rightarrow> bool" where
  "same_contract k p \<longleftrightarrow> rgk_ContractName k = p_contractName p \<and> rgk_ContractVersion k = p_contractVersion p"

text \<open>A call of a process method on the object \<open>pid\<close> of the store.\<close>

definition on_proc ::
  "nat \<Rightarrow> (Process \<Rightarrow> error option act) \<Rightarrow> ('m, 'w) ProcessManager \<Rightarrow>
   (('m, 'w) ProcessManager \<times> error option) go" where
  "on_proc pid f pm = (case map_of (procs pm) pid of
       None \<Rightarrow> Panic
     | Some p \<Rightarrow> go_bind (f p) (\<lambda>(p', out, e). Val (pm\<lparr>procs := AList.update pid p' (procs pm)\<rparr>, e)))"

definition change_sandbox ::
  "('m, 'w) pm_env \<Rightarrow> nat \<Rightarrow> RequestGroupKey \<Rightarrow> string \<Rightarrow> ('m, 'w) ProcessManager \<Rightarrow>
   (('m, 'w) ProcessManager \<times> error option) go" where
  "change_sandbox V pid k newName =
     on_proc pid (ChangeSandbox (v_cfg V) ((v_penv V pid)\<lparr>pe_groupOk := v_hasGroup V k\<rparr>) (rgk_ChainID k) (rgk_ContractName k)
       (rgk_ContractVersion k) newName)"

fun gor_step ::
  "('m, 'w) pm_env \<Rightarrow> gor \<Rightarrow> ('m, 'w) pool_state \<Rightarrow> (gor \<times> ('m, 'w) pool_state) go" where
  "gor_step V (CrStart k) (pm, cnt) =
     (let (pm1, nm) = generateProcessName k pm in Val (CrNamed k nm, pm1, cnt))"
| "gor_step V (CrNamed k nm) (pm, cnt) =
     go_bind (createNewProcess V k nm pm) (\<lambda>(pm1, r). case r of
         Inl e \<Rightarrow> Val (GDone, pm1, cnt)
       | Inr pid \<Rightarrow> Val (CrMade k nm pid, pm1, cnt))"
| "gor_step V (CrMade k nm pid) (pm, cnt) =
     go_bind (addProcessToCache V k nm pid True pm) (\<lambda>pm1. Val (GDone, pm1, cnt + 1))"
| "gor_step V (ChStart k pid) (pm, cnt) = (case map_of (procs pm) pid of
       None \<Rightarrow> Panic
     | Some p \<Rightarrow>
         if same_contract k p then Val (GDone, pm, cnt + 1)
         else let (pm1, nm) = generateProcessName k pm
           in Val (ChNamed k pid (proc_key p) (p_processName p) nm, pm1, cnt))"
| "gor_step V (ChNamed k pid ok on nm) (pm, cnt) =
     go_bind (change_sandbox V pid k nm pm) (\<lambda>(pm1, e).
       Val (if e = None then ChChanged k pid ok on nm else GDone, pm1, cnt))"
| "gor_step V (ChChanged k pid ok on nm) (pm, cnt) =
     go_bind (addProcessToCache V k nm pid True (removeProcessFromCache V ok on pm))
       (\<lambda>pm1. Val (GDone, pm1, cnt + 1))"
| "gor_step V (ClStart pid) (pm, cnt) =
     go_bind (on_proc pid (CloseSandbox (v_cfg V) (v_penv V pid)) pm) (\<lambda>(pm1, e).
       Val (if e = None then ClClosed pid else GDone, pm1, cnt))"
| "gor_step V (ClClosed pid) (pm, cnt) = (case map_of (procs pm) pid of
       None \<Rightarrow> Panic
     | Some p \<Rightarrow> go_bind (closeSandbox V (proc_key p) (p_processName p) pm)
         (\<lambda>(pm1, e). Val (GDone, pm1, cnt + 1)))"
| "gor_step V (AiStart k pid) (pm, cnt) = (case map_of (procs pm) pid of
       None \<Rightarrow> Panic
     | Some p \<Rightarrow>
         if same_contract k p then Val (AiSame k, removeFromWaitingGroup V k pm, cnt)
         else let (pm1, nm) = generateProcessName k pm
           in Val (AiNamed k pid (proc_key p) (p_processName p) nm, pm1, cnt))"
| "gor_step V (AiSame k) (pm, cnt) = Val (GDone, fst (sendProcessReadyResp V 0 k pm), cnt)"
| "gor_step V (AiNamed k pid ok on nm) (pm, cnt) =
     go_bind (change_sandbox V pid k nm pm) (\<lambda>(pm1, e).
       Val (if e = None then AiChanged k pid ok on nm else GDone, pm1, cnt))"
| "gor_step V (AiChanged k pid ok on nm) (pm, cnt) =
     (let (pm1, e) = sendProcessReadyResp V 1 k pm
      in Val (if e = None then AiSent k pid ok on nm else GDone, pm1, cnt))"
| "gor_step V (AiSent k pid ok on nm) (pm, cnt) =
     go_bind (addProcessToCache V k nm pid True
                (removeProcessFromCache V ok on (removeFromWaitingGroup V k pm)))
       (\<lambda>pm1. Val (GDone, pm1, cnt))"
| "gor_step V (AnStart k) (pm, cnt) =
     (let (pm1, e) = sendProcessReadyResp V 1 k pm
      in Val (if e = None then AnSent k else GDone, pm1, cnt))"
| "gor_step V (AnSent k) (pm, cnt) =
     (let (pm1, nm) = generateProcessName k pm in Val (AnNamed k nm, pm1, cnt))"
| "gor_step V (AnNamed k nm) (pm, cnt) =
     go_bind (createNewProcess V k nm pm) (\<lambda>(pm1, r). case r of
         Inl e \<Rightarrow> Val (GDone, pm1, cnt)
       | Inr pid \<Rightarrow> Val (AnMade k nm pid, pm1, cnt))"
| "gor_step V (AnMade k nm pid) (pm, cnt) =
     go_bind (addProcessToCache V k nm pid True (removeFromWaitingGroup V k pm))
       (\<lambda>pm1. Val (GDone, pm1, cnt))"
| "gor_step V GDone s = Val (GDone, s)"

fun run_sched ::
  "('m, 'w) pm_env \<Rightarrow> nat list \<Rightarrow> gor list \<Rightarrow> ('m, 'w) pool_state \<Rightarrow>
   (gor list \<times> ('m, 'w) pool_state) go" where
  "run_sched V [] gs s = Val (gs, s)"
| "run_sched V (i # is) gs s =
     (if i < length gs
      then go_bind (gor_step V (gs ! i) s) (\<lambda>(g, s1). run_sched V is (gs[i := g]) s1)
      else run_sched V is gs s)"

text \<open>No goroutine has more than five steps, so five more rounds end all of them.\<close>

definition run_pool ::
  "('m, 'w) pm_env \<Rightarrow> nat list \<Rightarrow> gor list \<Rightarrow> ('m, 'w) ProcessManager \<Rightarrow> ('m, 'w) pool_state go" where
  "run_pool V sched gs pm =
     go_bind (run_sched V (sched @ concat (replicate 5 [0..<length gs])) gs (pm, 0))
       (\<lambda>(gs', s). Val s)"

section \<open>Handlers\<close>

definition chan_send :: "nat \<Rightarrow> nat go" where
  "chan_send n = (if n \<ge> processManagerEventChSize then Block else Val (n + 1))"

definition req_key :: "GetProcessReqMsg \<Rightarrow> RequestGroupKey" where
  "req_key msg = rgk (gpr_ChainID msg) (gpr_ContractName msg) (gpr_ContractVersion msg)"

definition handleGetProcessReq ::
  "('m, 'w) pm_env \<Rightarrow> nat list \<Rightarrow> nat list \<Rightarrow> GetProcessReqMsg \<Rightarrow> ('m, 'w) ProcessManager \<Rightarrow>
   (('m, 'w) ProcessManager \<times> error option) go" where
  "handleGetProcessReq V sched1 sched2 msg pm =
     (let k = req_key msg
      in if gpr_ProcessNum msg = 0 then Val (removeFromWaitingGroup V k pm, None)
         else
           let avail = getAvailableProcessNum V pm
           in if avail > 0 \<and> gpr_ProcessNum msg < 0 then Panic
           else
           let n1 = (if avail > 0 then nat (utils_Min (gpr_ProcessNum msg) avail) else 0)
           in go_bind (run_pool V sched1 (replicate n1 (CrStart k)) pm) (\<lambda>(pm1, got1).
             let need1 = gpr_ProcessNum msg - got1;
                 idleSize = lhm_Size (v_idle V) (idleProcesses pm1)
             in go_bind
               (if need1 > 0 \<and> idleSize > 0
                then (case peekIdleProcesses V (utils_Min need1 idleSize) pm1 of
                    Inl e \<Rightarrow> Val (Inl (''failed to peek idle processes, '' @ e))
                  | Inr pids \<Rightarrow> go_bind (run_pool V sched2 (map (ChStart k) pids) pm1) (\<lambda>r. Val (Inr r)))
                else Val (Inr (pm1, 0)))
               (\<lambda>r. case r of
                  Inl e \<Rightarrow> Val (pm1, Some e)
                | Inr (pm2, got2) \<Rightarrow>
                    if got1 + got2 = 0
                    then (case lhm_Get (v_wait V) k (waitingRequestGroups pm2) of
                        None \<Rightarrow> Val (pm2\<lparr>waitingRequestGroups :=
                                  lhm_Put (v_wait V) k True (waitingRequestGroups pm2)\<rparr>, None)
                      | Some _ \<Rightarrow> Val (pm2, None))
                    else (case sendProcessReadyResp V (got1 + got2) k pm2 of
                        (pm3, None) \<Rightarrow> Val (pm3, None)
                      | (pm3, Some e) \<Rightarrow> Val (pm3, Some (''failed to send process ready resp, '' @ e))))))"

definition handleSandboxExitMsg ::
  "('m, 'w) pm_env \<Rightarrow> SandboxExitMsg \<Rightarrow> ('m, 'w) ProcessManager \<Rightarrow>
   (('m, 'w) ProcessManager \<times> error option) go" where
  "handleSandboxExitMsg V msg pm =
     go_bind (closeSandbox V (rgk (sem_ChainID msg) (sem_ContractName msg) (sem_ContractVersion msg))
                (sem_ProcessName msg) pm) (\<lambda>(pm1, e). case e of
         Some e \<Rightarrow> Val (pm1, Some (''failed to close sandbox, '' @ e))
       | None \<Rightarrow> go_bind (chan_send (allocateNewCh pm1)) (\<lambda>n. Val (pm1\<lparr>allocateNewCh := n\<rparr>, None)))"

definition startTimer ::
  "('m, 'w) pm_env \<Rightarrow> ('m, 'w) ProcessManager \<Rightarrow> ('m, 'w) ProcessManager" where
  "startTimer V pm =
     (let (t, stopped) = timer_Stop (cleanTimer pm);
          t1 = (if \<not> stopped \<and> t_chan t then t\<lparr>t_chan := False\<rparr> else t)
      in pm\<lparr>cleanTimer := timer_Reset (WaitingTxTime (Process_conf (v_cfg V))) t1\<rparr>)"

definition handleCleanIdleProcesses ::
  "('m, 'w) pm_env \<Rightarrow> nat list \<Rightarrow> ('m, 'w) ProcessManager \<Rightarrow> ('m, 'w) ProcessManager go" where
  "handleCleanIdleProcesses V sched pm =
     (let releaseNum = utils_Min (v_releaseQuota V - getAvailableProcessNum V pm)
                         (lhm_Size (v_idle V) (idleProcesses pm))
      in if releaseNum \<le> 0 then Val pm
         else case peekIdleProcesses V releaseNum pm of
           Inl e \<Rightarrow> Panic
         | Inr pids \<Rightarrow>
             go_bind (run_pool V sched (map ClStart pids) pm) (\<lambda>(pm1, actualNum).
               go_bind (if actualNum > 0 then chan_send (allocateNewCh pm1) else Val (allocateNewCh pm1))
                 (\<lambda>n. Val (startTimer V (pm1\<lparr>allocateNewCh := n\<rparr>)))))"

definition handleAllocateIdleProcesses ::
  "('m, 'w) pm_env \<Rightarrow> nat list \<Rightarrow> ('m, 'w) ProcessManager \<Rightarrow> ('m, 'w) ProcessManager go" where
  "handleAllocateIdleProcesses V sched pm =
     (let allocateNum = utils_Min (lhm_Size (v_wait V) (waitingRequestGroups pm))
                          (lhm_Size (v_idle V) (idleProcesses pm))
      in if allocateNum = 0 then Val pm
         else case (peekIdleProcesses V allocateNum pm, peekWaitingRequestGroups V allocateNum pm) of
           (Inr pids, Inr groups) \<Rightarrow>
             go_bind (run_pool V sched (map2 AiStart groups pids) pm) (\<lambda>(pm1, n). Val pm1)
         | _ \<Rightarrow> Panic)"

definition handleAllocateNewProcesses ::
  "('m, 'w) pm_env \<Rightarrow> nat list \<Rightarrow> ('m, 'w) ProcessManager \<Rightarrow> ('m, 'w) ProcessManager go" where
  "handleAllocateNewProcesses V sched pm =
     (let allocateNum = utils_Min (lhm_Size (v_wait V) (waitingRequestGroups pm))
                          (getAvailableProcessNum V pm)
      in if allocateNum = 0 then Val pm
         else case peekWaitingRequestGroups V allocateNum pm of
           Inl e \<Rightarrow> Panic
         | Inr groups \<Rightarrow>
             if allocateNum < 0 then Panic
             else go_bind (run_pool V sched (map AnStart groups) pm) (\<lambda>(pm1, n). Val pm1))"

text \<open>
  The channel of events and one iteration of the loop of \<open>Start\<close>: which ready case the select takes,
  with the schedules of the handlers' pools; nothing if that case is not ready.
\<close>

datatype pm_msg = PmGetProcess GetProcessReqMsg | PmSandboxExit SandboxExitMsg | PmUnknown

datatype pm_select = PmSelEvent | PmSelClean | PmSelIdle | PmSelNew

record ('m, 'w) pm_routine =
  pr_manager :: "('m, 'w) ProcessManager"
  pm_eventCh :: "pm_msg list"

definition pm_PutMsg :: "pm_msg \<Rightarrow> ('m, 'w) pm_routine \<Rightarrow> (('m, 'w) pm_routine \<times> error option) go" where
  "pm_PutMsg msg r =
     (if msg = PmUnknown then Val (r, Some ''unknown msg type'')
      else if length (pm_eventCh r) \<ge> processManagerEventChSize then Block
      else Val (r\<lparr>pm_eventCh := pm_eventCh r @ [msg]\<rparr>, None))"

definition pm_event ::
  "('m, 'w) pm_env \<Rightarrow> nat list \<Rightarrow> nat list \<Rightarrow> pm_msg \<Rightarrow> ('m, 'w) ProcessManager \<Rightarrow> ('m, 'w) ProcessManager go" where
  "pm_event V s1 s2 msg pm = (case msg of
       PmGetProcess m \<Rightarrow> go_bind (handleGetProcessReq V s1 s2 m pm) (\<lambda>(pm', err). Val pm')
     | PmSandboxExit m \<Rightarrow> go_bind (handleSandboxExitMsg V m pm) (\<lambda>(pm', err). Val pm')
     | PmUnknown \<Rightarrow> Val pm)"

definition pm_loop ::
  "('m, 'w) pm_env \<Rightarrow> nat list \<Rightarrow> nat list \<Rightarrow> pm_select \<Rightarrow> ('m, 'w) pm_routine \<Rightarrow> ('m, 'w) pm_routine go option" where
  "pm_loop V s1 s2 sel r =
     (let pm = pr_manager r; on = (\<lambda>h r. Some (go_bind h (\<lambda>pm'. Val (r\<lparr>pr_manager := pm'\<rparr>))))
      in case sel of
           PmSelEvent \<Rightarrow> (case pm_eventCh r of
               [] \<Rightarrow> None
             | msg # msgs \<Rightarrow> on (pm_event V s1 s2 msg pm) (r\<lparr>pm_eventCh := msgs\<rparr>))
         | PmSelClean \<Rightarrow> if t_chan (cleanTimer pm)
             then on (handleCleanIdleProcesses V s1 (pm\<lparr>cleanTimer := (cleanTimer pm)\<lparr>t_chan := False\<rparr>\<rparr>)) r else None
         | PmSelIdle \<Rightarrow> if allocateIdleCh pm > 0
             then on (handleAllocateIdleProcesses V s1 (pm\<lparr>allocateIdleCh := allocateIdleCh pm - 1\<rparr>)) r else None
         | PmSelNew \<Rightarrow> if allocateNewCh pm > 0
             then on (handleAllocateNewProcesses V s1 (pm\<lparr>allocateNewCh := allocateNewCh pm - 1\<rparr>)) r else None)"

section \<open>Every pool ends\<close>

fun rank :: "gor \<Rightarrow> nat" where
  "rank (CrStart k) = 3" | "rank (CrNamed k n) = 2" | "rank (CrMade k n p) = 1"
| "rank (ChStart k p) = 3" | "rank (ChNamed k p ok on n) = 2" | "rank (ChChanged k p ok on n) = 1"
| "rank (ClStart p) = 2" | "rank (ClClosed p) = 1"
| "rank (AiStart k p) = 4" | "rank (AiSame k) = 1" | "rank (AiNamed k p ok on n) = 3"
| "rank (AiChanged k p ok on n) = 2" | "rank (AiSent k p ok on n) = 1"
| "rank (AnStart k) = 4" | "rank (AnSent k) = 3" | "rank (AnNamed k n) = 2" | "rank (AnMade k n p) = 1"
| "rank GDone = 0"

lemma rank_0 [simp]: "rank g = 0 \<longleftrightarrow> g = GDone"
  by (cases g) simp_all

lemma rank_le: "rank g \<le> 4"
  by (cases g) simp_all

lemma create_case:
  "go_bind m (\<lambda>(pm, r). case r of Inl e \<Rightarrow> Val (GDone, pm, cnt) | Inr pid \<Rightarrow> Val (f pid, pm, cnt)) =
     Val (g', s') \<Longrightarrow> g' = GDone \<or> (\<exists>pid. g' = f pid)"
  by (cases m) (auto split: sum.splits)

lemma gor_step_rank: "gor_step V g s = Val (g', s') \<Longrightarrow> rank g' \<le> rank g - 1"
  by (cases s; cases g)
    (auto simp: Let_def simp del: go_bind_eq_Val dest!: create_case
      split: prod.splits option.splits if_splits | auto split: if_splits)+

lemma run_sched_rank:
  "run_sched V is gs s = Val (gs', s') \<Longrightarrow> length gs' = length gs \<and>
     (\<forall>i<length gs. rank (gs' ! i) \<le> rank (gs ! i) - count_list is i)"
proof (induction "is" arbitrary: gs s)
  case (Cons i "is")
  show ?case
  proof (cases "i < length gs")
    case True
    then obtain g s1 where g: "gor_step V (gs ! i) s = Val (g, s1)"
      "run_sched V is (gs[i := g]) s1 = Val (gs', s')"
      using Cons.prems by auto
    from Cons.IH[OF g(2)] gor_step_rank[OF g(1)] True show ?thesis
      by (fastforce simp: nth_list_update)
  next
    case False
    then show ?thesis using Cons.IH[of gs s] Cons.prems by auto
  qed
qed auto

lemma count_rounds: "i < n \<Longrightarrow> count_list (concat (replicate m [0..<n])) i = m"
proof (induction m)
  case (Suc m)
  have "count_list [0..<n] i = (if i < n then 1 else 0)" by (induction n) auto
  with Suc show ?case by simp
qed simp

lemma pool_ends:
  assumes "run_sched V (sched @ concat (replicate 5 [0..<length gs])) gs s = Val (gs', s')"
  shows "gs' = replicate (length gs) GDone"
proof -
  have "rank (gs' ! i) = 0" if "i < length gs" for i
    using run_sched_rank[OF assms] that count_rounds[OF that, of 5] rank_le[of "gs ! i"]
    by (fastforce simp: count_list_append)
  then show ?thesis using run_sched_rank[OF assms] by (auto intro!: nth_equalityI)
qed

end
