(* ===== verification/Engine_Rpc.thy ===== *)
theory Engine_Rpc
  imports Engine Process_Manager Runtime_Server
begin

text \<open>
  The engine's ends of its streams, \<open>vm_mgr/module/rpc\<close>: the service for the chain, with the two
  routines of a connection, and the service for the sandboxes.

  As on the side of the runtime, the streams are the environment.  The service for the chain has no
  scheduler until \<open>SetScheduler\<close>; a call of the nil scheduler panics.
\<close>

section \<open>The service for the chain\<close>

definition rpcEventChSize :: int where "rpcEventChSize = 50000"

record ChainRPCService =
  ch_scheduler :: bool
  ch_eventCh :: "DockerVMMessage list"

text \<open>\<open>cc_err\<close> is the variable \<open>err\<close> of \<open>sendMsgRoutine\<close>, which keeps its value between iterations.\<close>

record communicateConn = duplex +
  cc_wg :: nat
  cc_err :: send_result
  cc_sent :: "DockerVMMessage list"

definition NewChainRPCService :: ChainRPCService where
  "NewChainRPCService = \<lparr>ch_scheduler = False, ch_eventCh = []\<rparr>"

definition ch_SetScheduler :: "ChainRPCService \<Rightarrow> ChainRPCService" where
  "ch_SetScheduler s = s\<lparr>ch_scheduler := True\<rparr>"

datatype chain_msg = ChainVm DockerVMMessage | ChainOther

definition ch_PutMsg :: "chain_msg \<Rightarrow> ChainRPCService \<Rightarrow> (ChainRPCService \<times> error option) go" where
  "ch_PutMsg msg s = (case msg of
       ChainVm m \<Rightarrow> if int (length (ch_eventCh s)) < rpcEventChSize
         then Val (s\<lparr>ch_eventCh := ch_eventCh s @ [m]\<rparr>, None) else Block
     | ChainOther \<Rightarrow> Val (s, Some ''unknown msg type''))"

text \<open>\<open>DockerVMCommunicate\<close> up to the wait for its two routines.\<close>

definition ch_DockerVMCommunicate :: communicateConn where
  "ch_DockerVMCommunicate = \<lparr>dx_stopSend = False, dx_stopReceive = False, dx_recvEnded = False, dx_sendEnded = False,
     cc_wg = 2, cc_err = SendOk, cc_sent = []\<rparr>"

definition ch_recvMsgRoutine ::
  "slowConf \<Rightarrow> ChainRPCService \<Rightarrow> (nat \<Rightarrow> int) \<Rightarrow> bool \<Rightarrow> recv_input \<Rightarrow> communicateConn \<times> RequestScheduler \<Rightarrow>
     (communicateConn \<times> RequestScheduler) go" where
  "ch_recvMsgRoutine sl s clk late inp = (\<lambda>(conn, sched).
     if dx_recvEnded conn then Block
     else if dx_stopReceive conn \<and> \<not> late then Val (conn\<lparr>cc_wg := cc_wg conn - 1, dx_recvEnded := True\<rparr>, sched)
     else case inp of
       RecvErr \<Rightarrow> go_bind (close_stopSend conn) (\<lambda>conn. Val (conn\<lparr>cc_wg := cc_wg conn - 1, dx_recvEnded := True\<rparr>, sched))
     | RecvMsg m \<Rightarrow>
         (let msg = EnterNextStep sl clk m ENGINE_GRPC_RECEIVE_TX_REQUEST ''''
          in if m_Type msg = TX_REQUEST \<or> m_Type msg = GET_BYTECODE_RESPONSE
             then (if \<not> ch_scheduler s then Panic
                   else go_bind (rs_PutMsg (RsVm msg) sched) (\<lambda>(sched', err). Val (conn, sched')))
             else Val (conn, sched)))"

definition ch_sendMsgRoutine ::
  "bool \<Rightarrow> send_result \<Rightarrow> communicateConn \<times> ChainRPCService \<Rightarrow> (communicateConn \<times> ChainRPCService) go" where
  "ch_sendMsgRoutine take_stop res = (\<lambda>(conn, s).
     if dx_sendEnded conn then Block
     else if take_stop then
       (if dx_stopSend conn then Val (conn\<lparr>cc_wg := cc_wg conn - 1, dx_sendEnded := True\<rparr>, s) else Block)
     else case ch_eventCh s of
       [] \<Rightarrow> Block
     | msg # msgs \<Rightarrow>
         (let s' = s\<lparr>ch_eventCh := msgs\<rparr>;
              conn' = (if m_Type msg = GET_BYTECODE_REQUEST \<or> m_Type msg = ERROR
                then conn\<lparr>cc_err := res, cc_sent := (if res = SendOk then cc_sent conn @ [msg] else cc_sent conn)\<rparr>
                else conn)
          in if cc_err conn' = SendErr
             then go_bind (close_stopReceive conn') (\<lambda>c. Val (c\<lparr>cc_wg := cc_wg c - 1, dx_sendEnded := True\<rparr>, s'))
             else Val (conn', s')))"

section \<open>The service for the sandboxes\<close>

text \<open>
  One iteration of \<open>DockerVMCommunicate\<close>.  The stream's process is looked up once, in the original and
  then in the cross manager; it is named by its manager and its number.  Messages come from a pool,
  so that the test for a nil message never holds.
\<close>

record ('m, 'w) sandbox_conn =
  sc_process :: "(bool \<times> nat) option"
  sc_orig :: "('m, 'w) ProcessManager"
  sc_cross :: "('m, 'w) ProcessManager"

definition find_process ::
  "('m, 'w) pm_env \<Rightarrow> ('m, 'w) pm_env \<Rightarrow> DockerVMMessage \<Rightarrow> ('m, 'w) sandbox_conn \<Rightarrow> (bool \<times> nat) res go" where
  "find_process V W msg c = (case sc_process c of
       Some p \<Rightarrow> Val (Inr p)
     | None \<Rightarrow> (case m_CrossContext msg of
         None \<Rightarrow> Panic
       | Some cc \<Rightarrow> (case getProcessByName V (ProcessName cc) (sc_orig c) of
             Some pid \<Rightarrow> Val (Inr (True, pid))
           | None \<Rightarrow> (case getProcessByName W (ProcessName cc) (sc_cross c) of
                 Some pid \<Rightarrow> Val (Inr (False, pid))
               | None \<Rightarrow> Val (Inl ''failed to get process, <nil>'')))))"

definition upd_process ::
  "(Process \<Rightarrow> Process go) \<Rightarrow> bool \<times> nat \<Rightarrow> ('m, 'w) sandbox_conn \<Rightarrow> ('m, 'w) sandbox_conn go" where
  "upd_process f = (\<lambda>(orig, pid) c.
     let pm = (if orig then sc_orig c else sc_cross c)
     in case map_of (procs pm) pid of
          None \<Rightarrow> Val c
        | Some p \<Rightarrow> go_bind (f p) (\<lambda>p'.
            let pm' = pm\<lparr>procs := AList.update pid p' (procs pm)\<rparr>
            in Val (if orig then c\<lparr>sc_orig := pm'\<rparr> else c\<lparr>sc_cross := pm'\<rparr>)))"

definition sb_DockerVMCommunicate ::
  "('m, 'w) pm_env \<Rightarrow> ('m, 'w) pm_env \<Rightarrow> recv_input \<Rightarrow> error \<Rightarrow> ('m, 'w) sandbox_conn \<Rightarrow>
     (('m, 'w) sandbox_conn \<times> error option) go" where
  "sb_DockerVMCommunicate V W inp recvErr c = (case inp of
       RecvErr \<Rightarrow> Val (c, Some recvErr)
     | RecvMsg msg \<Rightarrow> go_bind (find_process V W msg c) (\<lambda>r. (case r of
           Inl err \<Rightarrow> Val (c, Some err)
         | Inr p \<Rightarrow>
             (let c = c\<lparr>sc_process := Some p\<rparr>
              in go_bind (if m_Type msg = REGISTER then upd_process (SetStream (v_cfg (if fst p then V else W))) p c
                          else upd_process (process_PutMsg msg) p c)
                   (\<lambda>c. Val (c, None))))))"

section \<open>The routines stop each other\<close>

text \<open>The routines of a connection once the engine is wired; the rest is as other goroutines left it.\<close>

definition chain_recv ::
  "slowConf \<Rightarrow> ChainRPCService \<times> RequestScheduler \<times> (nat \<Rightarrow> int) \<times> bool \<times> recv_input \<Rightarrow> communicateConn \<Rightarrow> communicateConn go" where
  "chain_recv sl = (\<lambda>(s, sched, clk, late, inp) conn.
     go_bind (ch_recvMsgRoutine sl (ch_SetScheduler s) clk late inp (conn, sched)) (\<lambda>(conn', sched'). Val conn'))"

definition chain_send :: "ChainRPCService \<times> bool \<times> send_result \<Rightarrow> communicateConn \<Rightarrow> communicateConn go" where
  "chain_send = (\<lambda>(s, take_stop, res) conn. go_bind (ch_sendMsgRoutine take_stop res (conn, s)) (\<lambda>(conn', s'). Val conn'))"

lemma rs_PutMsg_no_panic [simp]: "rs_PutMsg m s \<noteq> Panic"
  by (auto simp: rs_PutMsg_def split: rs_msg.splits)

lemma chain_recv_val: "chain_recv sl r conn = Val conn' \<Longrightarrow> recv_keeps (flags conn) (flags conn')"
  by (cases r) (auto simp: chain_recv_def ch_recvMsgRoutine_def routine_defs split: if_splits recv_input.splits)

lemma chain_recv_panic: "chain_recv sl r conn = Panic \<Longrightarrow> dx_stopSend (flags conn) \<and> \<not> dx_recvEnded (flags conn)"
  by (cases r) (auto simp: chain_recv_def ch_recvMsgRoutine_def routine_defs ch_SetScheduler_def go_bind_eq_Panic
    split: if_splits recv_input.splits)

lemma chain_send_val: "chain_send w conn = Val conn' \<Longrightarrow> send_keeps (flags conn) (flags conn')"
  by (cases w) (auto simp: chain_send_def ch_sendMsgRoutine_def routine_defs split: if_splits list.splits)

lemma chain_send_panic: "chain_send w conn = Panic \<Longrightarrow> dx_stopReceive (flags conn) \<and> \<not> dx_sendEnded (flags conn)"
  by (cases w) (auto simp: chain_send_def ch_sendMsgRoutine_def routine_defs go_bind_eq_Panic split: if_splits list.splits)

lemma chain_send_can_end:
  "dx_stopSend (flags conn) \<Longrightarrow> \<not> dx_sendEnded (flags conn) \<Longrightarrow> \<exists>w conn'. chain_send w conn = Val conn' \<and> dx_sendEnded (flags conn')"
  by (auto simp: chain_send_def ch_sendMsgRoutine_def flags_def intro!: exI[of _ True])

interpretation chain_conn: stream_routines flags "chain_recv sl" chain_send for sl
  by unfold_locales (rule chain_recv_val chain_send_val chain_recv_panic chain_send_panic chain_send_can_end; assumption)+

lemma new_conn_ok: "duplex_ok (flags ch_DockerVMCommunicate)"
  by (simp add: ch_DockerVMCommunicate_def duplex_ok_def flags_def)

text \<open>
  C8: The two routines of a stream stop each other safely: on the runtime's connection to the
  engine, on its streams of the sandboxes and on the engine's connection to the chain.  In every
  interleaving of a routine that receives and one that sends, whatever the stream reports and
  whatever other goroutines do to the shared channels, no stop channel is closed twice, so the
  process does not panic; and once the receiving routine has ended, the sending routine has ended or
  has a step with which it ends.
\<close>

theorem streams_stop_safely:
  "stops_safely flags client_recv (client_send sl) (NewContractEngineClient i) \<and>
   stops_safely flags (service_recv C) service_send (snd (DockerVMCommunicate s)) \<and>
   stops_safely flags (chain_recv sl') chain_send ch_DockerVMCommunicate"
  by (intro conjI engine_client.ok_stops_safely service.ok_stops_safely chain_conn.ok_stops_safely
    new_client_ok new_stream_ok new_conn_ok)

text \<open>
  A message received by the wired service is one the engine takes from the chain: the connection
  stays, and the scheduler gets the message, with a step entered in its log.
\<close>

lemma EnterNextStep_fields:
  "m_Type (EnterNextStep sl clk m st str) = m_Type m" "m_Request (EnterNextStep sl clk m st str) = m_Request m"
  "m_CrossContext (EnterNextStep sl clk m st str) = m_CrossContext m" "m_Response (EnterNextStep sl clk m st str) = m_Response m"
  by (simp_all add: EnterNextStep_def addTxStep_def endTxStep_def Let_def split: if_splits)

lemma chain_msg_enters_engine:
  assumes "chain_msg_ok m" "\<not> dx_recvEnded conn" "\<not> dx_stopReceive conn" "ch_scheduler s"
    and "ch_recvMsgRoutine sl s clk late (RecvMsg m) (conn, e_sched e) = Val (conn', sched')"
    and "eng_run K e P"
  shows "conn' = conn \<and> eng_run K (e\<lparr>e_sched := sched'\<rparr>) (P @ [EnterNextStep sl clk m ENGINE_GRPC_RECEIVE_TX_REQUEST ''''])"
proof -
  let ?m = "EnterNextStep sl clk m ENGINE_GRPC_RECEIVE_TX_REQUEST ''''"
  have ok: "chain_msg_ok ?m" using assms(1) by (simp add: chain_msg_ok_def tx_msg_ok_def EnterNextStep_fields)
  have "to_sched (RsVm ?m) e = Val (e\<lparr>e_sched := sched'\<rparr>)" "conn' = conn"
    using assms(1-5) by (auto simp: ch_recvMsgRoutine_def to_sched_def chain_msg_ok_def EnterNextStep_fields Let_def)
  then show ?thesis using er_chain[OF assms(6) ok] by simp
qed

end
