(* ===== verification/Pm_Invariant.thy ===== *)
theory Pm_Invariant
  imports Process_Manager
begin

text \<open>
  The invariant of the process manager and its preservation by every step of every goroutine:
  the caches never hold two processes of one name or one process under two names, names are
  never reused, cached names and contract keys agree with the process objects and with the
  process groups, the number of processes stays within the limit, and users are neither lost
  nor handed out twice.
\<close>

section \<open>What the operations do to the caches\<close>

definition idle_entries :: "('m, 'w) pm_env \<Rightarrow> ('m, 'w) ProcessManager \<Rightarrow> (string \<times> nat) list" where
  "idle_entries V pm = lhm_Entries (v_idle V) (idleProcesses pm)"

definition cached :: "('m, 'w) pm_env \<Rightarrow> ('m, 'w) ProcessManager \<Rightarrow> (string \<times> nat) list" where
  "cached V pm = idle_entries V pm @ busyProcesses pm"

definition groups_rel :: "('m, 'w) ProcessManager \<Rightarrow> (string \<times> string \<times> nat) set" where
  "groups_rel pm = {(k, nm, pid). \<exists>g. map_of (processGroups pm) k = Some g \<and> map_of g nm = Some pid}"

definition groups_ok :: "('m, 'w) ProcessManager \<Rightarrow> bool" where
  "groups_ok pm \<longleftrightarrow> gm_ok (processGroups pm) \<and>
     (\<forall>g\<in>snd ` set (processGroups pm). gm_ok g \<and> g \<noteq> [])"

text \<open>
  The fields the invariant is about; the operations on waiting groups and the responses to
  request groups leave all of them alone.
\<close>

lemma send_frame [simp]:
  "idleProcesses (fst (sendProcessReadyResp V n k pm)) = idleProcesses pm"
  "busyProcesses (fst (sendProcessReadyResp V n k pm)) = busyProcesses pm"
  "processGroups (fst (sendProcessReadyResp V n k pm)) = processGroups pm"
  "procs (fst (sendProcessReadyResp V n k pm)) = procs pm"
  "nextPid (fst (sendProcessReadyResp V n k pm)) = nextPid pm"
  "processCnt (fst (sendProcessReadyResp V n k pm)) = processCnt pm"
  "userManager (fst (sendProcessReadyResp V n k pm)) = userManager pm"
  "maxProcessNum (fst (sendProcessReadyResp V n k pm)) = maxProcessNum pm"
  "requestScheduler (fst (sendProcessReadyResp V n k pm)) = requestScheduler pm"
  "isOrigManager (fst (sendProcessReadyResp V n k pm)) = isOrigManager pm"
  by (simp_all add: sendProcessReadyResp_def)

lemma unwait_frame [simp]:
  "idleProcesses (removeFromWaitingGroup V k pm) = idleProcesses pm"
  "busyProcesses (removeFromWaitingGroup V k pm) = busyProcesses pm"
  "processGroups (removeFromWaitingGroup V k pm) = processGroups pm"
  "procs (removeFromWaitingGroup V k pm) = procs pm"
  "nextPid (removeFromWaitingGroup V k pm) = nextPid pm"
  "processCnt (removeFromWaitingGroup V k pm) = processCnt pm"
  "userManager (removeFromWaitingGroup V k pm) = userManager pm"
  "maxProcessNum (removeFromWaitingGroup V k pm) = maxProcessNum pm"
  "requestScheduler (removeFromWaitingGroup V k pm) = requestScheduler pm"
  "isOrigManager (removeFromWaitingGroup V k pm) = isOrigManager pm"
  by (simp_all add: removeFromWaitingGroup_def)

lemma ungroup_frame [simp]:
  "idleProcesses (removeFromProcessGroup V k nm pm) = idleProcesses pm"
  "busyProcesses (removeFromProcessGroup V k nm pm) = busyProcesses pm"
  "procs (removeFromProcessGroup V k nm pm) = procs pm"
  "nextPid (removeFromProcessGroup V k nm pm) = nextPid pm"
  "processCnt (removeFromProcessGroup V k nm pm) = processCnt pm"
  "userManager (removeFromProcessGroup V k nm pm) = userManager pm"
  "maxProcessNum (removeFromProcessGroup V k nm pm) = maxProcessNum pm"
  "requestScheduler (removeFromProcessGroup V k nm pm) = requestScheduler pm"
  "isOrigManager (removeFromProcessGroup V k nm pm) = isOrigManager pm"
  by (simp_all add: removeFromProcessGroup_def Let_def split: option.split)

lemma groups_rel_cong: "processGroups pm = processGroups pm' \<Longrightarrow> groups_rel pm = groups_rel pm'"
  by (simp add: groups_rel_def)

lemma groups_ok_lookup: "groups_ok pm \<Longrightarrow> map_of (processGroups pm) k = Some g \<Longrightarrow> gm_ok g \<and> g \<noteq> []"
  by (force simp: groups_ok_def dest: map_of_SomeD)

lemma groups_rel_add:
  "groups_rel (addToProcessGroup pid k nm pm) =
     (groups_rel pm - {(key_str k, nm, x) |x. True}) \<union> {(key_str k, nm, pid)}"
  by (auto simp: groups_rel_def addToProcessGroup_def Let_def update_conv' split: if_splits option.splits)

lemma groups_ok_add: "groups_ok pm \<Longrightarrow> groups_ok (addToProcessGroup pid k nm pm)"
proof -
  assume ok: "groups_ok pm"
  let ?g = "case map_of (processGroups pm) (key_str k) of Some g \<Rightarrow> g | None \<Rightarrow> []"
  have g: "gm_ok ?g" using groups_ok_lookup[OF ok] by (auto split: option.split)
  have "set (AList.update kk x m) \<subseteq> insert (kk, x) (set m)" for kk :: string and x and m :: "(string, (string, nat) gomap) gomap"
    by (induction m) auto
  then show ?thesis
    using ok g by (fastforce simp: groups_ok_def addToProcessGroup_def Let_def)
qed

lemma groups_rel_remove:
  assumes "groups_ok pm"
  shows "groups_rel (removeFromProcessGroup V k nm pm) = groups_rel pm - {(key_str k, nm, x) |x. True}"
proof (cases "map_of (processGroups pm) (key_str k)")
  case None
  then show ?thesis by (auto simp: groups_rel_def removeFromProcessGroup_def)
next
  case (Some g)
  show ?thesis
  proof (cases "AList.delete nm g = []")
    case True
    then have "map_of g x = None" if "x \<noteq> nm" for x
      using that delete_conv[of nm g] by (metis map_of_eq_None_iff fun_upd_other map_of.simps(1))
    with Some True show ?thesis
      by (auto simp: groups_rel_def removeFromProcessGroup_def Let_def AList.delete_conv split: if_splits)
  next
    case False
    with Some show ?thesis
      by (auto simp: groups_rel_def removeFromProcessGroup_def Let_def AList.delete_conv update_conv'
          split: if_splits)
  qed
qed

lemma groups_ok_remove: "groups_ok pm \<Longrightarrow> groups_ok (removeFromProcessGroup V k nm pm)"
proof -
  assume ok: "groups_ok pm"
  have sub: "set (AList.update kk x m) \<subseteq> insert (kk, x) (set m)" for kk :: string and x and m :: "(string, (string, nat) gomap) gomap"
    by (induction m) auto
  show ?thesis
    using ok groups_ok_lookup[OF ok] sub
    by (fastforce simp: groups_ok_def removeFromProcessGroup_def Let_def split: option.split)
qed

section \<open>The invariant\<close>

text \<open>Names are fresh because they end in the counter, which only grows.\<close>

definition name_below :: "nat \<Rightarrow> string \<Rightarrow> bool" where
  "name_below n nm \<longleftrightarrow> (\<exists>a b c i w isOrig. nm = ConstructProcessName a b c i w isOrig \<and> unat w \<le> n)"

definition uniq :: "'a multiset \<Rightarrow> bool" where
  "uniq M \<longleftrightarrow> (\<forall>x. count M x \<le> 1)"

fun resv :: "gor \<Rightarrow> string multiset" where
  "resv (CrNamed k n) = {#n#}" | "resv (CrMade k n p) = {#n#}"
| "resv (ChNamed k p ok on n) = {#n#}" | "resv (ChChanged k p ok on n) = {#n#}"
| "resv (AiNamed k p ok on n) = {#n#}" | "resv (AiChanged k p ok on n) = {#n#}"
| "resv (AiSent k p ok on n) = {#n#}"
| "resv (AnNamed k n) = {#n#}" | "resv (AnMade k n p) = {#n#}"
| "resv _ = {#}"

fun made :: "gor \<Rightarrow> nat multiset" where
  "made (CrMade k n p) = {#p#}" | "made (AnMade k n p) = {#p#}" | "made _ = {#}"

fun target :: "gor \<Rightarrow> nat multiset" where
  "target (ChStart k p) = {#p#}" | "target (ChNamed k p ok on n) = {#p#}"
| "target (ChChanged k p ok on n) = {#p#}" | "target (ClStart p) = {#p#}" | "target (ClClosed p) = {#p#}"
| "target (AiStart k p) = {#p#}" | "target (AiNamed k p ok on n) = {#p#}"
| "target (AiChanged k p ok on n) = {#p#}" | "target (AiSent k p ok on n) = {#p#}"
| "target _ = {#}"

fun creating :: "gor \<Rightarrow> nat" where
  "creating (CrStart k) = 1" | "creating (CrNamed k n) = 1" | "creating (CrMade k n p) = 1"
| "creating (AnStart k) = 1" | "creating (AnSent k) = 1" | "creating (AnNamed k n) = 1"
| "creating (AnMade k n p) = 1" | "creating _ = 0"

fun wants_user :: "gor \<Rightarrow> nat" where
  "wants_user (CrStart k) = 1" | "wants_user (CrNamed k n) = 1" | "wants_user (AnStart k) = 1"
| "wants_user (AnSent k) = 1" | "wants_user (AnNamed k n) = 1" | "wants_user _ = 0"

fun naming :: "gor \<Rightarrow> nat" where
  "naming (CrStart k) = 1" | "naming (ChStart k p) = 1" | "naming (AiStart k p) = 1"
| "naming (AnStart k) = 1" | "naming (AnSent k) = 1" | "naming _ = 0"

fun moved :: "gor \<Rightarrow> nat multiset" where
  "moved (ChChanged k p ok on n) = {#p#}" | "moved (AiChanged k p ok on n) = {#p#}"
| "moved (AiSent k p ok on n) = {#p#}" | "moved _ = {#}"

fun gor_keys :: "gor \<Rightarrow> RequestGroupKey set" where
  "gor_keys (CrStart k) = {k}" | "gor_keys (CrNamed k n) = {k}" | "gor_keys (CrMade k n p) = {k}"
| "gor_keys (ChStart k p) = {k}" | "gor_keys (ChNamed k p ok on n) = {k}"
| "gor_keys (ChChanged k p ok on n) = {k}" | "gor_keys (ClStart p) = {}" | "gor_keys (ClClosed p) = {}"
| "gor_keys (AiStart k p) = {k}" | "gor_keys (AiSame k) = {k}" | "gor_keys (AiNamed k p ok on n) = {k}"
| "gor_keys (AiChanged k p ok on n) = {k}" | "gor_keys (AiSent k p ok on n) = {k}"
| "gor_keys (AnStart k) = {k}" | "gor_keys (AnSent k) = {k}" | "gor_keys (AnNamed k n) = {k}"
| "gor_keys (AnMade k n p) = {k}" | "gor_keys GDone = {}"

text \<open>What a goroutine knows about its process at each program point.\<close>

definition proc_is :: "('m, 'w) ProcessManager \<Rightarrow> nat \<Rightarrow> RequestGroupKey \<Rightarrow> string \<Rightarrow> bool" where
  "proc_is pm pid k nm \<longleftrightarrow> (\<exists>p. map_of (procs pm) pid = Some p \<and> proc_key p = k \<and> p_processName p = nm)"

definition swap_ready ::
  "('m, 'w) pm_env \<Rightarrow> ('m, 'w) ProcessManager \<Rightarrow> RequestGroupKey \<Rightarrow> nat \<Rightarrow> RequestGroupKey \<Rightarrow> string \<Rightarrow> string \<Rightarrow> bool" where
  "swap_ready V pm k pid ok on nm \<longleftrightarrow> (on, pid) \<in> set (idle_entries V pm) \<and>
     (key_str ok, on, pid) \<in> groups_rel pm \<and> proc_is pm pid k nm"

fun gor_ok :: "('m, 'w) pm_env \<Rightarrow> ('m, 'w) ProcessManager \<Rightarrow> gor \<Rightarrow> bool" where
  "gor_ok V pm (CrMade k nm pid) = proc_is pm pid k nm"
| "gor_ok V pm (AnMade k nm pid) = proc_is pm pid k nm"
| "gor_ok V pm (ChNamed k pid ok on nm) = proc_is pm pid ok on"
| "gor_ok V pm (AiNamed k pid ok on nm) = proc_is pm pid ok on"
| "gor_ok V pm (ChChanged k pid ok on nm) = swap_ready V pm k pid ok on nm"
| "gor_ok V pm (AiChanged k pid ok on nm) = swap_ready V pm k pid ok on nm"
| "gor_ok V pm (AiSent k pid ok on nm) = swap_ready V pm k pid ok on nm"
| "gor_ok V pm _ = True"

abbreviation msum :: "(gor \<Rightarrow> 'a::comm_monoid_add) \<Rightarrow> gor multiset \<Rightarrow> 'a" where
  "msum f G \<equiv> sum_mset (image_mset f G)"

definition names_of :: "('m, 'w) pm_env \<Rightarrow> ('m, 'w) ProcessManager \<Rightarrow> gor multiset \<Rightarrow> string multiset" where
  "names_of V pm G = mset (map fst (cached V pm)) + msum resv G"

definition pids_of :: "('m, 'w) pm_env \<Rightarrow> ('m, 'w) ProcessManager \<Rightarrow> gor multiset \<Rightarrow> nat multiset" where
  "pids_of V pm G = mset (map snd (cached V pm)) + msum made G"

definition synced :: "('m, 'w) ProcessManager \<Rightarrow> string \<Rightarrow> nat \<Rightarrow> bool" where
  "synced pm nm pid \<longleftrightarrow> (\<exists>p. map_of (procs pm) pid = Some p \<and> p_processName p = nm \<and>
     (key_str (proc_key p), nm, pid) \<in> groups_rel pm)"

text \<open>Names, addresses and groups.\<close>

definition caches_ok :: "('m, 'w) pm_env \<Rightarrow> ('m, 'w) ProcessManager \<Rightarrow> gor multiset \<Rightarrow> bool" where
  "caches_ok V pm G \<longleftrightarrow>
     uniq (names_of V pm G) \<and> (\<forall>nm\<in>#names_of V pm G. name_below (unat (processCnt pm)) nm) \<and>
     uniq (pids_of V pm G) \<and> (\<forall>pid\<in>#pids_of V pm G. map_of (procs pm) pid \<noteq> None) \<and>
     (\<forall>pid p. map_of (procs pm) pid = Some p \<longrightarrow> pid < nextPid pm \<and> proc_inv p) \<and>
     uniq (msum target G) \<and> (\<forall>pid\<in>#msum target G. pid \<in> snd ` set (idle_entries V pm)) \<and>
     (\<forall>(nm, pid)\<in>set (cached V pm). pid \<notin># msum moved G \<longrightarrow> synced pm nm pid) \<and>
     (\<forall>g\<in>#G. gor_ok V pm g) \<and> groups_ok pm \<and>
     (\<forall>k nm pid. (k, nm, pid) \<in> groups_rel pm \<longrightarrow> (nm, pid) \<in> set (cached V pm)) \<and>
     (\<forall>k k' nm pid pid'. (k, nm, pid) \<in> groups_rel pm \<longrightarrow> (k', nm, pid') \<in> groups_rel pm \<longrightarrow> k = k')"

text \<open>Capacities: of the manager, of the pool of users, and of the name counter.\<close>

definition user_of :: "('m, 'w) ProcessManager \<Rightarrow> nat \<Rightarrow> User" where
  "user_of pm pid = p_user (the (map_of (procs pm) pid))"

definition all_users :: "('m, 'w) pm_env \<Rightarrow> ('m, 'w) ProcessManager \<Rightarrow> gor multiset \<Rightarrow> User multiset" where
  "all_users V pm G = mset (queue (userQueue (userManager pm))) + image_mset (user_of pm) (pids_of V pm G)"

definition bounds_ok :: "('m, 'w) pm_env \<Rightarrow> ('m, 'w) ProcessManager \<Rightarrow> gor multiset \<Rightarrow> bool" where
  "bounds_ok V pm G \<longleftrightarrow>
     int (length (cached V pm)) + int (msum creating G) \<le> maxProcessNum pm \<and>
     waitForNextElementChan (userQueue (userManager pm)) = [] \<and>
     msum wants_user G \<le> length (queue (userQueue (userManager pm))) \<and>
     unat (processCnt pm) + msum naming G < 2 ^ 64 \<and>
     size (all_users V pm G) \<le> capacity (userQueue (userManager pm))"

text \<open>Waiting groups, and those the goroutines work for, are known to the scheduler.\<close>

definition waiting_keys :: "('m, 'w) pm_env \<Rightarrow> ('m, 'w) ProcessManager \<Rightarrow> RequestGroupKey set" where
  "waiting_keys V pm = fst ` set (lhm_Entries (v_wait V) (waitingRequestGroups pm))"

definition known_groups :: "('m, 'w) pm_env \<Rightarrow> ('m, 'w) ProcessManager \<Rightarrow> gor multiset \<Rightarrow> bool" where
  "known_groups V pm G \<longleftrightarrow> (\<forall>k\<in>waiting_keys V pm \<union> (\<Union>g\<in>set_mset G. gor_keys g). v_hasGroup V k)"

definition pool_inv :: "('m, 'w) pm_env \<Rightarrow> ('m, 'w) ProcessManager \<Rightarrow> gor multiset \<Rightarrow> bool" where
  "pool_inv V pm G \<longleftrightarrow> caches_ok V pm G \<and> bounds_ok V pm G \<and> known_groups V pm G \<and> requestScheduler pm"

text \<open>Between two handlers no goroutine is left.\<close>

abbreviation pm_inv :: "('m, 'w) pm_env \<Rightarrow> ('m, 'w) ProcessManager \<Rightarrow> bool" where
  "pm_inv V pm \<equiv> pool_inv V pm {#}"

section \<open>Preservation by the steps of the goroutines\<close>

lemma uniq_simps [simp]:
  "uniq {#}" "uniq (add_mset x M) \<longleftrightarrow> x \<notin># M \<and> uniq M"
proof -
  show "uniq (add_mset x M) \<longleftrightarrow> x \<notin># M \<and> uniq M"
  proof
    assume u: "uniq (add_mset x M)"
    have "count M y \<le> 1" for y
      using u[unfolded uniq_def, rule_format, of y] by (simp split: if_splits)
    moreover have "count M x = 0" using u[unfolded uniq_def, rule_format, of x] by simp
    ultimately show "x \<notin># M \<and> uniq M" by (simp add: uniq_def not_in_iff)
  next
    assume "x \<notin># M \<and> uniq M"
    then show "uniq (add_mset x M)" by (simp add: uniq_def not_in_iff)
  qed
qed (simp add: uniq_def)

lemma uniq_mono: "uniq M \<Longrightarrow> N \<subseteq># M \<Longrightarrow> uniq N"
  by (meson le_trans mset_subset_eq_count uniq_def)

lemma name_below_mono: "name_below n nm \<Longrightarrow> n \<le> m \<Longrightarrow> name_below m nm"
  unfolding name_below_def using le_trans by blast

lemma new_name:
  assumes "unat c + 1 < 2 ^ 64"
  shows "name_below (unat (c + 1)) (ConstructProcessName a b v i (c + 1) orig)"
    and "\<not> name_below (unat c) (ConstructProcessName a b v i (c + 1) orig)"
proof -
  have "unat (c + 1) = unat c + 1" using assms by (simp add: unat_word_ariths)
  then show "\<not> name_below (unat c) (ConstructProcessName a b v i (c + 1) orig)"
    unfolding name_below_def by (auto dest: process_name_index)
  show "name_below (unat (c + 1)) (ConstructProcessName a b v i (c + 1) orig)"
    unfolding name_below_def by blast
qed

text \<open>The invariant only looks at these fields.\<close>

lemma pool_inv_cong:
  assumes "idle_entries V pm' = idle_entries V pm" "busyProcesses pm' = busyProcesses pm"
    "processGroups pm' = processGroups pm" "procs pm' = procs pm" "nextPid pm' = nextPid pm"
    "processCnt pm' = processCnt pm" "userManager pm' = userManager pm"
    "maxProcessNum pm' = maxProcessNum pm" "requestScheduler pm' = requestScheduler pm"
    "waiting_keys V pm' \<subseteq> waiting_keys V pm \<union> {k. v_hasGroup V k}" "pool_inv V pm G"
  shows "pool_inv V pm' G" and "all_users V pm' G = all_users V pm G"
proof -
  have g: "groups_rel pm' = groups_rel pm" by (rule groups_rel_cong[OF assms(3)])
  have same [simp]: "proc_is pm' = proc_is pm" "user_of pm' = user_of pm" "synced pm' = synced pm"
    "cached V pm' = cached V pm" "groups_ok pm' = groups_ok pm"
    using assms g by (auto simp: proc_is_def user_of_def synced_def cached_def groups_ok_def fun_eq_iff)
  have ok: "gor_ok V pm' g = gor_ok V pm g" for g
    by (cases g) (simp_all add: swap_ready_def g assms(1))
  show users: "all_users V pm' G = all_users V pm G"
    using assms(7) by (simp add: all_users_def pids_of_def)
  have "caches_ok V pm' G = caches_ok V pm G"
    by (simp only: caches_ok_def ok g names_of_def pids_of_def assms(1-9) same)
  moreover have "bounds_ok V pm' G = bounds_ok V pm G"
    by (simp only: bounds_ok_def users assms(1-9) same)
  moreover have "known_groups V pm G \<Longrightarrow> known_groups V pm' G"
    using assms(10) by (auto simp: known_groups_def)
  ultimately show "pool_inv V pm' G"
    using assms(9,11) by (simp add: pool_inv_def)
qed

lemma cnt_frame [simp]:
  "idle_entries V (pm\<lparr>processCnt := c\<rparr>) = idle_entries V pm"
  "cached V (pm\<lparr>processCnt := c\<rparr>) = cached V pm"
  "groups_rel (pm\<lparr>processCnt := c\<rparr>) = groups_rel pm"
  "groups_ok (pm\<lparr>processCnt := c\<rparr>) = groups_ok pm"
  "proc_is (pm\<lparr>processCnt := c\<rparr>) = proc_is pm"
  "user_of (pm\<lparr>processCnt := c\<rparr>) = user_of pm"
  "synced (pm\<lparr>processCnt := c\<rparr>) = synced pm"
  "waiting_keys V (pm\<lparr>processCnt := c\<rparr>) = waiting_keys V pm"
  by (simp_all add: idle_entries_def cached_def groups_rel_def groups_ok_def proc_is_def[abs_def]
      user_of_def[abs_def] synced_def[abs_def] waiting_keys_def)

lemma gor_ok_cnt [simp]: "gor_ok V (pm\<lparr>processCnt := c\<rparr>) g = gor_ok V pm g"
  by (cases g) (simp_all add: swap_ready_def)

lemma name_step:
  assumes inv: "pool_inv V pm (add_mset g R)" and gen: "generateProcessName k pm = (pm', nm)"
    and g: "naming g = 1" "resv g = {#}"
    and g': "resv g' = {#nm#}" "made g' = made g" "target g' = target g" "creating g' = creating g"
      "wants_user g' = wants_user g" "naming g' = 0" "moved g' = moved g" "gor_keys g' = gor_keys g"
      "gor_ok V pm g'"
  shows "pool_inv V pm' (add_mset g' R) \<and>
    all_users V pm' (add_mset g' R) = all_users V pm (add_mset g R)"
proof -
  have pm': "pm' = pm\<lparr>processCnt := processCnt pm + 1\<rparr>"
    using gen by (auto simp: generateProcessName_def Let_def)
  obtain i where nm: "nm = ConstructProcessName (rgk_ChainID k) (rgk_ContractName k)
      (rgk_ContractVersion k) i (processCnt pm + 1) (isOrigManager pm)"
    using gen by (auto simp: generateProcessName_def Let_def)
  have lim: "unat (processCnt pm) + msum naming R + 1 < 2 ^ 64"
    using inv g by (simp add: pool_inv_def bounds_ok_def)
  then have cnt: "unat (processCnt pm + 1) = unat (processCnt pm) + 1" by (simp add: unat_word_ariths)
  have lim1: "unat (processCnt pm) + 1 < 2 ^ 64" using lim by linarith
  note new = new_name[OF lim1, of "rgk_ChainID k" "rgk_ContractName k" "rgk_ContractVersion k"
      i "isOrigManager pm", folded nm]
  have names: "names_of V pm' (add_mset g' R) = add_mset nm (names_of V pm (add_mset g R))"
    using g g' by (simp add: names_of_def pm')
  have below: "\<forall>x\<in>#names_of V pm (add_mset g R). name_below (unat (processCnt pm)) x"
    using inv by (simp add: pool_inv_def caches_ok_def)
  then have "nm \<notin># names_of V pm (add_mset g R)" using new(2) by blast
  moreover have "name_below (unat (processCnt pm')) x" if "name_below (unat (processCnt pm)) x" for x
    using that by (rule name_below_mono) (simp add: pm' cnt)
  with below new(1) have "\<forall>x\<in>#names_of V pm' (add_mset g' R). name_below (unat (processCnt pm')) x"
    unfolding names by (simp add: pm')
  moreover have pids: "pids_of V pm' (add_mset g' R) = pids_of V pm (add_mset g R)"
    using g' by (simp add: pids_of_def pm')
  moreover have users: "all_users V pm' (add_mset g' R) = all_users V pm (add_mset g R)"
    using pids by (simp add: all_users_def pm')
  ultimately have "caches_ok V pm' (add_mset g' R)"
    using inv g g' names by (simp add: pool_inv_def caches_ok_def pm')
  moreover have "bounds_ok V pm' (add_mset g' R)"
    using inv g g' lim cnt users by (simp add: pool_inv_def bounds_ok_def pm')
  moreover have "known_groups V pm' (add_mset g' R)"
    using inv g' by (simp add: pool_inv_def known_groups_def pm')
  ultimately show ?thesis using inv users by (simp add: pool_inv_def pm')
qed


text \<open>
  A goroutine only looks at the processes it created or took as its target, at their idle
  entries and at their groups.
\<close>

lemma gor_ok_frame:
  assumes "gor_ok V pm g"
    and "\<And>pid. pid \<in># made g + target g \<Longrightarrow> map_of (procs pm') pid = map_of (procs pm) pid"
    and "\<And>nm pid. pid \<in># target g \<Longrightarrow> (nm, pid) \<in> set (idle_entries V pm) \<Longrightarrow> (nm, pid) \<in> set (idle_entries V pm')"
    and "\<And>k nm pid. pid \<in># target g \<Longrightarrow> (k, nm, pid) \<in> groups_rel pm \<Longrightarrow> (k, nm, pid) \<in> groups_rel pm'"
  shows "gor_ok V pm' g"
  using assms by (cases g) (simp_all add: swap_ready_def proc_is_def)

lemma in_msum: "g \<in># G \<Longrightarrow> x \<in># f g \<Longrightarrow> x \<in># msum f G"
  by auto

lemma moved_target: "moved g \<subseteq># target g"
  by (cases g) simp_all

lemma moved_in_target: "pid \<in># msum moved G \<Longrightarrow> pid \<in># msum target G"
  using moved_target by (fastforce dest: mset_subset_eqD)

lemma groups_rel_upd [simp]:
  "groups_rel (pm\<lparr>procs := x\<rparr>) = groups_rel pm" "groups_rel (pm\<lparr>nextPid := n\<rparr>) = groups_rel pm"
  "groups_rel (pm\<lparr>userManager := u\<rparr>) = groups_rel pm" "groups_rel (pm\<lparr>busyProcesses := b\<rparr>) = groups_rel pm"
  "groups_rel (pm\<lparr>idleProcesses := i\<rparr>) = groups_rel pm"
  "groups_ok (pm\<lparr>procs := x\<rparr>) = groups_ok pm" "groups_ok (pm\<lparr>nextPid := n\<rparr>) = groups_ok pm"
  "groups_ok (pm\<lparr>userManager := u\<rparr>) = groups_ok pm" "groups_ok (pm\<lparr>busyProcesses := b\<rparr>) = groups_ok pm"
  "groups_ok (pm\<lparr>idleProcesses := i\<rparr>) = groups_ok pm"
  by (simp_all add: groups_rel_def groups_ok_def)

lemma cache_upd [simp]:
  "idle_entries V (pm\<lparr>procs := x\<rparr>) = idle_entries V pm" "idle_entries V (pm\<lparr>nextPid := n\<rparr>) = idle_entries V pm"
  "idle_entries V (pm\<lparr>userManager := u\<rparr>) = idle_entries V pm"
  "idle_entries V (pm\<lparr>busyProcesses := b\<rparr>) = idle_entries V pm"
  "cached V (pm\<lparr>procs := x\<rparr>) = cached V pm" "cached V (pm\<lparr>nextPid := n\<rparr>) = cached V pm"
  "cached V (pm\<lparr>userManager := u\<rparr>) = cached V pm"
  "waiting_keys V (pm\<lparr>procs := x\<rparr>) = waiting_keys V pm" "waiting_keys V (pm\<lparr>nextPid := n\<rparr>) = waiting_keys V pm"
  "waiting_keys V (pm\<lparr>userManager := u\<rparr>) = waiting_keys V pm"
  "waiting_keys V (pm\<lparr>busyProcesses := b\<rparr>) = waiting_keys V pm"
  "waiting_keys V (pm\<lparr>idleProcesses := i\<rparr>) = waiting_keys V pm"
  "waiting_keys V (pm\<lparr>processGroups := gs\<rparr>) = waiting_keys V pm"
  by (simp_all add: idle_entries_def cached_def waiting_keys_def)


text \<open>The parts of the invariant under names of their own.\<close>

lemma invD:
  assumes "pool_inv V pm G"
  shows inv_names: "uniq (names_of V pm G)"
    and inv_below: "\<forall>nm\<in>#names_of V pm G. name_below (unat (processCnt pm)) nm"
    and inv_pids: "uniq (pids_of V pm G)"
    and inv_live: "\<forall>pid\<in>#pids_of V pm G. map_of (procs pm) pid \<noteq> None"
    and inv_procs: "\<forall>pid p. map_of (procs pm) pid = Some p \<longrightarrow> pid < nextPid pm \<and> proc_inv p"
    and inv_targets: "uniq (msum target G)"
    and inv_idle: "\<forall>pid\<in>#msum target G. pid \<in> snd ` set (idle_entries V pm)"
    and inv_synced: "\<forall>(nm, pid)\<in>set (cached V pm). pid \<notin># msum moved G \<longrightarrow> synced pm nm pid"
    and inv_gors: "\<forall>g\<in>#G. gor_ok V pm g"
    and inv_groups: "groups_ok pm"
    and inv_grouped: "\<forall>k nm pid. (k, nm, pid) \<in> groups_rel pm \<longrightarrow> (nm, pid) \<in> set (cached V pm)"
    and inv_one_group: "\<forall>k k' nm pid pid'. (k, nm, pid) \<in> groups_rel pm \<longrightarrow> (k', nm, pid') \<in> groups_rel pm \<longrightarrow> k = k'"
    and inv_bounds: "bounds_ok V pm G" and inv_known: "known_groups V pm G"
    and inv_sched: "requestScheduler pm"
  using assms unfolding pool_inv_def caches_ok_def by argo+

lemma inv_gor_pid:
  assumes "pool_inv V pm G" "g \<in># G" "pid \<in># made g + target g"
  shows "pid \<in># pids_of V pm G"
proof (cases "pid \<in># made g")
  case True
  then show ?thesis using assms(2) in_msum[of g G pid made] by (simp add: pids_of_def)
next
  case False
  then have "pid \<in># msum target G" using assms(2,3) in_msum[of g G pid target] by simp
  then show ?thesis using inv_idle[OF assms(1)] by (auto simp: pids_of_def cached_def)
qed

lemma wanted_user:
  assumes "pool_inv V pm (add_mset g R)" "wants_user g = 1"
  obtains u q where "queue (userQueue (userManager pm)) = u # q"
    "GetAvailableUser t (userManager pm) =
       ((userManager pm)\<lparr>userQueue := (userQueue (userManager pm))\<lparr>queue := q\<rparr>\<rparr>, Val (Inr u))"
proof (cases "queue (userQueue (userManager pm))")
  case Nil
  then show ?thesis using assms by (simp add: pool_inv_def bounds_ok_def)
next
  case (Cons u q)
  then show ?thesis
    using that by (simp add: GetAvailableUser_def DequeueOrWaitForNextElement_def Let_def)
qed

text \<open>
  A goroutine \<open>g\<close> with a reserved name and a user waiting for it makes the process \<open>pid\<close> and goes on
  as \<open>g'\<close>; \<open>add_proc\<close> is what this does to the manager.
\<close>

definition creates :: "('m, 'w) pm_env \<Rightarrow> RequestGroupKey \<Rightarrow> string \<Rightarrow> gor \<Rightarrow> gor \<Rightarrow> nat \<Rightarrow> bool" where
  "creates V k nm g g' pid \<longleftrightarrow>
     (resv g = {#nm#} \<and> made g = {#} \<and> target g = {#} \<and> creating g = 1 \<and> wants_user g = 1 \<and>
      naming g = 0 \<and> moved g = {#} \<and> gor_keys g = {k}) \<and>
     (resv g' = {#nm#} \<and> made g' = {#pid#} \<and> target g' = {#} \<and> creating g' = 1 \<and> wants_user g' = 0 \<and>
      naming g' = 0 \<and> moved g' = {#} \<and> gor_keys g' = {k}) \<and>
     (\<forall>pm. gor_ok V pm g' = proc_is pm pid k nm)"

definition add_proc :: "User list \<Rightarrow> Process \<Rightarrow> ('m, 'w) ProcessManager \<Rightarrow> ('m, 'w) ProcessManager" where
  "add_proc q p pm = pm\<lparr>userManager := (userManager pm)\<lparr>userQueue := (userQueue (userManager pm))\<lparr>queue := q\<rparr>\<rparr>,
     procs := AList.update (nextPid pm) p (procs pm), nextPid := nextPid pm + 1\<rparr>"

lemma add_proc_simps [simp]:
  "map_of (procs (add_proc q p pm)) pid = (if pid = nextPid pm then Some p else map_of (procs pm) pid)"
  "idle_entries V (add_proc q p pm) = idle_entries V pm" "cached V (add_proc q p pm) = cached V pm"
  "groups_rel (add_proc q p pm) = groups_rel pm" "groups_ok (add_proc q p pm) = groups_ok pm"
  "waiting_keys V (add_proc q p pm) = waiting_keys V pm" "processCnt (add_proc q p pm) = processCnt pm"
  "nextPid (add_proc q p pm) = nextPid pm + 1" "maxProcessNum (add_proc q p pm) = maxProcessNum pm"
  "requestScheduler (add_proc q p pm) = requestScheduler pm"
  by (simp_all add: add_proc_def update_conv')

lemma next_pid_fresh: "pool_inv V pm R \<Longrightarrow> nextPid pm \<notin># pids_of V pm R"
  using inv_live inv_procs by blast

lemma creates_frame:
  assumes "creates V k nm g g' (nextPid pm)"
  shows "names_of V (add_proc q p pm) (add_mset g' R) = names_of V pm (add_mset g R)"
    and "pids_of V (add_proc q p pm) (add_mset g' R) = add_mset (nextPid pm) (pids_of V pm (add_mset g R))"
  using assms by (simp_all add: creates_def names_of_def pids_of_def)

lemma creates_users:
  assumes "pool_inv V pm (add_mset g R)" "creates V k nm g g' (nextPid pm)"
    and "queue (userQueue (userManager pm)) = p_user p # q"
  shows "all_users V (add_proc q p pm) (add_mset g' R) = all_users V pm (add_mset g R)"
proof -
  have "image_mset (user_of (add_proc q p pm)) (pids_of V pm (add_mset g R)) = image_mset (user_of pm) (pids_of V pm (add_mset g R))"
    using next_pid_fresh[OF assms(1)] by (intro image_mset_cong) (auto simp: user_of_def)
  moreover have "user_of (add_proc q p pm) (nextPid pm) = p_user p" by (simp add: user_of_def)
  ultimately show ?thesis
    using assms(3) creates_frame(2)[OF assms(2)] by (simp add: all_users_def) (simp add: add_proc_def)
qed

lemma creates_gors:
  assumes "pool_inv V pm (add_mset g R)" "creates V k nm g g' (nextPid pm)" "proc_key p = k" "p_processName p = nm"
  shows "\<forall>g\<in>#add_mset g' R. gor_ok V (add_proc q p pm) g"
proof -
  have "gor_ok V (add_proc q p pm) g1" if "g1 \<in># R" for g1
  proof (rule gor_ok_frame)
    show "gor_ok V pm g1" using inv_gors[OF assms(1)] that by simp
    fix pid assume "pid \<in># made g1 + target g1"
    then have "pid \<in># pids_of V pm (add_mset g R)" using inv_gor_pid[OF assms(1), of g1] that by simp
    then have "pid \<noteq> nextPid pm" using next_pid_fresh[OF assms(1)] by metis
    then show "map_of (procs (add_proc q p pm)) pid = map_of (procs pm) pid" by simp
  qed simp_all
  moreover have "gor_ok V (add_proc q p pm) g'" using assms(2-4) by (simp add: creates_def proc_is_def)
  ultimately show ?thesis by simp
qed

lemma creates_caches:
  assumes inv: "pool_inv V pm (add_mset g R)" and c: "creates V k nm g g' (nextPid pm)"
    and p: "proc_inv p" "proc_key p = k" "p_processName p = nm"
  shows "caches_ok V (add_proc q p pm) (add_mset g' R)"
proof -
  let ?pm = "add_proc q p pm"
  note [simp] = creates_frame[OF c]
  have "synced ?pm nm1 pid" if "synced pm nm1 pid" for nm1 pid
    using that inv_procs[OF inv] by (auto simp: synced_def)
  then have synced: "\<forall>(nm, pid)\<in>set (cached V ?pm). pid \<notin># msum moved (add_mset g' R) \<longrightarrow> synced ?pm nm pid"
    using inv_synced[OF inv] c by (auto simp: creates_def)
  have "\<forall>pid\<in>#pids_of V ?pm (add_mset g' R). map_of (procs ?pm) pid \<noteq> None" using inv_live[OF inv] by simp
  moreover have "\<forall>pid p. map_of (procs ?pm) pid = Some p \<longrightarrow> pid < nextPid ?pm \<and> proc_inv p"
    using inv_procs[OF inv] p by (simp add: less_SucI)
  moreover have "uniq (pids_of V ?pm (add_mset g' R))" using inv_pids[OF inv] next_pid_fresh[OF inv] by simp
  ultimately show ?thesis
    unfolding caches_ok_def using invD[OF inv] creates_gors[OF inv c p(2,3)] synced c by (simp add: creates_def)
qed

lemma create_step:
  assumes inv: "pool_inv V pm (add_mset g R)" and c: "\<And>pid. creates V k nm g (f pid) pid"
  shows "\<exists>pm' pid. createNewProcess V k nm pm = Val (pm', Inr pid) \<and>
    pool_inv V pm' (add_mset (f pid) R) \<and>
    all_users V pm' (add_mset (f pid) R) = all_users V pm (add_mset g R)"
proof -
  let ?n = "nextPid pm"
  have g: "wants_user g = 1" "gor_keys g = {k}" using c[of ?n] by (simp_all add: creates_def)
  obtain u q where u: "queue (userQueue (userManager pm)) = u # q"
    "GetAvailableUser (v_thread V) (userManager pm) =
       ((userManager pm)\<lparr>userQueue := (userQueue (userManager pm))\<lparr>queue := q\<rparr>\<rparr>, Val (Inr u))"
    using wanted_user[OF inv g(1)] by blast
  have k: "v_hasGroup V k" using inv_known[OF inv] g(2) by (simp add: known_groups_def)
  obtain p where new: "NewProcess (v_hasGroup V k) u (rgk_ChainID k) (rgk_ContractName k)
      (rgk_ContractVersion k) nm (isOrigManager pm) = Val p" and p: "proc_inv p" "p_user p = u"
      "proc_key p = k" "p_processName p = nm"
    using k NewProcess_inv by (simp add: NewProcess_def Let_def proc_key_def rgk_def)
  have create: "createNewProcess V k nm pm = Val (add_proc q p pm, Inr ?n)"
    using inv_sched[OF inv] u new by (simp add: createNewProcess_def add_proc_def Let_def)
  have users: "all_users V (add_proc q p pm) (add_mset (f ?n) R) = all_users V pm (add_mset g R)"
    using creates_users[OF inv c] u(1) p(2) by simp
  have "bounds_ok V (add_proc q p pm) (add_mset (f ?n) R)"
    using inv c[of ?n] u users by (simp add: pool_inv_def bounds_ok_def creates_def) (simp add: add_proc_def)
  moreover have "known_groups V (add_proc q p pm) (add_mset (f ?n) R)"
    using inv c[of ?n] by (simp add: pool_inv_def known_groups_def creates_def)
  ultimately show ?thesis using inv users create creates_caches[OF inv c p(1,3,4)] by (auto simp: pool_inv_def)
qed

lemma mset_delete: "distinct (map fst m) \<Longrightarrow> (x, y) \<in> set m \<Longrightarrow> mset m = add_mset (x, y) (mset (AList.delete x m))"
proof (induction m)
  case (Cons a m)
  show ?case
  proof (cases "fst a = x")
    case True
    then have "x \<notin> fst ` set m" using Cons.prems by (cases a) simp
    then have "AList.delete x m = m" by (induction m) auto
    moreover have "a = (x, y)" using Cons.prems True by (force simp: rev_image_eqI)
    ultimately show ?thesis by simp
  next
    case False
    then show ?thesis using Cons by (cases a) auto
  qed
qed simp

lemma uniq_mset [simp]: "uniq (mset xs) \<longleftrightarrow> distinct xs"
  by (induction xs) auto

lemma inv_distinct:
  assumes "pool_inv V pm G"
  shows "distinct (map fst (cached V pm))" "distinct (map snd (cached V pm))"
  using uniq_mono[OF inv_names[OF assms], of "mset (map fst (cached V pm))"]
    uniq_mono[OF inv_pids[OF assms], of "mset (map snd (cached V pm))"]
  by (simp_all add: names_of_def pids_of_def del: mset_map)

lemma known_step:
  "known_groups V pm (add_mset g R) \<Longrightarrow> waiting_keys V pm' \<subseteq> waiting_keys V pm \<Longrightarrow>
   gor_keys g' \<subseteq> gor_keys g \<Longrightarrow> known_groups V pm' (add_mset g' R)"
  unfolding known_groups_def by auto

lemma distinct_map_snd_fst: "distinct (map snd m) \<Longrightarrow> (a, x) \<in> set m \<Longrightarrow> (b, x) \<in> set m \<Longrightarrow> a = b"
  by (metis distinct_map fst_conv inj_onD snd_conv)

lemma cache_step:
  assumes inv: "pool_inv V pm (add_mset g R)"
    and g: "resv g = {#nm#}" "made g = {#pid#}" "target g = {#}" "creating g = 1" "wants_user g = 0"
      "naming g = 0" "moved g = {#}" and pi: "proc_is pm pid k nm"
  shows "\<exists>pm'. addProcessToCache V k nm pid True pm = Val pm' \<and> pool_inv V pm' (add_mset GDone R) \<and>
    all_users V pm' (add_mset GDone R) = all_users V pm (add_mset g R)"
proof -
  have "nm \<notin># mset (map fst (cached V pm))"
    using inv_names[OF inv] g by (auto simp: names_of_def)
  then have nm: "nm \<notin> fst ` set (cached V pm)" by simp
  then have upd: "AList.update nm pid (busyProcesses pm) = busyProcesses pm @ [(nm, pid)]"
    by (intro update_new) (auto simp: cached_def)
  define pm' where "pm' = addToProcessGroup pid k nm (pm\<lparr>busyProcesses := busyProcesses pm @ [(nm, pid)]\<rparr>)"
  have act: "addProcessToCache V k nm pid True pm = Val pm'"
    by (simp add: addProcessToCache_def upd pm'_def)
  have same [simp]: "idle_entries V pm' = idle_entries V pm" "cached V pm' = cached V pm @ [(nm, pid)]"
    "procs pm' = procs pm" "nextPid pm' = nextPid pm" "processCnt pm' = processCnt pm"
    "userManager pm' = userManager pm" "maxProcessNum pm' = maxProcessNum pm"
    "waiting_keys V pm' = waiting_keys V pm" "requestScheduler pm' = requestScheduler pm"
    "user_of pm' = user_of pm"
    by (simp_all add: pm'_def addToProcessGroup_def cached_def idle_entries_def waiting_keys_def
        user_of_def[abs_def] Let_def)
  have no_nm: "(kk, nm, x) \<notin> groups_rel pm" for kk x
    using inv_grouped[OF inv] nm by (force simp: rev_image_eqI)
  have rel: "groups_rel pm' = insert (key_str k, nm, pid) (groups_rel pm)"
    using no_nm by (auto simp: pm'_def groups_rel_add)
  have names: "names_of V pm' (add_mset GDone R) = names_of V pm (add_mset g R)"
    and pids: "pids_of V pm' (add_mset GDone R) = pids_of V pm (add_mset g R)"
    using g by (simp_all add: names_of_def pids_of_def)
  have users: "all_users V pm' (add_mset GDone R) = all_users V pm (add_mset g R)"
    by (simp add: all_users_def pids)
  have "gor_ok V pm' g1" if "g1 \<in># R" for g1
    using inv_gors[OF inv] that by (intro gor_ok_frame[of V pm g1 pm']) (simp_all add: rel)
  moreover have "synced pm nm1 x \<Longrightarrow> synced pm' nm1 x" for nm1 x
    by (auto simp: synced_def rel)
  moreover have "synced pm' nm pid" using pi by (auto simp: proc_is_def synced_def rel)
  ultimately have "\<forall>g\<in>#add_mset GDone R. gor_ok V pm' g"
    "\<forall>(nm, pid)\<in>set (cached V pm'). pid \<notin># msum moved (add_mset GDone R) \<longrightarrow> synced pm' nm pid"
    using inv_synced[OF inv] g by auto
  moreover have "groups_ok pm'"
    using inv_groups[OF inv] by (simp add: pm'_def groups_ok_add)
  moreover have "(kk, nm1, x) \<in> groups_rel pm' \<Longrightarrow> (nm1, x) \<in> set (cached V pm')" for kk nm1 x
    using inv_grouped[OF inv] by (auto simp: rel)
  moreover have "(kk, nm1, x) \<in> groups_rel pm' \<Longrightarrow> (kk', nm1, x') \<in> groups_rel pm' \<Longrightarrow> kk = kk'" for kk kk' nm1 x x'
    using inv_one_group[OF inv] no_nm by (auto simp: rel)
  ultimately have "caches_ok V pm' (add_mset GDone R)"
    unfolding caches_ok_def names pids using invD[OF inv] g by simp
  moreover have "bounds_ok V pm' (add_mset GDone R)"
    using inv_bounds[OF inv] g users by (simp add: bounds_ok_def)
  moreover have "known_groups V pm' (add_mset GDone R)"
    using inv_known[OF inv] by (rule known_step) simp_all
  ultimately show ?thesis using inv_sched[OF inv] users act by (simp add: pool_inv_def)
qed

end
