(* ===== verification/Pm_Steps.thy ===== *)
theory Pm_Steps
  imports Pm_Invariant
begin

text \<open>
  Every step of every goroutine of the process manager preserves the invariant, and so do the
  pools of goroutines under every schedule and the handlers.
\<close>

lemma uniq_disj: "uniq (A + B) \<Longrightarrow> x \<in># A \<Longrightarrow> x \<notin># B"
  unfolding uniq_def by (metis add_leD2 count_greater_eq_one_iff count_union le_antisym
      add.commute add_le_same_cancel1 not_one_le_zero)

lemma less_names_pids:
  assumes "mset (cached V pm) = add_mset (on, pid) (mset (cached V pm'))" "made g = {#}"
    "resv g' \<subseteq># resv g" "made g' \<subseteq># {#pid#}"
  shows "names_of V pm' (add_mset g' R) \<subseteq># names_of V pm (add_mset g R)"
    and "pids_of V pm' (add_mset g' R) \<subseteq># pids_of V pm (add_mset g R)"
proof -
  have n: "names_of V pm (add_mset g R) = {#on#} + (mset (map fst (cached V pm')) + resv g + msum resv R)"
    and p: "pids_of V pm (add_mset g R) = {#pid#} + (mset (map snd (cached V pm')) + msum made R)"
    using assms(1,2) by (simp_all add: names_of_def pids_of_def)
  have "names_of V pm' (add_mset g' R) \<subseteq># mset (map fst (cached V pm')) + resv g + msum resv R"
    using assms(3) by (simp add: names_of_def add.assoc)
  also have "\<dots> \<subseteq># names_of V pm (add_mset g R)" unfolding n by (rule mset_subset_eq_add_right)
  finally show "names_of V pm' (add_mset g' R) \<subseteq># names_of V pm (add_mset g R)" .
  have "pids_of V pm' (add_mset g' R) = made g' + (mset (map snd (cached V pm')) + msum made R)"
    by (simp add: pids_of_def)
  also have "\<dots> \<subseteq># {#pid#} + (mset (map snd (cached V pm')) + msum made R)"
    using assms(4) by (rule subset_mset.add_right_mono)
  finally show "pids_of V pm' (add_mset g' R) \<subseteq># pids_of V pm (add_mset g R)" by (simp only: p)
qed

lemma other_pid:
  assumes inv: "pool_inv V pm (add_mset g R)" and "target g = {#pid#}"
    and c: "pid \<in> snd ` set (cached V pm)" and x: "x \<in># made g1 + target g1" "g1 \<in># R"
  shows "x \<noteq> pid"
proof (cases "x \<in># made g1")
  case True
  then have "x \<in># msum made R" using x in_msum[of g1 R x made] by simp
  moreover have "uniq (mset (map snd (cached V pm)) + msum made R)"
    by (rule uniq_mono[OF inv_pids[OF inv]]) (simp add: pids_of_def)
  ultimately show ?thesis using c uniq_disj by fastforce
next
  case False
  then have "x \<in># msum target R" using x in_msum[of g1 R x target] by simp
  then show ?thesis using inv_targets[OF inv] assms(2) by auto
qed

text \<open>A process object may change as long as its name, its contract and its user stay.\<close>

lemma touch:
  assumes inv: "pool_inv V pm G" and p: "map_of (procs pm) pid = Some p" and p': "proc_inv p'"
      "p_processName p' = p_processName p" "proc_key p' = proc_key p" "p_user p' = p_user p"
    and pm': "pm' = pm\<lparr>procs := AList.update pid p' (procs pm)\<rparr>"
  shows "pool_inv V pm' G \<and> all_users V pm' G = all_users V pm G"
proof -
  have lookup: "map_of (procs pm') x = (if x = pid then Some p' else map_of (procs pm) x)" for x
    by (simp add: pm' update_conv')
  have same [simp]: "idle_entries V pm' = idle_entries V pm" "cached V pm' = cached V pm"
    "groups_rel pm' = groups_rel pm" "groups_ok pm' = groups_ok pm" "waiting_keys V pm' = waiting_keys V pm"
    "names_of V pm' = names_of V pm" "pids_of V pm' = pids_of V pm" "nextPid pm' = nextPid pm"
    "processCnt pm' = processCnt pm" "maxProcessNum pm' = maxProcessNum pm"
    "requestScheduler pm' = requestScheduler pm" "userManager pm' = userManager pm"
    by (simp_all add: pm' names_of_def[abs_def] pids_of_def[abs_def])
  have [simp]: "proc_is pm' = proc_is pm" "synced pm' = synced pm" "user_of pm' = user_of pm"
    using p p' by (auto simp: proc_is_def synced_def user_of_def lookup fun_eq_iff)
  have gors: "gor_ok V pm' g = gor_ok V pm g" for g by (cases g) (simp_all add: swap_ready_def)
  have users: "all_users V pm' G = all_users V pm G" by (simp add: all_users_def)
  have "\<forall>x q. map_of (procs pm') x = Some q \<longrightarrow> x < nextPid pm' \<and> proc_inv q"
    using inv_procs[OF inv] p p'(1) by (simp add: lookup)
  moreover have "\<forall>x\<in>#pids_of V pm' G. map_of (procs pm') x \<noteq> None"
    using inv_live[OF inv] by (simp add: lookup)
  ultimately have "caches_ok V pm' G" unfolding caches_ok_def gors using invD[OF inv] by simp
  moreover have "bounds_ok V pm' G" using inv_bounds[OF inv] users by (simp add: bounds_ok_def)
  moreover have "known_groups V pm' G" using inv_known[OF inv] by (simp add: known_groups_def)
  ultimately show ?thesis using inv_sched[OF inv] users by (simp add: pool_inv_def)
qed

text \<open>A goroutine may move on without touching anything.\<close>

lemma drop_step:
  assumes inv: "pool_inv V pm (add_mset g R)" and g': "resv g' \<subseteq># resv g" "made g' = made g"
      "target g' \<subseteq># target g" "creating g' \<le> creating g" "wants_user g' \<le> wants_user g"
      "naming g' \<le> naming g" "moved g' = moved g" "gor_keys g' \<subseteq> gor_keys g" "gor_ok V pm g'"
  shows "pool_inv V pm (add_mset g' R) \<and> all_users V pm (add_mset g' R) = all_users V pm (add_mset g R)"
proof -
  have names: "names_of V pm (add_mset g' R) \<subseteq># names_of V pm (add_mset g R)"
    using g'(1) by (simp add: names_of_def)
  have pids: "pids_of V pm (add_mset g' R) = pids_of V pm (add_mset g R)"
    using g'(2) by (simp add: pids_of_def)
  have users: "all_users V pm (add_mset g' R) = all_users V pm (add_mset g R)"
    by (simp add: all_users_def pids)
  have targets: "msum target (add_mset g' R) \<subseteq># msum target (add_mset g R)" using g'(3) by simp
  have "\<forall>nm\<in>#names_of V pm (add_mset g' R). name_below (unat (processCnt pm)) nm"
    "\<forall>x\<in>#msum target (add_mset g' R). x \<in> snd ` set (idle_entries V pm)"
    using inv_below[OF inv] inv_idle[OF inv] mset_subset_eqD[OF names] mset_subset_eqD[OF targets] by blast+
  moreover have moved: "msum moved (add_mset g' R) = msum moved (add_mset g R)"
    using g'(7) by simp
  moreover have "\<forall>g\<in>#add_mset g' R. gor_ok V pm g"
    using inv_gors[OF inv] g'(9) by simp
  ultimately have "caches_ok V pm (add_mset g' R)"
    unfolding caches_ok_def pids moved
    using uniq_mono[OF inv_names[OF inv] names] uniq_mono[OF inv_targets[OF inv] targets] invD[OF inv] by argo
  moreover have "bounds_ok V pm (add_mset g' R)"
    using inv_bounds[OF inv] users g'(4-6) by (simp add: bounds_ok_def)
  moreover have "known_groups V pm (add_mset g' R)"
    using inv_known[OF inv] by (rule known_step) (simp_all add: g')
  ultimately show ?thesis using inv_sched[OF inv] users by (simp add: pool_inv_def)
qed

text \<open>What closing and changing a sandbox do to the process object.\<close>

lemma close_result:
  assumes "proc_inv p"
  shows "CloseSandbox cfg en p = Block \<or> (\<exists>p' out e. CloseSandbox cfg en p = Val (p', out, e) \<and> proc_inv p' \<and>
    p_processName p' = p_processName p \<and> proc_key p' = proc_key p \<and> p_user p' = p_user p)"
proof -
  have "\<And>p' out e. CloseSandbox cfg en p = Val (p', out, e) \<Longrightarrow>
    p_processName p' = p_processName p \<and> proc_key p' = proc_key p \<and> p_user p' = p_user p"
    by (auto simp: CloseSandbox_def killProcess_def updateProcessState_def proc_key_def Let_def
        split: if_splits option.splits)
  with CloseSandbox_good[OF assms, of cfg en] show ?thesis
    by (cases "CloseSandbox cfg en p") auto
qed

lemma change_result:
  assumes "proc_inv p" "pe_groupOk en" "pe_sigErr en = None"
  shows "ChangeSandbox cfg en c n v nm p = Block \<or>
    (\<exists>out e. ChangeSandbox cfg en c n v nm p = Val (p, out, Some e)) \<or>
    (\<exists>p' out. ChangeSandbox cfg en c n v nm p = Val (p', out, None) \<and> proc_inv p' \<and>
       p_processName p' = nm \<and> proc_key p' = rgk c n v \<and> p_user p' = p_user p)"
proof -
  have "p_cmdReadyCh p > 0 \<Longrightarrow> p_cmd p" using assms(1) by (simp add: proc_inv_def le_Suc_eq)
  then show ?thesis
    using assms(1,2,3)
    by (auto simp: ChangeSandbox_def resetContext_def killProcess_def updateProcessState_def proc_key_def
        proc_inv_def timer_ok_def Let_def)
qed

text \<open>
  Every step blocks or leads to a state that satisfies the invariant again, with the same users
  and the same limit; none panics.
\<close>

definition step_ok ::
  "('m, 'w) pm_env \<Rightarrow> gor multiset \<Rightarrow> User multiset \<Rightarrow> int \<Rightarrow> (gor \<times> ('m, 'w) pool_state) go \<Rightarrow> bool" where
  "step_ok V R U mx m \<longleftrightarrow> m = Block \<or> (\<exists>g pm cnt. m = Val (g, pm, cnt) \<and>
     pool_inv V pm (add_mset g R) \<and> all_users V pm (add_mset g R) = U \<and> maxProcessNum pm = mx)"

lemma step_okI:
  "pool_inv V pm (add_mset g R) \<and> all_users V pm (add_mset g R) = U \<Longrightarrow> maxProcessNum pm = mx \<Longrightarrow>
   step_ok V R U mx (Val (g, pm, cnt))"
  by (simp add: step_ok_def)

lemma cnt_ops:
  "createNewProcess V k nm pm = Val (pm', r) \<Longrightarrow> processCnt pm' = processCnt pm"
  "addProcessToCache V k nm pid True pm = Val pm' \<Longrightarrow> processCnt pm' = processCnt pm"
  "closeSandbox V k nm pm = Val (pm', e) \<Longrightarrow> processCnt pm' = processCnt pm"
  "on_proc pid f pm = Val (pm', e) \<Longrightarrow> processCnt pm' = processCnt pm"
  "change_sandbox V pid k nm pm = Val (pm', e) \<Longrightarrow> processCnt pm' = processCnt pm"
  "generateProcessName k pm = (pm', nm) \<Longrightarrow> processCnt pm' = processCnt pm + 1"
  "sendProcessReadyResp V n k pm = (pm', e) \<Longrightarrow> processCnt pm' = processCnt pm"
  by (auto simp: addProcessToCache_def removeProcessFromCache_def addToProcessGroup_def createNewProcess_def
      closeSandbox_def pm_releaseUser_def Let_def on_proc_def change_sandbox_def generateProcessName_def
      sendProcessReadyResp_def split: if_splits prod.splits go.splits sum.splits option.splits)

lemma create_cnt:
  "go_bind (createNewProcess V k nm pm) (\<lambda>(pm, r). case r of Inl e \<Rightarrow> Val (GDone, pm, cnt) | Inr pid \<Rightarrow> Val (f pid, pm, cnt)) =
     Val (g', pm', cnt') \<Longrightarrow> processCnt pm' = processCnt pm \<and> (g' = GDone \<or> (\<exists>pid. g' = f pid))"
  by (cases "createNewProcess V k nm pm") (auto dest: cnt_ops split: sum.splits)

lemma cnt_sends [simp]: "processCnt (removeProcessFromCache V k nm pm) = processCnt pm"
  by (simp add: removeProcessFromCache_def)

text \<open>
  The laws the steps rely on: the two linked hash maps behave as documented, and signals reach
  the sandboxes of idle processes.
\<close>

locale pm_world = idle: linkedhashmap "v_idle V" + wait: linkedhashmap "v_wait V"
  for V :: "('m, 'w) pm_env" +
  assumes signals: "pe_sigErr (v_penv V pid) = None"
begin

lemma unwait_keys: "waiting_keys V (removeFromWaitingGroup V k pm) \<subseteq> waiting_keys V pm"
  by (auto simp: waiting_keys_def removeFromWaitingGroup_def sendProcessReadyResp_def wait.lhm_simps AList.delete_eq)


lemma uncache_sets:
  assumes inv: "pool_inv V pm G" and inn: "(on, pid) \<in> set (cached V pm)" "(key_str ok, on, pid) \<in> groups_rel pm"
    and pm': "pm' = removeProcessFromCache V ok on (pm\<lparr>userManager := u\<rparr>)"
  shows "mset (cached V pm) = add_mset (on, pid) (mset (cached V pm'))"
    and "set (cached V pm') = set (cached V pm) - {(on, pid)}"
    and "set (idle_entries V pm') = set (idle_entries V pm) - {(on, pid)}"
    and "groups_rel pm' = groups_rel pm - {(k, nm, x). x = pid}"
    and "groups_ok pm'" and "waiting_keys V pm' \<subseteq> waiting_keys V pm"
    and "\<And>nm. (nm, pid) \<notin> set (cached V pm')"
proof -
  note dist = inv_distinct[OF inv]
  have pair: "nm = on \<longleftrightarrow> x = pid" if "(nm, x) \<in> set (cached V pm)" for nm x
    using that inn(1) eq_key_imp_eq_value[OF dist(1) inn(1)] distinct_map_snd_fst[OF dist(2) inn(1)] by blast
  have idle: "idle_entries V pm' = AList.delete on (idle_entries V pm)"
    by (simp add: idle_entries_def pm' removeProcessFromCache_def idle.lhm_simps)
  then have c: "cached V pm' = AList.delete on (cached V pm)"
    by (simp add: cached_def pm' removeProcessFromCache_def AList.delete_eq)
  show "mset (cached V pm) = add_mset (on, pid) (mset (cached V pm'))"
    unfolding c by (rule mset_delete[OF dist(1) inn(1)])
  show sub: "set (cached V pm') = set (cached V pm) - {(on, pid)}"
    using pair by (auto simp: c AList.delete_eq)
  show "set (idle_entries V pm') = set (idle_entries V pm) - {(on, pid)}"
    using pair by (auto simp: idle AList.delete_eq cached_def)
  show "\<And>nm. (nm, pid) \<notin> set (cached V pm')" using pair by (auto simp: sub)
  have rel: "groups_rel pm' = groups_rel pm - {(key_str ok, on, x) |x. True}"
    using inv_groups[OF inv] by (simp add: pm' removeProcessFromCache_def groups_rel_remove)
  have "(kk = key_str ok \<and> nm = on) \<longleftrightarrow> x = pid" if "(kk, nm, x) \<in> groups_rel pm" for kk nm x
    using that inv_grouped[OF inv] inv_one_group[OF inv] pair inn(2) by blast
  then show "groups_rel pm' = groups_rel pm - {(k, nm, x). x = pid}" unfolding rel by blast
  show "groups_ok pm'"
    using inv_groups[OF inv] by (simp add: pm' removeProcessFromCache_def groups_ok_remove)
  show "waiting_keys V pm' \<subseteq> waiting_keys V pm"
    by (auto simp: pm' removeProcessFromCache_def removeFromProcessGroup_def Let_def
        dest!: subsetD[OF unwait_keys] split: option.splits if_splits)
qed

lemma uncache:
  assumes inv: "pool_inv V pm (add_mset g R)" and g: "target g \<subseteq># {#pid#}" "made g = {#}"
    and own: "\<And>g1 x. g1 \<in># R \<Longrightarrow> x \<in># made g1 + target g1 \<Longrightarrow> x \<noteq> pid"
    and inn: "(on, pid) \<in> set (cached V pm)" "(key_str ok, on, pid) \<in> groups_rel pm"
    and pm': "pm' = removeProcessFromCache V ok on (pm\<lparr>userManager := u\<rparr>)"
    and g': "target g' = {#}" "moved g' = {#}" "resv g' \<subseteq># resv g" "made g' \<subseteq># {#pid#}" "gor_ok V pm' g'"
  shows "caches_ok V pm' (add_mset g' R)"
proof -
  note sets = uncache_sets[OF inv inn pm']
  have same: "procs pm' = procs pm" "processCnt pm' = processCnt pm" "nextPid pm' = nextPid pm"
    by (simp_all add: pm' removeProcessFromCache_def)
  have names: "names_of V pm' (add_mset g' R) \<subseteq># names_of V pm (add_mset g R)"
    and pids: "pids_of V pm' (add_mset g' R) \<subseteq># pids_of V pm (add_mset g R)"
    by (rule less_names_pids[OF sets(1) g(2) g'(3,4)])+
  have targets: "msum target (add_mset g' R) \<subseteq># msum target (add_mset g R)" using g'(1) by simp
  have "gor_ok V pm' g1" if "g1 \<in># R" for g1
    using inv_gors[OF inv] that own[OF that] by (intro gor_ok_frame[of V pm g1 pm']) (auto simp: sets same)
  then have gors: "\<forall>g\<in>#add_mset g' R. gor_ok V pm' g" using g'(5) by simp
  have "x \<in> snd ` set (idle_entries V pm')" if x: "x \<in># msum target R" for x
  proof -
    have "x \<noteq> pid" using own x by auto
    moreover obtain nm where "(nm, x) \<in> set (idle_entries V pm)" using inv_idle[OF inv] x by fastforce
    ultimately show ?thesis using image_eqI[of x snd "(nm, x)"] by (simp add: sets)
  qed
  then have idles: "\<forall>x\<in>#msum target (add_mset g' R). x \<in> snd ` set (idle_entries V pm')"
    using g'(1) by simp
  have "synced pm' nm x" if "(nm, x) \<in> set (cached V pm')" "x \<notin># msum moved R" for nm x
  proof -
    have x: "(nm, x) \<in> set (cached V pm)" "x \<noteq> pid" using that(1) sets(7) by (auto simp: sets(2))
    then have "x \<notin># moved g" using mset_subset_eqD[OF moved_target[of g]] mset_subset_eqD[OF g(1)] by auto
    then have "synced pm nm x" using inv_synced[OF inv] that(2) x by auto
    with \<open>x \<noteq> pid\<close> show ?thesis by (auto simp: synced_def sets same)
  qed
  then have syn: "\<forall>(nm, x)\<in>set (cached V pm'). x \<notin># msum moved (add_mset g' R) \<longrightarrow> synced pm' nm x"
    using g'(2) by auto
  have grp: "(kk, nm, x) \<in> groups_rel pm' \<Longrightarrow> (nm, x) \<in> set (cached V pm')" for kk nm x
    using inv_grouped[OF inv] by (auto simp: sets)
  have one: "(kk, nm, x) \<in> groups_rel pm' \<Longrightarrow> (kk', nm, x') \<in> groups_rel pm' \<Longrightarrow> kk = kk'" for kk kk' nm x x'
    using inv_one_group[OF inv] unfolding sets by blast
  have "\<forall>nm\<in>#names_of V pm' (add_mset g' R). name_below (unat (processCnt pm')) nm"
    "\<forall>x\<in>#pids_of V pm' (add_mset g' R). map_of (procs pm') x \<noteq> None"
    using inv_below[OF inv] inv_live[OF inv] mset_subset_eqD[OF names] mset_subset_eqD[OF pids]
    unfolding same by blast+
  then show "caches_ok V pm' (add_mset g' R)"
    unfolding caches_ok_def
    using uniq_mono[OF inv_names[OF inv] names] uniq_mono[OF inv_pids[OF inv] pids] inv_procs[OF inv]
      uniq_mono[OF inv_targets[OF inv] targets] gors idles syn grp one sets(5) same
    by (intro conjI) (simp; fail | blast)+
qed

lemma swap_step:
  assumes inv: "pool_inv V pm (add_mset g R)" and g: "resv g = {#nm#}" "made g = {#}" "target g = {#pid#}"
      "creating g = 0" "wants_user g = 0" "naming g = 0" "gor_keys g = {k}"
    and ready: "swap_ready V pm k pid ok on nm"
  shows "\<exists>pm'. addProcessToCache V k nm pid True (removeProcessFromCache V ok on pm) = Val pm' \<and>
    pool_inv V pm' (add_mset GDone R) \<and> all_users V pm' (add_mset GDone R) = all_users V pm (add_mset g R)"
proof -
  let ?g = "CrMade k nm pid"
  define pm1 where "pm1 = removeProcessFromCache V ok on pm"
  have procs: "procs pm1 = procs pm" by (simp add: pm1_def removeProcessFromCache_def)
  then have pi: "proc_is pm1 pid k nm" using ready by (simp add: swap_ready_def proc_is_def)
  have inn: "(on, pid) \<in> set (cached V pm)" "(key_str ok, on, pid) \<in> groups_rel pm"
    using ready by (simp_all add: swap_ready_def cached_def)
  have c: "pid \<in> snd ` set (cached V pm)" using inn(1) by force
  have pm1': "pm1 = removeProcessFromCache V ok on (pm\<lparr>userManager := userManager pm\<rparr>)" by (simp add: pm1_def)
  note sets = uncache_sets[OF inv inn pm1']
  have len: "length (cached V pm) = length (cached V pm1) + 1"
    using arg_cong[OF sets(1), of size] by simp
  have same [simp]: "processCnt pm1 = processCnt pm" "userManager pm1 = userManager pm"
    "maxProcessNum pm1 = maxProcessNum pm" "requestScheduler pm1 = requestScheduler pm"
    by (simp_all add: pm1_def removeProcessFromCache_def)
  have pids: "pids_of V pm1 (add_mset ?g R) = pids_of V pm (add_mset g R)"
    using sets(1) g by (simp add: pids_of_def)
  then have users: "all_users V pm1 (add_mset ?g R) = all_users V pm (add_mset g R)"
    using procs by (simp add: all_users_def user_of_def[abs_def])
  have "caches_ok V pm1 (add_mset ?g R)"
    by (rule uncache[OF inv _ g(2) _ inn pm1']) (simp_all add: g pi other_pid[OF inv g(3) c])
  moreover have "bounds_ok V pm1 (add_mset ?g R)"
    using inv_bounds[OF inv] g users len by (simp add: bounds_ok_def)
  moreover have "known_groups V pm1 (add_mset ?g R)"
    using inv_known[OF inv] sets(6) by (rule known_step) (simp add: g)
  ultimately have "pool_inv V pm1 (add_mset ?g R)"
    using inv_sched[OF inv] by (simp add: pool_inv_def)
  from cache_step[OF this _ _ _ _ _ _ _ pi] show ?thesis unfolding users by (simp add: pm1_def)
qed

lemma target_known:
  assumes inv: "pool_inv V pm (add_mset g R)" and g: "target g = {#pid#}" "moved g = {#}"
  obtains p where "map_of (procs pm) pid = Some p" "proc_inv p"
    "(p_processName p, pid) \<in> set (idle_entries V pm)"
    "(key_str (proc_key p), p_processName p, pid) \<in> groups_rel pm"
proof -
  obtain nm where nm: "(nm, pid) \<in> set (idle_entries V pm)" using inv_idle[OF inv] g(1) by fastforce
  have "pid \<notin># msum target R" using inv_targets[OF inv] g(1) by simp
  then have "pid \<notin># msum moved (add_mset g R)" using moved_in_target[of pid R] g(2) by auto
  then have "synced pm nm pid" using inv_synced[OF inv] nm by (auto simp: cached_def)
  then show ?thesis using that nm inv_procs[OF inv] by (auto simp: synced_def)
qed

lemma change_step:
  assumes inv: "pool_inv V pm (add_mset g R)"
    and g: "made g = {#}" "target g = {#pid#}" "moved g = {#}" and pi: "proc_is pm pid ok on"
    and g': "resv g' = resv g" "made g' = {#}" "target g' = {#pid#}" "creating g' = creating g"
      "wants_user g' = wants_user g" "naming g' = naming g" "moved g' = {#pid#}" "gor_keys g' = gor_keys g"
    and ok': "\<And>pm'. gor_ok V pm' g' = swap_ready V pm' k pid ok on nm"
    and p: "map_of (procs pm) pid = Some p" and p': "proc_inv p'" "p_processName p' = nm"
      "proc_key p' = k" "p_user p' = p_user p"
    and pm': "pm' = pm\<lparr>procs := AList.update pid p' (procs pm)\<rparr>"
  shows "pool_inv V pm' (add_mset g' R) \<and> all_users V pm' (add_mset g' R) = all_users V pm (add_mset g R)"
proof -
  obtain q where q: "map_of (procs pm) pid = Some q" "(p_processName q, pid) \<in> set (idle_entries V pm)"
    "(key_str (proc_key q), p_processName q, pid) \<in> groups_rel pm"
    using target_known[OF inv g(2,3)] by metis
  have lookup: "map_of (procs pm') x = (if x = pid then Some p' else map_of (procs pm) x)" for x
    by (simp add: pm' update_conv')
  have same [simp]: "idle_entries V pm' = idle_entries V pm" "cached V pm' = cached V pm"
    "groups_rel pm' = groups_rel pm" "groups_ok pm' = groups_ok pm" "waiting_keys V pm' = waiting_keys V pm"
    "nextPid pm' = nextPid pm" "processCnt pm' = processCnt pm" "maxProcessNum pm' = maxProcessNum pm"
    "requestScheduler pm' = requestScheduler pm" "userManager pm' = userManager pm"
    by (simp_all add: pm')
  have [simp]: "user_of pm' = user_of pm" using p p' by (auto simp: user_of_def lookup fun_eq_iff)
  have names: "names_of V pm' (add_mset g' R) = names_of V pm (add_mset g R)"
    and pids: "pids_of V pm' (add_mset g' R) = pids_of V pm (add_mset g R)"
    and targets: "msum target (add_mset g' R) = msum target (add_mset g R)"
    using g g' by (simp_all add: names_of_def pids_of_def)
  have users: "all_users V pm' (add_mset g' R) = all_users V pm (add_mset g R)"
    by (simp add: all_users_def pids)
  have cpid: "pid \<in> snd ` set (cached V pm)" using q(2) by (force simp: cached_def rev_image_eqI)
  have "gor_ok V pm' g1" if "g1 \<in># R" for g1
    using inv_gors[OF inv] that other_pid[OF inv g(2) cpid _ that]
    by (intro gor_ok_frame[of V pm g1 pm']) (auto simp: lookup)
  moreover have "gor_ok V pm' g'"
    using q pi p' by (auto simp: ok' swap_ready_def proc_is_def lookup)
  ultimately have gors: "\<forall>g\<in>#add_mset g' R. gor_ok V pm' g" by simp
  have "synced pm n x \<Longrightarrow> x \<noteq> pid \<Longrightarrow> synced pm' n x" for n x by (auto simp: synced_def lookup)
  then have synced: "\<forall>(n, x)\<in>set (cached V pm'). x \<notin># msum moved (add_mset g' R) \<longrightarrow> synced pm' n x"
    using inv_synced[OF inv] g g' by auto
  have "\<forall>x q. map_of (procs pm') x = Some q \<longrightarrow> x < nextPid pm' \<and> proc_inv q"
    using inv_procs[OF inv] p p'(1) by (simp add: lookup)
  moreover have "\<forall>x\<in>#pids_of V pm' (add_mset g' R). map_of (procs pm') x \<noteq> None"
    unfolding pids using inv_live[OF inv] by (simp add: lookup)
  ultimately have "caches_ok V pm' (add_mset g' R)"
    unfolding caches_ok_def names targets using invD[OF inv] gors synced by (simp add: pids)
  moreover have "bounds_ok V pm' (add_mset g' R)"
    using inv_bounds[OF inv] users g' by (simp add: bounds_ok_def)
  moreover have "known_groups V pm' (add_mset g' R)"
    using inv_known[OF inv] by (rule known_step) (simp_all add: g')
  ultimately show ?thesis using inv_sched[OF inv] users by (simp add: pool_inv_def)
qed

lemma found:
  assumes inv: "pool_inv V pm G" and inn: "(nm, pid) \<in> set (cached V pm)"
  shows "getProcessByName V nm pm = Some pid"
proof -
  have "map_of (cached V pm) nm = Some pid" using inv_distinct(1)[OF inv] inn by simp
  then show ?thesis
    by (auto simp: getProcessByName_def cached_def idle_entries_def idle.lhm_simps map_add_def split: option.splits)
qed

lemma user_freed:
  assumes inv: "pool_inv V pm G" and inn: "(nm, pid) \<in> set (cached V pm)"
  shows "FreeUser usr (userManager pm) = ((userManager pm)\<lparr>userQueue := (userQueue (userManager pm))
    \<lparr>queue := queue (userQueue (userManager pm)) @ [usr]\<rparr>\<rparr>, None, None)"
proof -
  have "pid \<in># pids_of V pm G" using inn by (force simp: pids_of_def)
  then have "0 < size (pids_of V pm G)" using nonempty_has_size by fastforce
  then have "length (queue (userQueue (userManager pm))) < capacity (userQueue (userManager pm))"
    using inv_bounds[OF inv] by (simp add: bounds_ok_def all_users_def)
  then show ?thesis using inv_bounds[OF inv] by (simp add: FreeUser_def Enqueue_def bounds_ok_def Let_def)
qed

lemma close_step:
  assumes inv: "pool_inv V pm (add_mset g R)" and g: "target g \<subseteq># {#pid#}" "made g = {#}"
    and own: "\<And>g1 x. g1 \<in># R \<Longrightarrow> x \<in># made g1 + target g1 \<Longrightarrow> x \<noteq> pid"
    and p: "map_of (procs pm) pid = Some p" and nm: "p_processName p = nm" and k: "proc_key p = k"
    and inn: "(nm, pid) \<in> set (cached V pm)" "(key_str k, nm, pid) \<in> groups_rel pm"
  shows "\<exists>pm'. closeSandbox V k nm pm = Val (pm', None) \<and> pool_inv V pm' (add_mset GDone R) \<and>
    all_users V pm' (add_mset GDone R) = all_users V pm (add_mset g R)"
proof -
  define u where "u = fst (FreeUser (p_user p) (userManager pm))"
  note free = user_freed[OF inv inn(1), of "p_user p"]
  define pm1 where "pm1 = removeProcessFromCache V k nm (pm\<lparr>userManager := u\<rparr>)"
  have act: "closeSandbox V k nm pm = Val (pm1, None)"
    using found[OF inv inn(1)] p free by (simp add: closeSandbox_def pm_releaseUser_def pm1_def u_def Let_def)
  note sets = uncache_sets[OF inv inn pm1_def]
  have len: "length (cached V pm) = length (cached V pm1) + 1"
    using arg_cong[OF sets(1), of size] by simp
  have same [simp]: "processCnt pm1 = processCnt pm" "userManager pm1 = u" "procs pm1 = procs pm"
    "maxProcessNum pm1 = maxProcessNum pm" "requestScheduler pm1 = requestScheduler pm"
    by (simp_all add: pm1_def removeProcessFromCache_def)
  have "pids_of V pm (add_mset g R) = add_mset pid (pids_of V pm1 (add_mset GDone R))"
    using sets(1) g(2) by (simp add: pids_of_def)
  then have users: "all_users V pm1 (add_mset GDone R) = all_users V pm (add_mset g R)"
    using p free by (simp add: all_users_def user_of_def[abs_def] u_def)
  have "caches_ok V pm1 (add_mset GDone R)"
    by (rule uncache[OF inv g own inn pm1_def]) simp_all
  moreover have "bounds_ok V pm1 (add_mset GDone R)"
    using inv_bounds[OF inv] users len free by (simp add: bounds_ok_def u_def)
  moreover have "known_groups V pm1 (add_mset GDone R)"
    using inv_known[OF inv] sets(6) by (rule known_step) simp
  ultimately show ?thesis using inv_sched[OF inv] act users by (simp add: pool_inv_def)
qed

lemma max_frame [simp]:
  "addProcessToCache V k nm pid True pm = Val pm' \<Longrightarrow> maxProcessNum pm' = maxProcessNum pm"
  "maxProcessNum (removeProcessFromCache V k nm pm) = maxProcessNum pm"
  "createNewProcess V k nm pm = Val (pm', r) \<Longrightarrow> maxProcessNum pm' = maxProcessNum pm"
  "closeSandbox V k nm pm = Val (pm', e) \<Longrightarrow> maxProcessNum pm' = maxProcessNum pm"
  by (auto simp: addProcessToCache_def removeProcessFromCache_def addToProcessGroup_def createNewProcess_def
      closeSandbox_def pm_releaseUser_def Let_def split: if_splits prod.splits go.splits sum.splits option.splits)

lemma unwait_inv:
  assumes "pool_inv V pm G"
  shows "pool_inv V (removeFromWaitingGroup V k pm) G \<and>
    all_users V (removeFromWaitingGroup V k pm) G = all_users V pm G"
  using pool_inv_cong[of V "removeFromWaitingGroup V k pm" pm G] assms le_supI1[OF unwait_keys[of k pm]]
  by (simp add: idle_entries_def)

lemma send_inv:
  assumes "pool_inv V pm G"
  shows "pool_inv V (fst (sendProcessReadyResp V n k pm)) G \<and>
    all_users V (fst (sendProcessReadyResp V n k pm)) G = all_users V pm G"
  using pool_inv_cong[of V "fst (sendProcessReadyResp V n k pm)" pm G] assms
  by (simp add: idle_entries_def waiting_keys_def sendProcessReadyResp_def)

lemma send_known:
  assumes "pool_inv V pm (add_mset g R)" "gor_keys g = {k}"
  obtains pm' where "sendProcessReadyResp V n k pm = (pm', None)"
    "pool_inv V pm' (add_mset g R)" "all_users V pm' (add_mset g R) = all_users V pm (add_mset g R)"
    "maxProcessNum pm' = maxProcessNum pm"
proof -
  have "v_hasGroup V k" using inv_known[OF assms(1)] assms(2) by (auto simp: known_groups_def)
  then have "sendProcessReadyResp V n k pm = (fst (sendProcessReadyResp V n k pm), None)"
    by (simp add: sendProcessReadyResp_def)
  with that send_inv[OF assms(1), of n k] show ?thesis by (metis send_frame(8))
qed

lemma create_step_ok:
  assumes "\<exists>pm' pid. createNewProcess V k nm pm = Val (pm', Inr pid) \<and> pool_inv V pm' (add_mset (f pid) R) \<and>
     all_users V pm' (add_mset (f pid) R) = U"
  shows "step_ok V R U (maxProcessNum pm) (go_bind (createNewProcess V k nm pm) (\<lambda>(pm1, r). case r of
         Inl e \<Rightarrow> Val (GDone, pm1, cnt) | Inr pid \<Rightarrow> Val (f pid, pm1, cnt)))"
  using assms by (auto simp: step_ok_def max_frame(3))

lemma cache_step_ok:
  assumes "\<exists>pm'. addProcessToCache V k nm pid True pm1 = Val pm' \<and> pool_inv V pm' (add_mset GDone R) \<and>
     all_users V pm' (add_mset GDone R) = U" "maxProcessNum pm1 = mx"
  shows "step_ok V R U mx (go_bind (addProcessToCache V k nm pid True pm1) (\<lambda>pm1. Val (GDone, pm1, c)))"
  using assms by (auto simp: step_ok_def max_frame(1))

lemma start_ok:
  assumes inv: "pool_inv V pm (add_mset g R)" and k: "generateProcessName k pm = (pm', nm)"
    and g: "naming g = 1" "resv g = {#}" and g': "resv g' = {#nm#}" "made g' = made g" "target g' = target g"
      "creating g' = creating g" "wants_user g' = wants_user g" "naming g' = 0" "moved g' = moved g"
      "gor_keys g' = gor_keys g" "gor_ok V pm g'"
  shows "step_ok V R (all_users V pm (add_mset g R)) (maxProcessNum pm) (Val (g', pm', cnt))"
  using name_step[OF inv k g g'] k by (intro step_okI) (auto simp: generateProcessName_def Let_def)

lemma change_ok:
  assumes inv: "pool_inv V pm (add_mset g R)" and g: "made g = {#}" "target g = {#pid#}" "moved g = {#}"
      "gor_keys g = {k}"
    and pi: "proc_is pm pid ok on"
    and g': "resv g' = resv g" "made g' = {#}" "target g' = {#pid#}" "creating g' = creating g"
      "wants_user g' = wants_user g" "naming g' = naming g" "moved g' = {#pid#}" "gor_keys g' = gor_keys g"
    and ok': "\<And>pm'. gor_ok V pm' g' = swap_ready V pm' k pid ok on nm"
  shows "step_ok V R (all_users V pm (add_mset g R)) (maxProcessNum pm)
    (go_bind (change_sandbox V pid k nm pm) (\<lambda>(pm1, e). Val (if e = None then g' else GDone, pm1, cnt)))"
proof -
  obtain p where p: "map_of (procs pm) pid = Some p" "proc_inv p"
    using target_known[OF inv g(2,3)] by metis
  define en where "en = (v_penv V pid)\<lparr>pe_groupOk := v_hasGroup V k\<rparr>"
  have "v_hasGroup V k" using inv_known[OF inv] g(4) by (auto simp: known_groups_def)
  then have en: "pe_groupOk en" "pe_sigErr en = None" using signals by (simp_all add: en_def)
  let ?C = "ChangeSandbox (v_cfg V) en (rgk_ChainID k) (rgk_ContractName k) (rgk_ContractVersion k) nm p"
  have act: "change_sandbox V pid k nm pm =
      go_bind ?C (\<lambda>(p', out, e). Val (pm\<lparr>procs := AList.update pid p' (procs pm)\<rparr>, e))"
    using p(1) by (simp add: change_sandbox_def on_proc_def en_def)
  from change_result[OF p(2) en, of "v_cfg V" "rgk_ChainID k" "rgk_ContractName k" "rgk_ContractVersion k" nm]
  show ?thesis
  proof (elim disjE exE conjE)
    assume "?C = Block"
    then show ?thesis by (simp add: act step_ok_def)
  next
    fix out e assume kept: "?C = Val (p, out, Some e)"
    have t: "pool_inv V (pm\<lparr>procs := AList.update pid p (procs pm)\<rparr>) (add_mset g R)"
      "all_users V (pm\<lparr>procs := AList.update pid p (procs pm)\<rparr>) (add_mset g R) = all_users V pm (add_mset g R)"
      using touch[OF inv p(1) p(2) _ _ _ refl] by simp_all
    have "pool_inv V (pm\<lparr>procs := AList.update pid p (procs pm)\<rparr>) (add_mset GDone R) \<and>
      all_users V (pm\<lparr>procs := AList.update pid p (procs pm)\<rparr>) (add_mset GDone R) = all_users V pm (add_mset g R)"
      using drop_step[OF t(1), of GDone] t(2) g by simp
    then show ?thesis using kept by (auto simp: act intro!: step_okI)
  next
    fix p' out assume c: "?C = Val (p', out, None)" "proc_inv p'" "p_processName p' = nm"
      "proc_key p' = rgk (rgk_ChainID k) (rgk_ContractName k) (rgk_ContractVersion k)" "p_user p' = p_user p"
    then have "proc_key p' = k" by (simp add: rgk_def)
    from change_step[OF inv g(1-3) pi g' ok' p(1) c(2,3) this c(5) refl] c(1)
    show ?thesis by (simp add: act step_ok_def)
  qed
qed

lemma close_start_ok:
  assumes inv: "pool_inv V pm (add_mset (ClStart pid) R)"
  shows "step_ok V R (all_users V pm (add_mset (ClStart pid) R)) (maxProcessNum pm)
    (gor_step V (ClStart pid) (pm, cnt))"
proof -
  obtain p where p: "map_of (procs pm) pid = Some p" "proc_inv p"
    by (rule target_known[OF inv]) simp_all
  from close_result[OF p(2), of "v_cfg V" "v_penv V pid"] show ?thesis
  proof (elim disjE exE conjE)
    assume "CloseSandbox (v_cfg V) (v_penv V pid) p = Block"
    then show ?thesis using p by (simp add: on_proc_def step_ok_def)
  next
    fix p' out e
    assume c: "CloseSandbox (v_cfg V) (v_penv V pid) p = Val (p', out, e)" "proc_inv p'"
      "p_processName p' = p_processName p" "proc_key p' = proc_key p" "p_user p' = p_user p"
    let ?pm = "pm\<lparr>procs := AList.update pid p' (procs pm)\<rparr>"
    let ?g = "if e = None then ClClosed pid else GDone"
    have t: "pool_inv V ?pm (add_mset (ClStart pid) R)"
      "all_users V ?pm (add_mset (ClStart pid) R) = all_users V pm (add_mset (ClStart pid) R)"
      using touch[OF inv p(1) c(2-5) refl] by simp_all
    have "pool_inv V ?pm (add_mset ?g R) \<and>
      all_users V ?pm (add_mset ?g R) = all_users V pm (add_mset (ClStart pid) R)"
      using drop_step[OF t(1), of ?g] t(2) by simp
    then show ?thesis using p c(1) by (simp add: on_proc_def step_ok_def)
  qed
qed

lemma close_end_ok:
  assumes inv: "pool_inv V pm (add_mset (ClClosed pid) R)"
  shows "step_ok V R (all_users V pm (add_mset (ClClosed pid) R)) (maxProcessNum pm)
    (gor_step V (ClClosed pid) (pm, cnt))"
proof -
  obtain p where p: "map_of (procs pm) pid = Some p" "(p_processName p, pid) \<in> set (idle_entries V pm)"
    "(key_str (proc_key p), p_processName p, pid) \<in> groups_rel pm"
    by (rule target_known[OF inv]) simp_all
  then have c: "(p_processName p, pid) \<in> set (cached V pm)" by (simp add: cached_def)
  then have "pid \<in> snd ` set (cached V pm)" by force
  then have own: "x \<noteq> pid" if "g1 \<in># R" "x \<in># made g1 + target g1" for g1 x
    using other_pid[OF inv, of pid x g1] that by simp
  have "\<exists>pm'. closeSandbox V (proc_key p) (p_processName p) pm = Val (pm', None) \<and>
    pool_inv V pm' (add_mset GDone R) \<and>
    all_users V pm' (add_mset GDone R) = all_users V pm (add_mset (ClClosed pid) R)"
    by (rule close_step[OF inv _ _ _ p(1) refl refl c p(3)]) (simp, simp, erule own)
  then obtain pm' where "closeSandbox V (proc_key p) (p_processName p) pm = Val (pm', None)"
    "pool_inv V pm' (add_mset GDone R)"
    "all_users V pm' (add_mset GDone R) = all_users V pm (add_mset (ClClosed pid) R)" by blast
  then show ?thesis using p(1) by (simp add: step_ok_def max_frame(4))
qed

lemma target_start_ok:
  assumes inv: "pool_inv V pm (add_mset g R)" and g: "target g = {#pid#}" "moved g = {#}" "naming g = 1"
      "resv g = {#}" "made g = {#}" "creating g = 0" "wants_user g = 0" "gor_keys g = {k}"
    and f: "\<And>ok on nm. resv (f ok on nm) = {#nm#} \<and> made (f ok on nm) = {#} \<and> target (f ok on nm) = {#pid#} \<and>
      creating (f ok on nm) = 0 \<and> wants_user (f ok on nm) = 0 \<and> naming (f ok on nm) = 0 \<and>
      moved (f ok on nm) = {#} \<and> gor_keys (f ok on nm) = {k} \<and> gor_ok V pm (f ok on nm) = proc_is pm pid ok on"
    and p: "map_of (procs pm) pid = Some p"
  shows "step_ok V R (all_users V pm (add_mset g R)) (maxProcessNum pm)
    (let (pm1, nm) = generateProcessName k pm in Val (f (proc_key p) (p_processName p) nm, pm1, cnt))"
proof -
  obtain pm1 nm where gen: "generateProcessName k pm = (pm1, nm)" by fastforce
  have "proc_is pm pid (proc_key p) (p_processName p)" using p by (simp add: proc_is_def)
  with start_ok[OF inv gen g(3,4), of "f (proc_key p) (p_processName p) nm" cnt] f g
  show ?thesis by (simp add: gen)
qed

lemma give_start_ok:
  assumes inv: "pool_inv V pm (add_mset (AiStart k pid) R)"
  shows "step_ok V R (all_users V pm (add_mset (AiStart k pid) R)) (maxProcessNum pm)
    (gor_step V (AiStart k pid) (pm, cnt))"
proof -
  obtain p where p: "map_of (procs pm) pid = Some p" by (rule target_known[OF inv]) simp_all
  let ?pm = "removeFromWaitingGroup V k pm"
  have u: "pool_inv V ?pm (add_mset (AiStart k pid) R)"
    "all_users V ?pm (add_mset (AiStart k pid) R) = all_users V pm (add_mset (AiStart k pid) R)"
    using unwait_inv[OF inv] by simp_all
  have "pool_inv V ?pm (add_mset (AiSame k) R) \<and>
    all_users V ?pm (add_mset (AiSame k) R) = all_users V ?pm (add_mset (AiStart k pid) R)"
    by (rule drop_step[OF u(1)]) simp_all
  with u(2) target_start_ok[OF inv, of pid k "AiNamed k pid", OF _ _ _ _ _ _ _ _ _ p, of cnt] p
  show ?thesis by (auto simp: step_ok_def)
qed

lemma send_ok:
  assumes inv: "pool_inv V pm (add_mset g R)" and g: "gor_keys g = {k}"
    and g': "resv g' = resv g" "made g' = made g" "target g' = target g" "creating g' = creating g"
      "wants_user g' = wants_user g" "naming g' = naming g" "moved g' = moved g" "gor_keys g' = gor_keys g"
      "\<And>pm'. gor_ok V pm' g' = gor_ok V pm' g"
  shows "step_ok V R (all_users V pm (add_mset g R)) (maxProcessNum pm)
    (let (pm1, e) = sendProcessReadyResp V 1 k pm in Val (if e = None then g' else GDone, pm1, cnt))"
proof -
  obtain pm' where s: "sendProcessReadyResp V 1 k pm = (pm', None)" "pool_inv V pm' (add_mset g R)"
    "all_users V pm' (add_mset g R) = all_users V pm (add_mset g R)" "maxProcessNum pm' = maxProcessNum pm"
    using send_known[OF inv g] by metis
  have "pool_inv V pm' (add_mset g' R) \<and> all_users V pm' (add_mset g' R) = all_users V pm' (add_mset g R)"
    by (rule drop_step[OF s(2)]) (use inv_gors[OF s(2)] in \<open>simp_all add: g'\<close>)
  with s show ?thesis by (simp add: step_ok_def)
qed

lemma gor_step_inv:
  assumes inv: "pool_inv V pm (add_mset g R)"
  shows "step_ok V R (all_users V pm (add_mset g R)) (maxProcessNum pm) (gor_step V g (pm, cnt))"
proof (cases g)
  case (CrStart k)
  obtain pm1 nm where gen: "generateProcessName k pm = (pm1, nm)" by fastforce
  show ?thesis using start_ok[OF inv gen, of "CrNamed k nm"] CrStart gen by simp
next
  case (CrNamed k nm)
  show ?thesis unfolding CrNamed gor_step.simps
    by (rule create_step_ok, rule create_step[OF inv[unfolded CrNamed]]) (simp add: creates_def)
next
  case (CrMade k nm pid)
  show ?thesis unfolding CrMade gor_step.simps
    by (rule cache_step_ok, rule cache_step[OF inv[unfolded CrMade]]) (use inv_gors[OF inv] CrMade in simp_all)
next
  case (ChStart k pid)
  obtain p where p: "map_of (procs pm) pid = Some p" by (rule target_known[OF inv]) (simp_all add: ChStart)
  have "pool_inv V pm (add_mset GDone R) \<and> all_users V pm (add_mset GDone R) = all_users V pm (add_mset g R)"
    by (rule drop_step[OF inv]) (simp_all add: ChStart)
  with target_start_ok[OF inv, of pid k "ChNamed k pid", OF _ _ _ _ _ _ _ _ _ p, of cnt] p ChStart
  show ?thesis by (auto simp: step_ok_def)
next
  case (ChNamed k pid ok on nm)
  show ?thesis unfolding ChNamed gor_step.simps
    by (rule change_ok[OF inv[unfolded ChNamed]]) (use inv_gors[OF inv] ChNamed in simp_all)
next
  case (ChChanged k pid ok on nm)
  show ?thesis unfolding ChChanged gor_step.simps
    by (rule cache_step_ok, rule swap_step[OF inv[unfolded ChChanged]]) (use inv_gors[OF inv] ChChanged in simp_all)
next
  case (ClStart pid)
  then show ?thesis using close_start_ok inv by simp
next
  case (ClClosed pid)
  then show ?thesis using close_end_ok inv by simp
next
  case (AiStart k pid)
  then show ?thesis using give_start_ok inv by simp
next
  case (AiSame k)
  have "pool_inv V pm (add_mset GDone R) \<and> all_users V pm (add_mset GDone R) = all_users V pm (add_mset g R)"
    by (rule drop_step[OF inv]) (simp_all add: AiSame)
  with send_inv[of pm "add_mset GDone R" 0 k] show ?thesis by (simp add: AiSame step_ok_def)
next
  case (AiNamed k pid ok on nm)
  show ?thesis unfolding AiNamed gor_step.simps
    by (rule change_ok[OF inv[unfolded AiNamed]]) (use inv_gors[OF inv] AiNamed in simp_all)
next
  case (AiChanged k pid ok on nm)
  show ?thesis unfolding AiChanged gor_step.simps by (rule send_ok[OF inv[unfolded AiChanged]]) simp_all
next
  case (AiSent k pid ok on nm)
  note u = unwait_inv[OF inv, of k]
  show ?thesis unfolding AiSent gor_step.simps u[THEN conjunct2, symmetric, unfolded AiSent]
    by (rule cache_step_ok, rule swap_step[OF u[THEN conjunct1, unfolded AiSent]])
      (use inv_gors[OF u[THEN conjunct1]] AiSent in simp_all)
next
  case (AnStart k)
  show ?thesis unfolding AnStart gor_step.simps by (rule send_ok[OF inv[unfolded AnStart]]) simp_all
next
  case (AnSent k)
  obtain pm1 nm where gen: "generateProcessName k pm = (pm1, nm)" by fastforce
  show ?thesis using start_ok[OF inv gen, of "AnNamed k nm"] AnSent gen by simp
next
  case (AnNamed k nm)
  show ?thesis unfolding AnNamed gor_step.simps
    by (rule create_step_ok, rule create_step[OF inv[unfolded AnNamed]]) (simp add: creates_def)
next
  case (AnMade k nm pid)
  note u = unwait_inv[OF inv, of k]
  show ?thesis unfolding AnMade gor_step.simps u[THEN conjunct2, symmetric, unfolded AnMade]
    by (rule cache_step_ok, rule cache_step[OF u[THEN conjunct1, unfolded AnMade]])
      (use inv_gors[OF u[THEN conjunct1]] AnMade in simp_all)
next
  case GDone
  then show ?thesis using inv by (simp add: step_ok_def)
qed

lemma gor_step_cnt:
  assumes "gor_step V g (pm, cnt) = Val (g', pm', cnt')"
  shows "(processCnt pm' = processCnt pm \<and> naming g' \<le> naming g) \<or>
    (processCnt pm' = processCnt pm + 1 \<and> naming g = 1 \<and> naming g' = 0)"
proof (cases "(\<exists>k nm. g = CrNamed k nm) \<or> (\<exists>k nm. g = AnNamed k nm)")
  case True
  then show ?thesis using assms by (auto dest!: create_cnt simp del: go_bind_eq_Val)
next
  case False
  then show ?thesis
    using assms by (cases g) (auto simp: Let_def split: if_splits option.splits prod.splits dest!: cnt_ops)
qed

end

end
