(* ===== verification/Pm_Handlers.thy ===== *)
theory Pm_Handlers
  imports Pm_Steps
begin

text \<open>
  The handlers of the process manager: pools of goroutines under every schedule, the handlers
  built from them, and the managers reachable from a new one.
\<close>

section \<open>Pools\<close>

text \<open>A computation that blocks or ends in a manager satisfying the invariant, users and limit kept.\<close>

definition pm_ok ::
  "('m, 'w) pm_env \<Rightarrow> ('m, 'w) ProcessManager \<Rightarrow> nat \<Rightarrow> ('r \<Rightarrow> ('m, 'w) ProcessManager) \<Rightarrow> 'r go \<Rightarrow> bool" where
  "pm_ok V pm n get m \<longleftrightarrow> m = Block \<or> (\<exists>r. m = Val r \<and> pm_inv V (get r) \<and>
     all_users V (get r) {#} = all_users V pm {#} \<and> maxProcessNum (get r) = maxProcessNum pm \<and>
     unat (processCnt (get r)) \<le> unat (processCnt pm) + n)"

lemma pm_okI:
  "pm_inv V (get r) \<Longrightarrow> all_users V (get r) {#} = all_users V pm {#} \<Longrightarrow> maxProcessNum (get r) = maxProcessNum pm \<Longrightarrow>
   unat (processCnt (get r)) \<le> unat (processCnt pm) + n \<Longrightarrow> pm_ok V pm n get (Val r)"
  by (simp add: pm_ok_def)

lemma pm_ok_bind:
  assumes "pm_ok V pm n get m"
    and "\<And>r. m = Val r \<Longrightarrow> pm_inv V (get r) \<Longrightarrow> maxProcessNum (get r) = maxProcessNum pm \<Longrightarrow>
      size (all_users V (get r) {#}) = size (all_users V pm {#}) \<Longrightarrow>
      unat (processCnt (get r)) \<le> unat (processCnt pm) + n \<Longrightarrow> pm_ok V (get r) n' get' (f r)"
  shows "pm_ok V pm (n + n') get' (go_bind m f)"
proof (cases m)
  case (Val r)
  then show ?thesis using assms(1) assms(2)[of r] by (fastforce simp: pm_ok_def)
qed (use assms in \<open>auto simp: pm_ok_def\<close>)

lemma msum_zero: "\<forall>g\<in>#G. f g = 0 \<Longrightarrow> msum f G = 0"
  by (induction G) auto

lemma sum_zeros [simp]: "sum_mset (replicate_mset n 0) = 0"
  by (induction n) simp_all

lemma done_gone [simp]:
  "pool_inv V pm (replicate_mset n GDone) = pm_inv V pm"
  "all_users V pm (replicate_mset n GDone) = all_users V pm {#}"
proof -
  have names: "names_of V pm (replicate_mset n GDone) = names_of V pm {#}"
    and pids: "pids_of V pm (replicate_mset n GDone) = pids_of V pm {#}"
    by (simp_all add: names_of_def pids_of_def)
  show users: "all_users V pm (replicate_mset n GDone) = all_users V pm {#}"
    by (simp add: all_users_def pids)
  show "pool_inv V pm (replicate_mset n GDone) = pm_inv V pm"
    by (simp add: pool_inv_def caches_ok_def bounds_ok_def known_groups_def names pids users)
qed

text \<open>A pool may be started when there is room, and its targets are different idle processes.\<close>

lemma start_pool:
  assumes inv: "pm_inv V pm"
    and G: "\<forall>g\<in>#G. resv g = {#} \<and> made g = {#} \<and> moved g = {#} \<and> gor_ok V pm g \<and> (\<forall>k\<in>gor_keys g. v_hasGroup V k)"
    and targets: "uniq (msum target G)" "\<forall>pid\<in>#msum target G. pid \<in> snd ` set (idle_entries V pm)"
    and room: "int (length (cached V pm)) + int (msum creating G) \<le> maxProcessNum pm"
      "msum wants_user G \<le> length (queue (userQueue (userManager pm)))"
      "unat (processCnt pm) + msum naming G < 2 ^ 64"
  shows "pool_inv V pm G" and "all_users V pm G = all_users V pm {#}"
proof -
  have zero: "msum resv G = {#}" "msum made G = {#}" "msum moved G = {#}"
    using G by (simp_all add: msum_zero)
  have names: "names_of V pm G = names_of V pm {#}" and pids: "pids_of V pm G = pids_of V pm {#}"
    by (simp_all add: names_of_def pids_of_def zero)
  show users: "all_users V pm G = all_users V pm {#}" by (simp add: all_users_def pids)
  have "caches_ok V pm G"
    unfolding caches_ok_def names pids zero using invD[OF inv] targets G by simp
  moreover have "bounds_ok V pm G" using inv_bounds[OF inv] room by (simp add: bounds_ok_def users)
  moreover have "known_groups V pm G" using inv_known[OF inv] G by (auto simp: known_groups_def)
  ultimately show "pool_inv V pm G" using inv_sched[OF inv] by (simp add: pool_inv_def)
qed

context pm_world
begin

lemma run_sched_inv:
  assumes "pool_inv V pm (mset gs)"
  shows "run_sched V is gs (pm, cnt) = Block \<or> (\<exists>gs' pm' cnt'. run_sched V is gs (pm, cnt) = Val (gs', pm', cnt') \<and>
    pool_inv V pm' (mset gs') \<and> all_users V pm' (mset gs') = all_users V pm (mset gs) \<and>
    maxProcessNum pm' = maxProcessNum pm \<and>
    unat (processCnt pm') + msum naming (mset gs') \<le> unat (processCnt pm) + msum naming (mset gs))"
  using assms
proof (induction "is" arbitrary: gs pm cnt)
  case (Cons i "is")
  show ?case
  proof (cases "i < length gs")
    case True
    define R where "R = mset gs - {#gs ! i#}"
    have gs: "mset gs = add_mset (gs ! i) R" "mset (gs[i := g]) = add_mset g R" for g
      using True by (simp_all add: R_def mset_update)
    from gor_step_inv[OF Cons.prems[unfolded gs(1)], of cnt] show ?thesis
    proof (cases "gor_step V (gs ! i) (pm, cnt)")
      case (Val r)
      obtain g1 pm1 c1 where r: "r = (g1, pm1, c1)" by (cases r)
      have s: "pool_inv V pm1 (mset (gs[i := g1]))" "all_users V pm1 (mset (gs[i := g1])) = all_users V pm (mset gs)"
        "maxProcessNum pm1 = maxProcessNum pm"
        using gor_step_inv[OF Cons.prems[unfolded gs(1)], of cnt] Val by (auto simp: step_ok_def r gs)
      have "unat (processCnt pm) + msum naming (mset gs) < 2 ^ 64"
        using inv_bounds[OF Cons.prems] by (simp add: bounds_ok_def)
      then have "unat (processCnt pm1) + msum naming (mset (gs[i := g1])) \<le> unat (processCnt pm) + msum naming (mset gs)"
        using gor_step_cnt[of "gs ! i" pm cnt g1 pm1 c1] Val unfolding gs
        by (auto simp: r unat_word_ariths)
      with Cons.IH[OF s(1), of c1] s(2,3) show ?thesis using True Val by (fastforce simp: r)
    qed (simp_all add: step_ok_def True)
  next
    case False
    then show ?thesis using Cons by simp
  qed
qed simp

lemma run_pool_ok:
  assumes "pool_inv V pm (mset gs)" "all_users V pm (mset gs) = all_users V pm {#}" "msum naming (mset gs) \<le> n"
  shows "pm_ok V pm n fst (run_pool V sched gs pm)"
proof -
  from run_sched_inv[OF assms(1), of "sched @ concat (replicate 5 [0..<length gs])" 0] show ?thesis
  proof (elim disjE exE conjE)
    fix gs' pm' cnt'
    assume r: "run_sched V (sched @ concat (replicate 5 [0..<length gs])) gs (pm, 0) = Val (gs', pm', cnt')"
      "pool_inv V pm' (mset gs')" "all_users V pm' (mset gs') = all_users V pm (mset gs)"
      "maxProcessNum pm' = maxProcessNum pm"
      "unat (processCnt pm') + msum naming (mset gs') \<le> unat (processCnt pm) + msum naming (mset gs)"
    have "gs' = replicate (length gs) GDone" by (rule pool_ends[OF r(1)])
    then show ?thesis using r assms(2,3) by (simp add: run_pool_def pm_ok_def)
  qed (simp add: run_pool_def pm_ok_def)
qed

end

section \<open>Handlers\<close>

definition reserve :: "('m, 'w) pm_env \<Rightarrow> ('m, 'w) ProcessManager \<Rightarrow> bool" where
  "reserve V pm \<longleftrightarrow> maxProcessNum pm \<le> int (size (all_users V pm {#}))"

lemma reserve_queue:
  "reserve V pm \<Longrightarrow> maxProcessNum pm - int (length (cached V pm)) \<le> int (length (queue (userQueue (userManager pm))))"
  by (simp add: reserve_def all_users_def pids_of_def)

lemma msum_const:
  "\<forall>x\<in>set xs. f (h x) = c \<Longrightarrow> msum f (mset (map h xs)) = length xs * (c::nat)"
  by (induction xs) auto

lemma msum_single:
  "\<forall>x\<in>set xs. target (h x) = {#t x#} \<Longrightarrow> msum target (mset (map h xs)) = mset (map t xs)"
  by (induction xs) auto

lemma msum_no_target: "\<forall>x\<in>set xs. target (h x) = {#} \<Longrightarrow> msum target (mset (map h xs)) = {#}"
  by (induction xs) auto

text \<open>What a request does after creating processes, given their number.\<close>

definition request_end ::
  "('m, 'w) pm_env \<Rightarrow> RequestGroupKey \<Rightarrow> int \<Rightarrow> ('m, 'w) ProcessManager \<Rightarrow>
   (('m, 'w) ProcessManager \<times> error option) go" where
  "request_end V k n pm =
     (if n = 0
      then (case lhm_Get (v_wait V) k (waitingRequestGroups pm) of
          None \<Rightarrow> Val (pm\<lparr>waitingRequestGroups := lhm_Put (v_wait V) k True (waitingRequestGroups pm)\<rparr>, None)
        | Some _ \<Rightarrow> Val (pm, None))
      else (case sendProcessReadyResp V n k pm of
          (pm1, None) \<Rightarrow> Val (pm1, None)
        | (pm1, Some e) \<Rightarrow> Val (pm1, Some (''failed to send process ready resp, '' @ e))))"

definition request_rest ::
  "('m, 'w) pm_env \<Rightarrow> RequestGroupKey \<Rightarrow> nat list \<Rightarrow> int \<Rightarrow> ('m, 'w) pool_state \<Rightarrow>
   (('m, 'w) ProcessManager \<times> error option) go" where
  "request_rest V k s2 num = (\<lambda>(pm1, got1).
     let need1 = num - got1; idleSize = lhm_Size (v_idle V) (idleProcesses pm1)
     in go_bind
       (if need1 > 0 \<and> idleSize > 0
        then (case peekIdleProcesses V (utils_Min need1 idleSize) pm1 of
            Inl e \<Rightarrow> Val (Inl (''failed to peek idle processes, '' @ e))
          | Inr pids \<Rightarrow> go_bind (run_pool V s2 (map (ChStart k) pids) pm1) (\<lambda>r. Val (Inr r)))
        else Val (Inr (pm1, 0)))
       (\<lambda>r. case r of
          Inl e \<Rightarrow> Val (pm1, Some e)
        | Inr (pm2, got2) \<Rightarrow>
            request_end V k (got1 + got2) pm2))"

context pm_world
begin

lemma avail: "getAvailableProcessNum V pm = maxProcessNum pm - int (length (cached V pm))"
  by (simp add: getAvailableProcessNum_def cached_def idle_entries_def idle.lhm_simps)

lemma idle_size: "lhm_Size (v_idle V) (idleProcesses pm) = int (length (idle_entries V pm))"
  by (simp add: idle_entries_def idle.lhm_simps)

lemma creating_pool:
  assumes inv: "pm_inv V pm" "reserve V pm" and n: "int (length ks) \<le> getAvailableProcessNum V pm"
      "unat (processCnt pm) + length ks < 2 ^ 64"
    and h: "\<And>k. k \<in> set ks \<Longrightarrow> h k \<in> {CrStart k, AnStart k} \<and> v_hasGroup V k"
  shows "pm_ok V pm (length ks) fst (run_pool V sched (map h ks) pm)"
proof -
  have e: "\<forall>k\<in>set ks. creating (h k) = 1 \<and> wants_user (h k) = 1 \<and> naming (h k) = 1 \<and> target (h k) = {#}"
    using h by fastforce
  have sums: "msum creating (mset (map h ks)) = length ks" "msum wants_user (mset (map h ks)) = length ks"
    "msum naming (mset (map h ks)) = length ks" "msum target (mset (map h ks)) = {#}"
    using msum_const[of ks creating h 1] msum_const[of ks wants_user h 1] msum_const[of ks naming h 1]
      msum_no_target[of ks h] e by (simp_all del: mset_map)
  have "pool_inv V pm (mset (map h ks))" "all_users V pm (mset (map h ks)) = all_users V pm {#}"
    by (rule start_pool[OF inv(1)];
        use h n reserve_queue[OF inv(2)] in \<open>(fastforce simp: avail sums simp del: mset_map)?\<close>)+
  then show ?thesis by (rule run_pool_ok) (simp add: sums del: mset_map)
qed

lemma target_pool:
  assumes inv: "pm_inv V pm" and d: "distinct (map t xs)" "set (map t xs) \<subseteq> snd ` set (idle_entries V pm)"
    and n: "unat (processCnt pm) + length xs < 2 ^ 64"
    and h: "\<And>x. x \<in> set xs \<Longrightarrow> h x = ClStart (t x) \<or> (\<exists>k. (h x = ChStart k (t x) \<or> h x = AiStart k (t x)) \<and> v_hasGroup V k)"
  shows "pm_ok V pm (length xs) fst (run_pool V sched (map h xs) pm)"
proof -
  have e: "\<forall>x\<in>set xs. creating (h x) = 0 \<and> wants_user (h x) = 0 \<and> naming (h x) \<le> 1 \<and> target (h x) = {#t x#}"
    using h by fastforce
  have sums: "msum creating (mset (map h xs)) = 0" "msum wants_user (mset (map h xs)) = 0"
    "msum target (mset (map h xs)) = mset (map t xs)"
    using msum_const[of xs creating h 0] msum_const[of xs wants_user h 0] msum_single[of xs h t] e
    by (simp_all del: mset_map)
  have nm: "msum naming (mset (map h xs)) \<le> length xs" using e by (induction xs) auto
  have "pool_inv V pm (mset (map h xs))" "all_users V pm (mset (map h xs)) = all_users V pm {#}"
    by (rule start_pool[OF inv(1)];
        use h n nm d inv_bounds[OF inv] in \<open>(fastforce simp: sums bounds_ok_def simp del: mset_map)?\<close>)+
  then show ?thesis by (rule run_pool_ok) (rule nm)
qed

lemma peek_idle:
  assumes inv: "pm_inv V pm" and n: "0 \<le> n" "n \<le> lhm_Size (v_idle V) (idleProcesses pm)"
  obtains pids where "peekIdleProcesses V n pm = Inr pids" "length pids = nat n" "distinct pids"
    "set pids \<subseteq> snd ` set (idle_entries V pm)"
proof -
  define pids where "pids = take (nat n) (map snd (idle_entries V pm))"
  have "peekIdleProcesses V n pm = Inr pids"
    using n by (simp add: peekIdleProcesses_def pids_def idle_entries_def)
  moreover have "length pids = nat n" using n by (simp add: pids_def idle_size)
  moreover have "distinct pids"
    using inv_distinct(2)[OF inv] by (simp add: pids_def cached_def)
  moreover have "set pids \<subseteq> snd ` set (idle_entries V pm)"
    using set_take_subset[of "nat n" "map snd (idle_entries V pm)"] by (auto simp: pids_def)
  ultimately show ?thesis by (rule that)
qed

lemma peek_waiting:
  assumes inv: "pm_inv V pm" and n: "0 \<le> n" "n \<le> lhm_Size (v_wait V) (waitingRequestGroups pm)"
  obtains ks where "peekWaitingRequestGroups V n pm = Inr ks" "length ks = nat n" "\<forall>k\<in>set ks. v_hasGroup V k"
proof -
  define ks where "ks = take (nat n) (map fst (lhm_Entries (v_wait V) (waitingRequestGroups pm)))"
  have "peekWaitingRequestGroups V n pm = Inr ks"
    using n by (simp add: peekWaitingRequestGroups_def ks_def)
  moreover have "length ks = nat n" using n by (simp add: ks_def wait.lhm_simps)
  moreover have "set ks \<subseteq> waiting_keys V pm"
    using set_take_subset[of "nat n" "map fst (lhm_Entries (v_wait V) (waitingRequestGroups pm))"]
    by (auto simp: ks_def waiting_keys_def)
  then have "\<forall>k\<in>set ks. v_hasGroup V k" using inv_known[OF inv] by (auto simp: known_groups_def)
  ultimately show ?thesis by (rule that)
qed

lemma frame_ok:
  assumes "pm_inv V pm" "idleProcesses pm' = idleProcesses pm" "busyProcesses pm' = busyProcesses pm"
    "processGroups pm' = processGroups pm" "procs pm' = procs pm" "nextPid pm' = nextPid pm"
    "processCnt pm' = processCnt pm" "userManager pm' = userManager pm"
    "maxProcessNum pm' = maxProcessNum pm" "requestScheduler pm' = requestScheduler pm"
    "waiting_keys V pm' \<subseteq> waiting_keys V pm \<union> {k. v_hasGroup V k}" "get r = pm'"
  shows "pm_ok V pm n get (Val r)"
  using pool_inv_cong[of V pm' pm "{#}"] assms by (simp add: pm_ok_def idle_entries_def)

lemma unwait_ok: "pm_inv V pm \<Longrightarrow> get r = removeFromWaitingGroup V k pm \<Longrightarrow> pm_ok V pm n get (Val r)"
  using unwait_inv[of pm "{#}" k] by (simp add: pm_ok_def)

lemma send_result_ok:
  assumes "pm_inv V pm"
  shows "pm_ok V pm n fst (case sendProcessReadyResp V c k pm of
     (pm3, None) \<Rightarrow> Val (pm3, None) | (pm3, Some e) \<Rightarrow> Val (pm3, Some (f e)))"
proof -
  obtain pm3 e where r: "sendProcessReadyResp V c k pm = (pm3, e)" by fastforce
  have "pm3 = fst (sendProcessReadyResp V c k pm)" by (simp add: r)
  then have "pm_inv V pm3" "all_users V pm3 {#} = all_users V pm {#}" "processCnt pm3 = processCnt pm"
    "maxProcessNum pm3 = maxProcessNum pm"
    using send_inv[OF assms, of c k] by simp_all
  then show ?thesis by (cases e) (simp_all add: r pm_ok_def)
qed

lemma put_waiting_ok:
  assumes "pm_inv V pm" "v_hasGroup V k"
  shows "pm_ok V pm n fst (Val (pm\<lparr>waitingRequestGroups := lhm_Put (v_wait V) k True (waitingRequestGroups pm)\<rparr>, e))"
proof -
  have "waiting_keys V (pm\<lparr>waitingRequestGroups := lhm_Put (v_wait V) k True (waitingRequestGroups pm)\<rparr>)
      = insert k (waiting_keys V pm)"
    by (simp add: waiting_keys_def wait.lhm_simps dom_update)
  then show ?thesis using assms by (intro frame_ok) auto
qed

lemma pm_ok_mono: "pm_ok V pm n get m \<Longrightarrow> n \<le> n' \<Longrightarrow> pm_ok V pm n' get m"
  by (fastforce simp: pm_ok_def)

lemma pm_ok_get: "pm_ok V pm n get m \<Longrightarrow> (\<And>r. get' (f r) = get r) \<Longrightarrow> pm_ok V pm n get' (go_bind m (\<lambda>r. Val (f r)))"
  by (cases m) (simp_all add: pm_ok_def)

lemma cached_limit: "pm_inv V pm \<Longrightarrow> int (length (cached V pm)) \<le> maxProcessNum pm"
  using inv_bounds[of V pm "{#}"] by (simp add: bounds_ok_def)

text \<open>The second half of a request: change idle processes for it.\<close>

lemma change_idle_ok:
  assumes inv: "pm_inv V pm" and k: "v_hasGroup V k" and cnt: "unat (processCnt pm) + nat (maxProcessNum pm) < 2 ^ 64"
  shows "pm_ok V pm (nat (maxProcessNum pm)) (\<lambda>r. case r of Inl e \<Rightarrow> pm | Inr (pm2, c) \<Rightarrow> pm2)
    (if need > 0 \<and> lhm_Size (v_idle V) (idleProcesses pm) > 0
     then (case peekIdleProcesses V (utils_Min need (lhm_Size (v_idle V) (idleProcesses pm))) pm of
         Inl e \<Rightarrow> Val (Inl (''failed to peek idle processes, '' @ e))
       | Inr pids \<Rightarrow> go_bind (run_pool V sched (map (ChStart k) pids) pm) (\<lambda>r. Val (Inr r)))
     else Val (Inr (pm, 0)))"
proof (cases "need > 0 \<and> lhm_Size (v_idle V) (idleProcesses pm) > 0")
  case True
  let ?n = "min need (lhm_Size (v_idle V) (idleProcesses pm))"
  obtain pids where pids: "peekIdleProcesses V ?n pm = Inr pids" "length pids = nat ?n" "distinct pids"
    "set pids \<subseteq> snd ` set (idle_entries V pm)"
    by (rule peek_idle[OF inv, of ?n]) (use True in simp_all)
  have "length pids \<le> nat (maxProcessNum pm)"
    using pids(2) cached_limit[OF inv] by (simp add: idle_size cached_def)
  moreover have "pm_ok V pm (length pids) fst (run_pool V sched (map (ChStart k) pids) pm)"
    by (rule target_pool[OF inv, where t = "\<lambda>p. p"]) (use pids k cnt calculation in auto)
  ultimately have "pm_ok V pm (nat (maxProcessNum pm)) fst (run_pool V sched (map (ChStart k) pids) pm)"
    by (rule pm_ok_mono[rotated])
  then show ?thesis unfolding utils_Min_eq using True pids(1) by (auto intro!: pm_ok_get)
next
  case False
  then show ?thesis using inv by (auto simp: pm_ok_def)
qed

lemma request_end_ok:
  assumes "pm_inv V pm" "v_hasGroup V k"
  shows "pm_ok V pm 0 fst (request_end V k n pm)"
proof (cases "n = 0")
  case True
  then show ?thesis using assms put_waiting_ok[OF assms]
    by (auto simp: request_end_def pm_okI split: option.split)
qed (use send_result_ok[OF assms(1)] in \<open>simp add: request_end_def\<close>)

lemma request_rest_ok:
  assumes inv: "pm_inv V pm" and k: "v_hasGroup V k" and cnt: "unat (processCnt pm) + nat (maxProcessNum pm) < 2 ^ 64"
  shows "pm_ok V pm (nat (maxProcessNum pm)) fst (request_rest V k s2 num (pm, got1))"
proof -
  have "pm_ok V pm (nat (maxProcessNum pm) + 0) fst (request_rest V k s2 num (pm, got1))"
    unfolding request_rest_def Let_def prod.case
  proof (rule pm_ok_bind[OF change_idle_ok[OF inv k cnt]])
    fix r :: "error + ('m, 'w) ProcessManager \<times> int"
    assume inv': "pm_inv V (case r of Inl e \<Rightarrow> pm | Inr (pm2, c) \<Rightarrow> pm2)"
    show "pm_ok V (case r of Inl e \<Rightarrow> pm | Inr (pm2, c) \<Rightarrow> pm2) 0 fst (case r of
        Inl e \<Rightarrow> Val (pm, Some e) | Inr (pm2, got2) \<Rightarrow> request_end V k (got1 + got2) pm2)"
    proof (cases r)
      case (Inr x)
      obtain pm2 got2 where x: "x = (pm2, got2)" by fastforce
      then have "pm_inv V pm2" using inv' Inr by simp
      then show ?thesis using request_end_ok[of pm2 k "got1 + got2"] k by (simp add: Inr x)
    qed (use inv' in \<open>simp add: pm_okI\<close>)
  qed
  then show ?thesis by simp
qed

lemma request_ok:
  assumes inv: "pm_inv V pm" and res: "reserve V pm" and k: "v_hasGroup V (req_key msg)"
    and n: "0 \<le> gpr_ProcessNum msg" and cnt: "unat (processCnt pm) + 2 * nat (maxProcessNum pm) < 2 ^ 64"
  shows "pm_ok V pm (2 * nat (maxProcessNum pm)) fst (handleGetProcessReq V s1 s2 msg pm)"
proof (cases "gpr_ProcessNum msg = 0")
  case True
  then show ?thesis by (auto simp: handleGetProcessReq_def intro: unwait_ok[OF inv])
next
  case False
  let ?k = "req_key msg" and ?m = "nat (maxProcessNum pm)"
  let ?avail = "getAvailableProcessNum V pm"
  define n1 where "n1 = (if ?avail > 0 then nat (min (gpr_ProcessNum msg) ?avail) else 0)"
  have n1: "int n1 \<le> ?avail" "n1 \<le> ?m"
    using n cached_limit[OF inv] by (auto simp: n1_def avail)
  have "pm_ok V pm n1 fst (run_pool V s1 (replicate n1 (CrStart ?k)) pm)"
    using creating_pool[OF inv res, of "replicate n1 ?k" CrStart s1] n1 cnt k by simp
  then have pool: "pm_ok V pm ?m fst (run_pool V s1 (replicate n1 (CrStart ?k)) pm)"
    using n1(2) by (rule pm_ok_mono)
  have "pm_ok V pm (?m + (?m + 0)) fst (go_bind (run_pool V s1 (replicate n1 (CrStart ?k)) pm) (request_rest V ?k s2 (gpr_ProcessNum msg)))"
  proof (rule pm_ok_bind[OF pool])
    fix r :: "('m, 'w) pool_state" assume "pm_inv V (fst r)" "maxProcessNum (fst r) = maxProcessNum pm"
      "unat (processCnt (fst r)) \<le> unat (processCnt pm) + ?m"
    then show "pm_ok V (fst r) (?m + 0) fst (request_rest V ?k s2 (gpr_ProcessNum msg) r)"
      using request_rest_ok[of "fst r" ?k s2 "gpr_ProcessNum msg" "snd r"] k cnt by simp
  qed
  moreover have "handleGetProcessReq V s1 s2 msg pm = go_bind (run_pool V s1 (replicate n1 (CrStart ?k)) pm)
      (request_rest V ?k s2 (gpr_ProcessNum msg))"
    using False n by (simp add: handleGetProcessReq_def Let_def n1_def request_rest_def request_end_def)
  ultimately have "pm_ok V pm (?m + ?m) fst (handleGetProcessReq V s1 s2 msg pm)" by simp
  then show ?thesis by (simp add: mult_2)
qed

lemma clean_ok:
  assumes inv: "pm_inv V pm" and cnt: "unat (processCnt pm) + nat (maxProcessNum pm) < 2 ^ 64"
  shows "pm_ok V pm (nat (maxProcessNum pm)) (\<lambda>r. r) (handleCleanIdleProcesses V sched pm)"
proof -
  let ?n = "min (v_releaseQuota V - getAvailableProcessNum V pm) (lhm_Size (v_idle V) (idleProcesses pm))"
  show ?thesis
  proof (cases "?n \<le> 0")
    case True
    then show ?thesis using inv by (simp add: handleCleanIdleProcesses_def Let_def pm_okI)
  next
    case False
    obtain pids where pids: "peekIdleProcesses V ?n pm = Inr pids" "length pids = nat ?n" "distinct pids"
      "set pids \<subseteq> snd ` set (idle_entries V pm)"
      by (rule peek_idle[OF inv, of ?n]) (use False in linarith, simp_all)
    have len: "length pids \<le> nat (maxProcessNum pm)"
      using pids(2) cached_limit[OF inv] by (simp add: idle_size cached_def)
    have pool: "pm_ok V pm (length pids) fst (run_pool V sched (map ClStart pids) pm)"
      by (rule target_pool[OF inv, where t = "\<lambda>p. p"]) (use pids cnt len in auto)
    have "pm_ok V pm (length pids + 0) (\<lambda>r. r) (go_bind (run_pool V sched (map ClStart pids) pm) (\<lambda>(pm1, actualNum).
        go_bind (if actualNum > 0 then chan_send (allocateNewCh pm1) else Val (allocateNewCh pm1))
                 (\<lambda>n. Val (startTimer V (pm1\<lparr>allocateNewCh := n\<rparr>)))))"
    proof (rule pm_ok_bind[OF pool])
      fix r :: "('m, 'w) pool_state" assume inv': "pm_inv V (fst r)"
      have sub: "pm_ok V (fst r) 0 (\<lambda>r. r) (Val (startTimer V (fst r\<lparr>allocateNewCh := n\<rparr>)))" for n
        by (rule frame_ok[OF inv']) (auto simp: startTimer_def waiting_keys_def Let_def split: prod.split)
      show "pm_ok V (fst r) 0 (\<lambda>r. r) (case r of (pm1, actualNum) \<Rightarrow>
        go_bind (if actualNum > 0 then chan_send (allocateNewCh pm1) else Val (allocateNewCh pm1))
                 (\<lambda>n. Val (startTimer V (pm1\<lparr>allocateNewCh := n\<rparr>))))"
        using sub[of "allocateNewCh (fst r) + 1"] sub[of "allocateNewCh (fst r)"]
        by (cases r) (auto simp: chan_send_def pm_ok_def)
    qed
    then have "pm_ok V pm (length pids) (\<lambda>r. r) (handleCleanIdleProcesses V sched pm)"
      using False pids(1) by (simp add: handleCleanIdleProcesses_def Let_def)
    then show ?thesis using len by (rule pm_ok_mono)
  qed
qed

lemma give_idle_ok:
  assumes inv: "pm_inv V pm" and cnt: "unat (processCnt pm) + nat (maxProcessNum pm) < 2 ^ 64"
  shows "pm_ok V pm (nat (maxProcessNum pm)) (\<lambda>r. r) (handleAllocateIdleProcesses V sched pm)"
proof -
  let ?n = "min (lhm_Size (v_wait V) (waitingRequestGroups pm)) (lhm_Size (v_idle V) (idleProcesses pm))"
  have n: "0 \<le> ?n" by (simp add: idle.Size_nonneg wait.Size_nonneg)
  obtain pids where pids: "peekIdleProcesses V ?n pm = Inr pids" "length pids = nat ?n" "distinct pids"
    "set pids \<subseteq> snd ` set (idle_entries V pm)"
    by (rule peek_idle[OF inv n]) simp_all
  obtain ks where ks: "peekWaitingRequestGroups V ?n pm = Inr ks" "length ks = nat ?n" "\<forall>k\<in>set ks. v_hasGroup V k"
    by (rule peek_waiting[OF inv n]) simp_all
  have len: "length pids \<le> nat (maxProcessNum pm)"
    using pids(2) cached_limit[OF inv] by (simp add: idle_size cached_def)
  have "pm_ok V pm (length (zip ks pids)) fst (run_pool V sched (map (\<lambda>(k, p). AiStart k p) (zip ks pids)) pm)"
    by (rule target_pool[OF inv, where t = snd]) (use pids ks cnt len in \<open>auto dest: set_zip_leftD\<close>)
  then have "pm_ok V pm (nat (maxProcessNum pm)) fst (run_pool V sched (map2 AiStart ks pids) pm)"
    by (rule pm_ok_mono) (use len in simp)
  then show ?thesis
    using inv pids(1) ks(1)
    by (auto simp: handleAllocateIdleProcesses_def Let_def pm_okI case_prod_beta' intro!: pm_ok_get)
qed

lemma give_new_ok:
  assumes inv: "pm_inv V pm" and res: "reserve V pm"
    and cnt: "unat (processCnt pm) + nat (maxProcessNum pm) < 2 ^ 64"
  shows "pm_ok V pm (nat (maxProcessNum pm)) (\<lambda>r. r) (handleAllocateNewProcesses V sched pm)"
proof -
  let ?n = "min (lhm_Size (v_wait V) (waitingRequestGroups pm)) (getAvailableProcessNum V pm)"
  have n: "0 \<le> ?n" using cached_limit[OF inv] by (simp add: wait.Size_nonneg avail)
  obtain ks where ks: "peekWaitingRequestGroups V ?n pm = Inr ks" "length ks = nat ?n" "\<forall>k\<in>set ks. v_hasGroup V k"
    by (rule peek_waiting[OF inv n]) simp_all
  have len: "int (length ks) \<le> getAvailableProcessNum V pm" "length ks \<le> nat (maxProcessNum pm)"
    using ks(2) n by (simp_all add: avail)
  have "pm_ok V pm (length ks) fst (run_pool V sched (map AnStart ks) pm)"
    by (rule creating_pool[OF inv res len(1)]) (use ks cnt len in auto)
  then have "pm_ok V pm (nat (maxProcessNum pm)) fst (run_pool V sched (map AnStart ks) pm)"
    by (rule pm_ok_mono) (use len in simp)
  then have "pm_ok V pm (nat (maxProcessNum pm)) (\<lambda>r. r) (go_bind (run_pool V sched (map AnStart ks) pm) (\<lambda>(pm1, n). Val pm1))"
    by (simp add: case_prod_beta' pm_ok_get)
  moreover have "\<not> ?n < 0" using n by linarith
  ultimately show ?thesis
    using inv by (cases "?n = 0") (simp_all add: handleAllocateNewProcesses_def Let_def ks(1) not_less pm_okI, linarith)
qed

lemma synced_known:
  assumes "pm_inv V pm" "(nm, pid) \<in> set (cached V pm)"
  obtains p where "map_of (procs pm) pid = Some p" "p_processName p = nm"
    "(key_str (proc_key p), nm, pid) \<in> groups_rel pm"
  using inv_synced[OF assms(1)] assms(2) by (auto simp: synced_def)

lemma exit_ok:
  assumes inv: "pm_inv V pm" and c: "(nm, pid) \<in> set (cached V pm)" and p: "map_of (procs pm) pid = Some p"
    and msg: "sem_ProcessName msg = nm" "rgk (sem_ChainID msg) (sem_ContractName msg) (sem_ContractVersion msg) = proc_key p"
  shows "pm_ok V pm 0 fst (handleSandboxExitMsg V msg pm)"
proof -
  obtain q where q: "map_of (procs pm) pid = Some q" "p_processName q = nm"
    "(key_str (proc_key q), nm, pid) \<in> groups_rel pm"
    by (rule synced_known[OF inv c])
  have inv1: "pool_inv V pm (add_mset GDone {#})" "all_users V pm (add_mset GDone {#}) = all_users V pm {#}"
    using inv done_gone[of V pm 1] by simp_all
  have "\<exists>pm'. closeSandbox V (proc_key q) nm pm = Val (pm', None) \<and> pool_inv V pm' (add_mset GDone {#}) \<and>
    all_users V pm' (add_mset GDone {#}) = all_users V pm (add_mset GDone {#})"
    by (rule close_step[OF inv1(1) _ _ _ q(1,2) refl c q(3)]) simp_all
  then obtain pm' where close: "closeSandbox V (proc_key q) nm pm = Val (pm', None)" "pm_inv V pm'"
    "all_users V pm' {#} = all_users V pm {#}"
    using inv1(2) done_gone[of V _ 1] by auto
  have "pm_ok V pm 0 fst (Val (pm'\<lparr>allocateNewCh := n\<rparr>, e))" for n and e :: "error option"
    using frame_ok[OF close(2), of "pm'\<lparr>allocateNewCh := n\<rparr>" fst "(pm'\<lparr>allocateNewCh := n\<rparr>, e)"]
      close(3) max_frame(4)[OF close(1)] cnt_ops(3)[OF close(1)]
    by (auto simp: pm_ok_def waiting_keys_def)
  then show ?thesis
    using p q(1) msg close(1) by (auto simp: handleSandboxExitMsg_def chan_send_def pm_ok_def)
qed

text \<open>Moving a process between the two caches.\<close>

lemma recache_inv:
  assumes inv: "pm_inv V pm" and c: "mset (cached V pm') = mset (cached V pm)"
    and same: "processGroups pm' = processGroups pm" "procs pm' = procs pm" "nextPid pm' = nextPid pm"
      "processCnt pm' = processCnt pm" "userManager pm' = userManager pm"
      "maxProcessNum pm' = maxProcessNum pm" "requestScheduler pm' = requestScheduler pm"
    and w: "waiting_keys V pm' \<subseteq> waiting_keys V pm"
  shows "pm_inv V pm'" "all_users V pm' {#} = all_users V pm {#}"
proof -
  have [simp]: "groups_rel pm' = groups_rel pm" "groups_ok pm' = groups_ok pm" "synced pm' = synced pm"
    "user_of pm' = user_of pm"
    using same groups_rel_cong[OF same(1)] by (simp_all add: groups_ok_def synced_def[abs_def] user_of_def[abs_def])
  have [simp]: "names_of V pm' {#} = names_of V pm {#}" "pids_of V pm' {#} = pids_of V pm {#}"
    using c by (simp_all add: names_of_def pids_of_def)
  have set: "set (cached V pm') = set (cached V pm)" "length (cached V pm') = length (cached V pm)"
    using mset_eq_setD[OF c] mset_eq_length[OF c] by simp_all
  show users: "all_users V pm' {#} = all_users V pm {#}" by (simp add: all_users_def same)
  have "caches_ok V pm' {#}"
    using invD[OF inv] by (simp add: caches_ok_def set same)
  moreover have "bounds_ok V pm' {#}" using inv_bounds[OF inv] by (simp add: bounds_ok_def set same users)
  moreover have "known_groups V pm' {#}" using inv_known[OF inv] w by (auto simp: known_groups_def)
  ultimately show "pm_inv V pm'" using inv_sched[OF inv] same by (simp add: pool_inv_def)
qed

lemma to_busy_ok:
  assumes inv: "pm_inv V pm"
  shows "pm_ok V pm 0 fst (ChangeProcessState V nm True pm)"
proof (cases "lhm_Get (v_idle V) nm (idleProcesses pm)")
  case None
  then show ?thesis using inv by (simp add: ChangeProcessState_def pm_okI)
next
  case (Some pid)
  then have c: "(nm, pid) \<in> set (idle_entries V pm)"
    by (auto simp: idle_entries_def idle.lhm_simps dest: map_of_SomeD)
  have d: "distinct (map fst (idle_entries V pm))" "nm \<notin> fst ` set (busyProcesses pm)"
    using inv_distinct(1)[OF inv] c by (force simp: cached_def rev_image_eqI)+
  let ?pm = "pm\<lparr>busyProcesses := busyProcesses pm @ [(nm, pid)],
    idleProcesses := lhm_Remove (v_idle V) nm (idleProcesses pm)\<rparr>"
  have "mset (cached V ?pm) = mset (cached V pm)"
    using mset_delete[OF d(1) c] by (simp add: cached_def idle_entries_def idle.lhm_simps)
  then have "pm_inv V ?pm" "all_users V ?pm {#} = all_users V pm {#}"
    by (rule recache_inv[OF inv]; simp)+
  then show ?thesis by (simp add: ChangeProcessState_def Some update_new[OF d(2)] pm_okI)
qed

lemma to_idle_ok:
  assumes inv: "pm_inv V pm"
  shows "pm_ok V pm 0 fst (ChangeProcessState V nm False pm)"
proof (cases "map_of (busyProcesses pm) nm")
  case None
  then show ?thesis using inv by (simp add: ChangeProcessState_def pm_okI)
next
  case (Some pid)
  then have c: "(nm, pid) \<in> set (busyProcesses pm)" by (rule map_of_SomeD)
  obtain p where p: "map_of (procs pm) pid = Some p"
    using synced_known[OF inv, of nm pid] c by (auto simp: cached_def)
  have d: "distinct (map fst (busyProcesses pm))" "nm \<notin> fst ` set (idle_entries V pm)"
    using inv_distinct(1)[OF inv] c by (force simp: cached_def rev_image_eqI)+
  define pm1 where "pm1 = pm\<lparr>idleProcesses := lhm_Put (v_idle V) nm pid (idleProcesses pm)\<rparr>"
  define pm2 where "pm2 = (case lhm_Get (v_wait V) (proc_key p) (waitingRequestGroups pm1) of
                  Some _ \<Rightarrow> removeFromWaitingGroup V (proc_key p) pm1 | None \<Rightarrow> pm1)"
  have idle: "idle_entries V pm2 = idle_entries V pm @ [(nm, pid)]" "busyProcesses pm2 = busyProcesses pm"
    using update_new[OF d(2)]
    by (auto simp: pm2_def pm1_def idle_entries_def idle.lhm_simps split: option.split)
  have w: "waiting_keys V pm2 \<subseteq> waiting_keys V pm"
    using unwait_keys[of "proc_key p" pm1] by (auto simp: pm2_def pm1_def split: option.split)
  have same: "processGroups pm2 = processGroups pm" "procs pm2 = procs pm" "nextPid pm2 = nextPid pm"
      "processCnt pm2 = processCnt pm" "userManager pm2 = userManager pm"
      "maxProcessNum pm2 = maxProcessNum pm" "requestScheduler pm2 = requestScheduler pm"
    by (simp_all add: pm2_def pm1_def split: option.split)
  have ok: "pm_ok V pm 0 fst (Val (pm2\<lparr>allocateIdleCh := n, busyProcesses := AList.delete nm (busyProcesses pm2)\<rparr>, None :: error option))" for n
  proof -
    let ?pm = "pm2\<lparr>allocateIdleCh := n, busyProcesses := AList.delete nm (busyProcesses pm2)\<rparr>"
    have "mset (cached V ?pm) = mset (cached V pm)"
      using mset_delete[OF d(1) c] idle by (simp add: cached_def idle_entries_def)
    then have "pm_inv V ?pm" "all_users V ?pm {#} = all_users V pm {#}"
      by (rule recache_inv[OF inv]; use w in \<open>simp add: same waiting_keys_def\<close>)+
    then show ?thesis by (simp add: pm_okI same)
  qed
  have "ChangeProcessState V nm False pm = go_bind (if lhm_Size (v_wait V) (waitingRequestGroups pm2) > 0
      then (if allocateIdleCh pm2 \<ge> processManagerEventChSize then Block
            else Val (pm2\<lparr>allocateIdleCh := allocateIdleCh pm2 + 1\<rparr>)) else Val pm2)
      (\<lambda>pm1. Val (pm1\<lparr>busyProcesses := AList.delete nm (busyProcesses pm1)\<rparr>, None))"
    by (simp only: ChangeProcessState_def addProcessToIdle_def Let_def Some p option.case if_False
        pm1_def[symmetric] pm2_def[symmetric])
  then show ?thesis
    using ok[of "allocateIdleCh pm2 + 1"] ok[of "allocateIdleCh pm2"] by (simp add: pm_ok_def)
qed

end

section \<open>Reachable managers\<close>

text \<open>
  A manager starts with at least as many users as it may have processes.  Between its own
  operations the processes go their ways (keeping name, contract and user), the other manager
  borrows and returns users from the shared pool, and the environment moves on: the scheduler
  learns of more request groups; its loop takes from the channels and the timer.  The name counter
  must not wrap around within the handler.
\<close>

definition room :: "('m, 'w) ProcessManager \<Rightarrow> bool" where
  "room pm \<longleftrightarrow> unat (processCnt pm) + 2 * nat (maxProcessNum pm) < 2 ^ 64"

definition exit_msg_of :: "Process \<Rightarrow> SandboxExitMsg \<Rightarrow> bool" where
  "exit_msg_of p msg \<longleftrightarrow> (\<exists>err. returnSandboxExitResp p err = [ToProcessManager msg])"

definition users_left :: "('m, 'w) pm_env \<Rightarrow> ('m, 'w) ProcessManager \<Rightarrow> UserManager \<Rightarrow> bool" where
  "users_left V pm um \<longleftrightarrow> waitForNextElementChan (userQueue um) = [] \<and>
     maxProcessNum pm \<le> int (length (queue (userQueue um)) + length (cached V pm)) \<and>
     length (queue (userQueue um)) + length (cached V pm) \<le> capacity (userQueue um)"

definition env_later :: "('m, 'w) pm_env \<Rightarrow> ('m, 'w) pm_env \<Rightarrow> bool" where
  "env_later V V' \<longleftrightarrow> v_idle V' = v_idle V \<and> v_wait V' = v_wait V \<and>
     (\<forall>pid. pe_sigErr (v_penv V' pid) = None) \<and> (\<forall>k. v_hasGroup V k \<longrightarrow> v_hasGroup V' k)"

inductive pm_reach :: "('m, 'w) pm_env \<Rightarrow> ('m, 'w) ProcessManager \<Rightarrow> bool" where
  pr_new: "\<lbrakk>\<forall>pid. pe_sigErr (v_penv V pid) = None; 0 \<le> mx; users_left V (NewProcessManager V mx orig um) um\<rbrakk> \<Longrightarrow>
     pm_reach V (SetScheduler (NewProcessManager V mx orig um))"
| pr_env: "\<lbrakk>pm_reach V pm; env_later V V'\<rbrakk> \<Longrightarrow> pm_reach V' pm"
| pr_users: "\<lbrakk>pm_reach V pm; users_left V pm um\<rbrakk> \<Longrightarrow> pm_reach V (pm\<lparr>userManager := um\<rparr>)"
| pr_proc: "\<lbrakk>pm_reach V pm; map_of (procs pm) pid = Some p; proc_inv p'; p_processName p' = p_processName p;
     proc_key p' = proc_key p; p_user p' = p_user p\<rbrakk> \<Longrightarrow>
     pm_reach V (pm\<lparr>procs := AList.update pid p' (procs pm)\<rparr>)"
| pr_request: "\<lbrakk>pm_reach V pm; room pm; v_hasGroup V (req_key msg); 0 \<le> gpr_ProcessNum msg;
     handleGetProcessReq V s1 s2 msg pm = Val (pm', e)\<rbrakk> \<Longrightarrow> pm_reach V pm'"
| pr_exit: "\<lbrakk>pm_reach V pm; (nm, pid) \<in> set (cached V pm); map_of (procs pm) pid = Some p;
     exit_msg_of p msg; handleSandboxExitMsg V msg pm = Val (pm', e)\<rbrakk> \<Longrightarrow> pm_reach V pm'"
| pr_clean: "\<lbrakk>pm_reach V pm; room pm; handleCleanIdleProcesses V s1 pm = Val pm'\<rbrakk> \<Longrightarrow> pm_reach V pm'"
| pr_give_idle: "\<lbrakk>pm_reach V pm; room pm; handleAllocateIdleProcesses V s1 pm = Val pm'\<rbrakk> \<Longrightarrow> pm_reach V pm'"
| pr_give_new: "\<lbrakk>pm_reach V pm; room pm; handleAllocateNewProcesses V s1 pm = Val pm'\<rbrakk> \<Longrightarrow> pm_reach V pm'"
| pr_state: "\<lbrakk>pm_reach V pm; ChangeProcessState V nm toBusy pm = Val (pm', e)\<rbrakk> \<Longrightarrow> pm_reach V pm'"
| pr_chan: "pm_reach V pm \<Longrightarrow> pm_reach V (pm\<lparr>cleanTimer := t, allocateIdleCh := i, allocateNewCh := n\<rparr>)"

context pm_world
begin

lemma new_inv:
  assumes "0 \<le> mx" "users_left V (NewProcessManager V mx orig um) um"
  shows "pm_inv V (SetScheduler (NewProcessManager V mx orig um))"
    and "reserve V (SetScheduler (NewProcessManager V mx orig um))"
proof -
  let ?pm = "SetScheduler (NewProcessManager V mx orig um)"
  have e: "cached V ?pm = []" "idle_entries V ?pm = []" "groups_rel ?pm = {}" "waiting_keys V ?pm = {}"
    "cached V (NewProcessManager V mx orig um) = []"
    by (simp_all add: cached_def idle_entries_def groups_rel_def waiting_keys_def SetScheduler_def
        NewProcessManager_def idle.lhm_simps wait.lhm_simps)
  then have n: "names_of V ?pm {#} = {#}" "pids_of V ?pm {#} = {#}" by (simp_all add: names_of_def pids_of_def)
  have sel: "procs ?pm = []" "processGroups ?pm = []" "processCnt ?pm = 0" "userManager ?pm = um"
    "maxProcessNum ?pm = mx" "requestScheduler ?pm" "maxProcessNum (NewProcessManager V mx orig um) = mx"
    by (simp_all add: SetScheduler_def NewProcessManager_def)
  have "caches_ok V ?pm {#}" by (simp add: caches_ok_def e n sel groups_ok_def)
  moreover have "bounds_ok V ?pm {#}"
    using assms by (simp add: bounds_ok_def e n sel all_users_def users_left_def)
  moreover have "known_groups V ?pm {#}" by (simp add: known_groups_def e)
  ultimately show "pm_inv V ?pm" by (simp add: pool_inv_def sel)
  show "reserve V ?pm" using assms(2) by (simp add: reserve_def all_users_def e n sel users_left_def)
qed

lemma users_inv:
  assumes inv: "pm_inv V pm" and um: "users_left V pm um"
  shows "pm_inv V (pm\<lparr>userManager := um\<rparr>)" "reserve V (pm\<lparr>userManager := um\<rparr>)"
proof -
  let ?pm = "pm\<lparr>userManager := um\<rparr>"
  have [simp]: "synced ?pm = synced pm" by (simp add: synced_def[abs_def])
  have [simp]: "names_of V ?pm {#} = names_of V pm {#}" "pids_of V ?pm {#} = pids_of V pm {#}"
    by (simp_all add: names_of_def pids_of_def)
  have sz: "size (all_users V ?pm {#}) = length (queue (userQueue um)) + length (cached V pm)"
    by (simp add: all_users_def pids_of_def)
  have "caches_ok V ?pm {#}" using invD[OF inv] by (simp add: caches_ok_def)
  moreover have "bounds_ok V ?pm {#}" using inv_bounds[OF inv] um sz by (simp add: bounds_ok_def users_left_def)
  moreover have "known_groups V ?pm {#}" using inv_known[OF inv] by (simp add: known_groups_def)
  ultimately show "pm_inv V ?pm" using inv_sched[OF inv] by (simp add: pool_inv_def)
  show "reserve V ?pm" using um sz by (simp add: reserve_def users_left_def)
qed

end

lemma env_inv:
  assumes "pm_inv V pm" "reserve V pm" "env_later V V'"
  shows "pm_inv V' pm" "reserve V' pm"
proof -
  have [simp]: "idle_entries V' pm = idle_entries V pm" "cached V' pm = cached V pm"
    "waiting_keys V' pm = waiting_keys V pm" "names_of V' pm {#} = names_of V pm {#}"
    "pids_of V' pm {#} = pids_of V pm {#}" "all_users V' pm {#} = all_users V pm {#}"
    using assms(3) by (simp_all add: env_later_def idle_entries_def cached_def waiting_keys_def names_of_def
        pids_of_def all_users_def)
  show "reserve V' pm" using assms(2) by (simp add: reserve_def)
  show "pm_inv V' pm"
    using assms(1,3) by (auto simp: pool_inv_def caches_ok_def bounds_ok_def known_groups_def env_later_def)
qed

lemma chan_inv:
  assumes "pm_inv V pm" "reserve V pm"
  shows "pm_inv V (pm\<lparr>cleanTimer := t, allocateIdleCh := i, allocateNewCh := n\<rparr>)"
    "reserve V (pm\<lparr>cleanTimer := t, allocateIdleCh := i, allocateNewCh := n\<rparr>)"
proof -
  let ?pm = "pm\<lparr>cleanTimer := t, allocateIdleCh := i, allocateNewCh := n\<rparr>"
  have [simp]: "groups_rel ?pm = groups_rel pm" "user_of ?pm = user_of pm" by (simp_all add: groups_rel_def user_of_def[abs_def])
  have [simp]: "synced ?pm = synced pm" by (simp add: synced_def[abs_def])
  have [simp]: "idle_entries V ?pm = idle_entries V pm" "cached V ?pm = cached V pm" "waiting_keys V ?pm = waiting_keys V pm"
    "names_of V ?pm {#} = names_of V pm {#}" "pids_of V ?pm {#} = pids_of V pm {#}" "all_users V ?pm {#} = all_users V pm {#}"
    by (simp_all add: idle_entries_def cached_def waiting_keys_def names_of_def pids_of_def all_users_def)
  show "reserve V ?pm" using assms(2) by (simp add: reserve_def)
  show "pm_inv V ?pm" using assms(1) by (auto simp: pool_inv_def caches_ok_def bounds_ok_def known_groups_def groups_ok_def)
qed

lemma pm_ok_reach:
  "pm_ok V pm n get (Val r) \<Longrightarrow> reserve V pm \<Longrightarrow> pm_inv V (get r) \<and> reserve V (get r)"
  by (auto simp: pm_ok_def reserve_def)

lemma pm_ok_no_panic: "pm_ok V pm n get m \<Longrightarrow> m \<noteq> Panic"
  by (auto simp: pm_ok_def)

lemma proc_inv_reserve:
  assumes "pm_inv V pm" "reserve V pm" "map_of (procs pm) pid = Some p" "proc_inv p'"
    "p_processName p' = p_processName p" "proc_key p' = proc_key p" "p_user p' = p_user p"
  shows "pm_inv V (pm\<lparr>procs := AList.update pid p' (procs pm)\<rparr>)"
    "reserve V (pm\<lparr>procs := AList.update pid p' (procs pm)\<rparr>)"
  using touch[OF assms(1,3-7) refl] assms(2) by (simp_all add: reserve_def)

lemma exit_msg_sel:
  "exit_msg_of p msg \<Longrightarrow> sem_ProcessName msg = p_processName p \<and>
     rgk (sem_ChainID msg) (sem_ContractName msg) (sem_ContractVersion msg) = proc_key p"
  by (auto simp: exit_msg_of_def returnSandboxExitResp_def proc_key_def)

context pm_world
begin

lemma exit_reach_ok:
  assumes inv: "pm_inv V pm" and c: "(nm, pid) \<in> set (cached V pm)" "map_of (procs pm) pid = Some p" "exit_msg_of p msg"
  shows "pm_ok V pm 0 fst (handleSandboxExitMsg V msg pm)"
proof -
  have "p_processName p = nm" using synced_known[OF inv c(1)] c(2) by (metis option.inject)
  then show ?thesis using exit_ok[OF inv c(1,2)] exit_msg_sel[OF c(3)] by simp
qed

end

lemma reach_inv_reserve:
  assumes "pm_reach V pm" "linkedhashmap (v_idle V)" "linkedhashmap (v_wait V)"
  shows "pm_world V \<and> pm_inv V pm \<and> reserve V pm"
  using assms
proof induction
  case (pr_new V mx orig um)
  then have w: "pm_world V" by (simp add: pm_world_def pm_world_axioms_def)
  then show ?case using pm_world.new_inv[OF w] pr_new by blast
next
  case (pr_env V pm V')
  then have "pm_world V \<and> pm_inv V pm \<and> reserve V pm" by (simp add: env_later_def)
  then show ?case
    using env_inv[of V pm V'] pr_env by (simp add: pm_world_def pm_world_axioms_def env_later_def)
next
  case (pr_users V pm um)
  then show ?case using pm_world.users_inv[of V pm um] by simp
next
  case (pr_proc V pm pid p p')
  then show ?case using proc_inv_reserve[of V pm pid p p'] by blast
next
  case (pr_request V pm msg s1 s2 pm' e)
  then show ?case
    using pm_world.request_ok[of V pm msg s1 s2] pm_ok_reach[of V pm _ fst "(pm', e)"] by (simp add: room_def)
next
  case (pr_exit V pm nm pid p msg pm' e)
  then show ?case
    using pm_world.exit_reach_ok[of V pm nm pid p msg] pm_ok_reach[of V pm _ fst "(pm', e)"] by simp
next
  case (pr_clean V pm s1 pm')
  then show ?case
    using pm_world.clean_ok[of V pm s1] pm_ok_reach[of V pm _ "\<lambda>r. r" pm'] by (simp add: room_def)
next
  case (pr_give_idle V pm s1 pm')
  then show ?case
    using pm_world.give_idle_ok[of V pm s1] pm_ok_reach[of V pm _ "\<lambda>r. r" pm'] by (simp add: room_def)
next
  case (pr_give_new V pm s1 pm')
  then show ?case
    using pm_world.give_new_ok[of V pm s1] pm_ok_reach[of V pm _ "\<lambda>r. r" pm'] by (simp add: room_def)
next
  case (pr_state V pm nm toBusy pm' e)
  then show ?case
    using pm_world.to_busy_ok[of V pm nm] pm_world.to_idle_ok[of V pm nm] pm_ok_reach[of V pm _ fst "(pm', e)"]
    by (cases toBusy) auto
next
  case (pr_chan V pm n i t)
  then show ?case using chan_inv[of V pm] by simp
qed

text \<open>
  The loop stays among the reachable managers, if its messages are requests for known groups and
  exits of cached processes and the name counter does not wrap around.
\<close>

definition pm_msg_ok :: "('m, 'w) pm_env \<Rightarrow> ('m, 'w) ProcessManager \<Rightarrow> pm_msg \<Rightarrow> bool" where
  "pm_msg_ok V pm msg = (case msg of
       PmGetProcess m \<Rightarrow> v_hasGroup V (req_key m) \<and> 0 \<le> gpr_ProcessNum m
     | PmSandboxExit m \<Rightarrow> (\<exists>nm pid p. (nm, pid) \<in> set (cached V pm) \<and> map_of (procs pm) pid = Some p \<and> exit_msg_of p m)
     | PmUnknown \<Rightarrow> True)"

lemma pm_event_reach:
  assumes "pm_reach V pm" "room pm" "pm_msg_ok V pm msg" "pm_event V s1 s2 msg pm = Val pm'"
  shows "pm_reach V pm'"
proof (cases msg)
  case (PmGetProcess m)
  with assms show ?thesis by (auto simp: pm_event_def pm_msg_ok_def intro: pr_request)
next
  case (PmSandboxExit m)
  with assms show ?thesis by (auto simp: pm_event_def pm_msg_ok_def intro: pr_exit)
qed (use assms in \<open>simp add: pm_event_def\<close>)

lemma pm_loop_reach:
  assumes "pm_reach V (pr_manager r)" "room (pr_manager r)" "pm_loop V s1 s2 sel r = Some (Val r')"
    and "\<forall>msg \<in> set (pm_eventCh r). pm_msg_ok V (pr_manager r) msg"
  shows "pm_reach V (pr_manager r')"
proof -
  let ?pm = "pr_manager r"
  have take: "pm_reach V (?pm\<lparr>cleanTimer := t\<rparr>)" "pm_reach V (?pm\<lparr>allocateIdleCh := i\<rparr>)" "pm_reach V (?pm\<lparr>allocateNewCh := i\<rparr>)"
    "room (?pm\<lparr>cleanTimer := t\<rparr>)" "room (?pm\<lparr>allocateIdleCh := i\<rparr>)" "room (?pm\<lparr>allocateNewCh := i\<rparr>)" for t i
    using pr_chan[OF assms(1), of "allocateNewCh ?pm" "allocateIdleCh ?pm" t] pr_chan[OF assms(1), of "allocateNewCh ?pm" i "cleanTimer ?pm"]
      pr_chan[OF assms(1), of i "allocateIdleCh ?pm" "cleanTimer ?pm"] assms(2) by (simp_all add: room_def)
  show ?thesis
  proof (cases sel)
    case PmSelEvent
    with assms show ?thesis by (auto simp: pm_loop_def Let_def split: list.splits intro: pm_event_reach)
  qed (use assms(3) take in \<open>auto simp: pm_loop_def Let_def split: if_splits
      dest: pr_clean[rotated 2] pr_give_idle[rotated 2] pr_give_new[rotated 2]\<close>)
qed

section \<open>A concrete manager\<close>

definition sample_pm_env :: "((string \<times> nat) list, (RequestGroupKey \<times> bool) list) pm_env" where
  "sample_pm_env = \<lparr>v_idle = alist_lhm, v_wait = alist_lhm, v_cfg = setDefaultConfigs, v_hasGroup = (\<lambda>k. True),
     v_penv = (\<lambda>pid. sample_env), v_releaseQuota = 1, v_thread = 0\<rparr>"

interpretation alist_world: pm_world sample_pm_env
  by unfold_locales (simp_all add: sample_pm_env_def alist_lhm_def sample_env_def)

definition sample_um :: UserManager where
  "sample_um = \<lparr>userQueue = \<lparr>queue = [NewUser 1, NewUser 2], capacity = 2, waitForNextElementChan = []\<rparr>, userNum = 2\<rparr>"

definition sample_req :: GetProcessReqMsg where
  "sample_req = \<lparr>gpr_ChainID = ''chain1'', gpr_ContractName = ''asset'', gpr_ContractVersion = ''v1'', gpr_ProcessNum = 3\<rparr>"

definition sample_pm0 :: "((string \<times> nat) list, (RequestGroupKey \<times> bool) list) ProcessManager" where
  "sample_pm0 = SetScheduler (NewProcessManager sample_pm_env 2 True sample_um)"

definition sample_pm :: "((string \<times> nat) list, (RequestGroupKey \<times> bool) list) ProcessManager" where
  "sample_pm = (case handleGetProcessReq sample_pm_env [1, 0, 1] [] sample_req sample_pm0 of
     Val (pm, e) \<Rightarrow> pm | _ \<Rightarrow> sample_pm0)"

lemma sample_pm_val:
  "(case handleGetProcessReq sample_pm_env [1, 0, 1] [] sample_req sample_pm0 of Val (pm, e) \<Rightarrow> True | _ \<Rightarrow> False) \<and>
   map snd (cached sample_pm_env sample_pm) = [0, 1] \<and> processCnt sample_pm = 2 \<and> maxProcessNum sample_pm = 2"
  by code_simp

lemma sample_pm0_reach: "pm_reach sample_pm_env sample_pm0"
  unfolding sample_pm0_def
  by (rule pr_new) (simp_all add: sample_pm_env_def sample_env_def users_left_def NewProcessManager_def
      sample_um_def cached_def idle_entries_def alist_lhm_def)

lemma sample_pm_reach: "pm_reach sample_pm_env sample_pm"
proof (cases "handleGetProcessReq sample_pm_env [1, 0, 1] [] sample_req sample_pm0")
  case (Val r)
  obtain pm e where r: "r = (pm, e)" by fastforce
  have g: "v_hasGroup sample_pm_env (req_key sample_req)" and n: "0 \<le> gpr_ProcessNum sample_req"
    by (simp_all add: sample_pm_env_def sample_req_def)
  have "room sample_pm0" by (simp add: room_def sample_pm0_def SetScheduler_def NewProcessManager_def)
  then show ?thesis
    using pr_request[OF sample_pm0_reach _ g n Val[unfolded r]] by (simp only: sample_pm_def Val r go.case prod.case)
qed (use sample_pm_val in auto)

section \<open>Properties\<close>








text \<open>
  C22: \<open>ChangeSandbox\<close> renames the process before it signals the sandbox and does not take the
  new name back when the signal fails.  The manager keeps the process under its old name, so the
  exit message the process sends later names a process the manager does not know, and handling
  it panics (\<open>releaseUser\<close> uses the missing process).
\<close>

theorem failed_change_panics_manager:
  assumes p: "map_of (procs pm) pid = Some p" "p_processState p = idle" "p_cmdReadyCh p = 1" "p_cmd p"
    and "v_hasGroup V k" "pe_sigErr (v_penv V pid) = Some e" and new: "getProcessByName V nm pm = None"
  shows "\<exists>pm' p' err. change_sandbox V pid k nm pm = Val (pm', Some err) \<and> map_of (procs pm') pid = Some p' \<and>
    (\<forall>msg. exit_msg_of p' msg \<longrightarrow> handleSandboxExitMsg V msg pm' = Panic)"
proof -
  define en where "en = (v_penv V pid)\<lparr>pe_groupOk := v_hasGroup V k\<rparr>"
  have en: "pe_groupOk en" "pe_sigErr en = Some e" using assms by (simp_all add: en_def)
  obtain p' out err where c: "ChangeSandbox (v_cfg V) en (rgk_ChainID k) (rgk_ContractName k)
      (rgk_ContractVersion k) nm p = Val (p', out, Some err)" "p_processName p' = nm"
    using p en by (simp add: ChangeSandbox_def resetContext_def killProcess_def Let_def)
  let ?pm = "pm\<lparr>procs := AList.update pid p' (procs pm)\<rparr>"
  have "change_sandbox V pid k nm pm = Val (?pm, Some err)" "map_of (procs ?pm) pid = Some p'"
    using p(1) c(1) by (simp_all add: change_sandbox_def on_proc_def en_def)
  moreover have "getProcessByName V nm ?pm = None"
    using new by (cases "lhm_Get (v_idle V) nm (idleProcesses pm)") (simp_all add: getProcessByName_def)
  then have "handleSandboxExitMsg V msg ?pm = Panic" if "exit_msg_of p' msg" for msg
    using exit_msg_sel[OF that] c(2) by (simp add: handleSandboxExitMsg_def closeSandbox_def pm_releaseUser_def)
  ultimately show ?thesis by blast
qed

definition sample_idle :: Process where
  "sample_idle = (sample_busy ''save'')\<lparr>p_processState := idle\<rparr>"

theorem failed_change_panics_manager_witness:
  "\<exists>pm' p' err. change_sandbox (sample_pm_env\<lparr>v_penv := \<lambda>pid. sample_env\<lparr>pe_sigErr := Some ''gone''\<rparr>\<rparr>) 7
      (rgk ''chain1'' ''other'' ''v1'') ''new'' (sample_pm\<lparr>procs := [(7, sample_idle)], idleProcesses := [(''p'', 7)],
        busyProcesses := []\<rparr>) = Val (pm', Some err) \<and> map_of (procs pm') 7 = Some p' \<and>
    (\<forall>msg. exit_msg_of p' msg \<longrightarrow>
       handleSandboxExitMsg (sample_pm_env\<lparr>v_penv := \<lambda>pid. sample_env\<lparr>pe_sigErr := Some ''gone''\<rparr>\<rparr>) msg pm' = Panic)"
proof (rule failed_change_panics_manager)
  show "p_cmdReadyCh sample_idle = 1" "p_cmd sample_idle"
    using sample_busy_run[of "''save''"] reach_inv[OF sample_busy_reach, of "''save''"]
    by (simp_all add: sample_idle_def proc_inv_def)
qed (simp_all add: sample_pm_env_def sample_idle_def getProcessByName_def alist_lhm_def)

end
