(* ===== verification/Engine_Manager.thy ===== *)
theory Engine_Manager
  imports Engine_Rpc Pm_Handlers
begin

text \<open>
  The start of the contract engine: the two servers of \<open>vm_mgr/module/rpc\<close>, the security settings of
  \<open>vm_mgr/module/security\<close>, and \<open>vm_mgr/module/manager.go\<close>, which makes the components and wires them.
  Logging is left out, and of the servers' options those that depend on the configuration are kept.
\<close>

section \<open>Servers\<close>

definition ChainRPCDir :: string where "ChainRPCDir = ''contract-engine-sock''"
definition ChainRPCSockName :: string where "ChainRPCSockName = ''chain.sock''"

record rpc_server =
  rpc_Listener :: "listener option"
  rpc_Server :: "server_opts option"
  rpc_serving :: bool

function CreateUnixListener :: "net_env \<Rightarrow> string \<Rightarrow> disk \<Rightarrow> disk \<times> listener res" where
  "CreateUnixListener en sockPath d = (case ListenUnix en sockPath d of
       Inl _ \<Rightarrow> (case os_Remove en sockPath d of
           Inl _ \<Rightarrow> (d, Inl (''failed to remove '' @ sockPath))
         | Inr d' \<Rightarrow> CreateUnixListener en sockPath d')
     | Inr d' \<Rightarrow> (case fs_chmodErr (ne_fs en) sockPath of
           Some _ \<Rightarrow> (d', Inl (''failed to chmod '' @ sockPath))
         | None \<Rightarrow> (d', Inr (UnixListener sockPath))))"
  by pat_completeness auto
termination
  by (relation "measure (\<lambda>(en, p, d). if map_of d p = None then 0 else 1)") (auto dest!: os_Remove_gone)

declare CreateUnixListener.simps [simp del]

text \<open>It succeeds on the same inputs as the runtime's copy, with the same listener and disk.\<close>

lemma CreateUnixListener_iff: "CreateUnixListener en p d = (d', Inr l) \<longleftrightarrow> createUnixListener en p d = (d', Inr l)"
proof (induction en p d rule: CreateUnixListener.induct)
  case (1 en p d)
  then show ?case
    by (subst CreateUnixListener.simps, subst createUnixListener.simps)
      (auto split: sum.splits option.splits)
qed

definition conf_opts :: "conf \<Rightarrow> server_opts" where
  "conf_opts cfg = \<lparr>so_MaxSendMsgSize = MaxSendMsgSize (RPC cfg) * 1024 * 1024,
     so_MaxRecvMsgSize = MaxRecvMsgSize (RPC cfg) * 1024 * 1024\<rparr>"

definition new_server :: "conf \<Rightarrow> listener \<Rightarrow> rpc_server" where
  "new_server cfg l = \<lparr>rpc_Listener = Some l, rpc_Server = Some (conf_opts cfg), rpc_serving = False\<rparr>"

definition NewChainRPCServer :: "conf \<Rightarrow> net_env \<Rightarrow> disk \<Rightarrow> disk \<times> rpc_server res" where
  "NewChainRPCServer cfg en d =
     (if ChainRPCProtocol (RPC cfg) = TCP then
        (let endPoint = '':'' @ Itoa (ChainRPCPort (RPC cfg))
         in case ne_tcpErr en endPoint of
              Some err \<Rightarrow> (d, Inl (''failed to listen tcp, '' @ err))
            | None \<Rightarrow> (d, Inr (new_server cfg (TCPListener endPoint))))
      else
        (let sockDir = filepath_Join [DockerMountDir, ChainRPCDir]; path = filepath_Join [sockDir, ChainRPCSockName]
         in case CreateDir (ne_fs en) sockDir d of
              (d1, Some _) \<Rightarrow> (d1, Inl (''failed to create chain rpc sock dir '' @ sockDir))
            | (d1, None) \<Rightarrow> (case CreateUnixListener en path d1 of
                  (d2, Inl err) \<Rightarrow> (d2, Inl (''failed to create unix listener, '' @ err))
                | (d2, Inr l) \<Rightarrow> (d2, Inr (new_server cfg l)))))"

definition NewSandboxRPCServer :: "conf \<Rightarrow> net_env \<Rightarrow> string \<Rightarrow> disk \<Rightarrow> disk \<times> rpc_server res" where
  "NewSandboxRPCServer cfg en sockDir d =
     (case CreateDir (ne_fs en) sockDir d of
        (d1, Some _) \<Rightarrow> (d1, Inl (''failed to create sandbox sock dir '' @ sockDir))
      | (d1, None) \<Rightarrow> (case CreateUnixListener en (filepath_Join [sockDir, SandboxRPCSockName]) d1 of
            (d2, Inl err) \<Rightarrow> (d2, Inl (''failed to create unix listener, '' @ err))
          | (d2, Inr l) \<Rightarrow> (d2, Inr (new_server cfg l))))"

definition start_server :: "rpc_server \<Rightarrow> rpc_server \<times> error option" where
  "start_server s =
     (if rpc_Listener s = None then (s, Some ''nil listener'')
      else if rpc_Server s = None then (s, Some ''nil server'')
      else (s\<lparr>rpc_serving := True\<rparr>, None))"

definition StartChainRPCServer :: "rpc_server \<Rightarrow> rpc_server \<times> error option" where
  "StartChainRPCServer s = start_server s"

definition StartSandboxRPCServer :: "rpc_server \<Rightarrow> rpc_server \<times> error option" where
  "StartSandboxRPCServer s = start_server s"

definition stop_server :: "rpc_server \<Rightarrow> rpc_server" where
  "stop_server s = (if rpc_Server s \<noteq> None then s\<lparr>rpc_serving := False\<rparr> else s)"

section \<open>Security settings\<close>

definition CGroupRoot :: string where "CGroupRoot = ''/sys/fs/cgroup/memory/chainmaker''"
definition MemoryLimitFile :: string where "MemoryLimitFile = ''memory.limit_in_bytes''"
definition SwapLimitFile :: string where "SwapLimitFile = ''memory.swappiness''"
definition RssLimit :: int where "RssLimit = 50000"
definition ipcPath :: string where "ipcPath = ''/proc/sys/kernel''"
definition ipcFiles :: string where "ipcFiles = ''shmmax,shmall,msgmax,msgmnb,msgmni''"
definition ipcSemFile :: string where "ipcSemFile = ''sem''"

text \<open>The files are written one after the other, up to the first failure.\<close>

fun write_files :: "fs_env \<Rightarrow> (string \<times> string) list \<Rightarrow> disk \<Rightarrow> disk \<times> error option" where
  "write_files en [] d = (d, None)"
| "write_files en ((path, v) # ws) d = (case WriteToFile en path v d of
       (d', Some err) \<Rightarrow> (d', Some err)
     | (d', None) \<Rightarrow> write_files en ws d')"

definition setMemoryList :: "fs_env \<Rightarrow> disk \<Rightarrow> disk \<times> error option" where
  "setMemoryList en d = write_files en
     [(filepath_Join [CGroupRoot, MemoryLimitFile], Itoa (RssLimit * 1024 * 1024)),
      (filepath_Join [CGroupRoot, SwapLimitFile], ''0'')] d"

definition setCGroup :: "fs_env \<Rightarrow> disk \<Rightarrow> disk \<times> error option" where
  "setCGroup en d =
     (case (if fs_statErr en CGroupRoot = None \<and> map_of d CGroupRoot = None then os_Mkdir en CGroupRoot d else (d, None)) of
        (d1, Some err) \<Rightarrow> (d1, Some err)
      | (d1, None) \<Rightarrow> setMemoryList en d1)"

definition disableIPC :: "fs_env \<Rightarrow> disk \<Rightarrow> disk \<times> error option" where
  "disableIPC en d = write_files en
     (map (\<lambda>f. (filepath_Join [ipcPath, f], ''0'')) (go_split CHR '','' ipcFiles) @
      [(filepath_Join [ipcPath, ipcSemFile], ''0 0 0 0'')]) d"

definition InitSecurityCenter :: "fs_env \<Rightarrow> disk \<Rightarrow> disk \<times> error option" where
  "InitSecurityCenter en d = (case fs_chmodErr en ''/tmp/'' of
       Some err \<Rightarrow> (d, Some err)
     | None \<Rightarrow> (case setCGroup en d of
         (d1, Some err) \<Rightarrow> (d1, Some err)
       | (d1, None) \<Rightarrow> disableIPC en d1))"

section \<open>The manager\<close>

text \<open>
  Both process managers hold a reference to the one user manager, \<open>m_userController\<close>; the field of the
  process managers is what they see of it.
\<close>

record ('m, 'w) ManagerImpl =
  m_chainRPCServer :: rpc_server
  m_sandboxRPCServer :: rpc_server
  m_chainService :: ChainRPCService
  m_scheduler :: "RequestScheduler option"
  m_contractManager :: ContractManager
  m_userController :: UserManager
  m_orig :: "('m, 'w) ProcessManager"
  m_cross :: "('m, 'w) ProcessManager"

definition maxCrossProcessNum :: "chain_consts \<Rightarrow> conf \<Rightarrow> int" where
  "maxCrossProcessNum K cfg = MaxOriginalProcessNum (Process_conf cfg) * uint (CallContractDepth K)"

text \<open>Up to the start of the servers, when the scheduler is not made yet.\<close>

definition start_servers ::
  "chain_consts \<Rightarrow> ('m, 'w) pm_env \<Rightarrow> ('m, 'w) pm_env \<Rightarrow> cm_env \<Rightarrow> net_env \<Rightarrow> conf \<Rightarrow> disk \<Rightarrow> disk \<times> ('m, 'w) ManagerImpl res" where
  "start_servers K V W ce en cfg d =
     (let usersManager = NewUsersManager K cfg
      in case NewContractManager ce d of
           (d1, Inl err) \<Rightarrow> (d1, Inl (''failed to new contract manager, '' @ err))
         | (d1, Inr contractManager) \<Rightarrow>
             (let orig = NewProcessManager V (MaxOriginalProcessNum (Process_conf cfg)) True usersManager;
                  cross = NewProcessManager W (maxCrossProcessNum K cfg) False usersManager
              in case NewChainRPCServer cfg en d1 of
                   (d2, Inl err) \<Rightarrow> (d2, Inl (''failed to init new ChainRPCServer, '' @ err))
                 | (d2, Inr chainServer) \<Rightarrow> (case NewSandboxRPCServer cfg en SandboxRPCDir d2 of
                       (d3, Inl err) \<Rightarrow> (d3, Inl (''failed to init new SandboxRPCServer, '' @ err))
                     | (d3, Inr sandboxServer) \<Rightarrow> (case StartChainRPCServer chainServer of
                           (_, Some err) \<Rightarrow> (d3, Inl (''failed to start ChainRPCService, '' @ err))
                         | (chainServer, None) \<Rightarrow> (case StartSandboxRPCServer sandboxServer of
                               (_, Some err) \<Rightarrow> (d3, Inl (''failed to start SandboxRPCService, '' @ err))
                             | (sandboxServer, None) \<Rightarrow> (d3, Inr \<lparr>m_chainRPCServer = chainServer, m_sandboxRPCServer = sandboxServer,
                                 m_chainService = NewChainRPCService, m_scheduler = None, m_contractManager = contractManager,
                                 m_userController = usersManager, m_orig = orig, m_cross = cross\<rparr>))))))"

definition wire_scheduler :: "('m, 'w) ManagerImpl \<Rightarrow> ('m, 'w) ManagerImpl" where
  "wire_scheduler m = m\<lparr>m_scheduler := Some NewRequestScheduler, m_orig := SetScheduler (m_orig m), m_cross := SetScheduler (m_cross m),
     m_contractManager := cm_SetScheduler (m_contractManager m), m_chainService := ch_SetScheduler (m_chainService m)\<rparr>"

definition NewManager ::
  "chain_consts \<Rightarrow> ('m, 'w) pm_env \<Rightarrow> ('m, 'w) pm_env \<Rightarrow> cm_env \<Rightarrow> net_env \<Rightarrow> conf \<Rightarrow> disk \<Rightarrow> disk \<times> ('m, 'w) ManagerImpl res" where
  "NewManager K V W ce en cfg d = (case start_servers K V W ce en cfg d of
       (d', Inl err) \<Rightarrow> (d', Inl err)
     | (d', Inr m) \<Rightarrow> (d', Inr (wire_scheduler m)))"

definition StopManager :: "('m, 'w) ManagerImpl \<Rightarrow> ('m, 'w) ManagerImpl" where
  "StopManager m = m\<lparr>m_chainRPCServer := stop_server (m_chainRPCServer m), m_sandboxRPCServer := stop_server (m_sandboxRPCServer m)\<rparr>"

text \<open>
  \<open>InitContainer\<close> sets up the security, makes the users in a goroutine of its own, \<open>init_users\<close>, and
  waits for an error.  The goroutine reports none, so that only the security setup can end the wait:
  then the servers are stopped.
\<close>

definition init_users ::
  "chain_consts \<Rightarrow> conf \<Rightarrow> (int \<Rightarrow> bool) \<Rightarrow> (int \<Rightarrow> bool list) \<Rightarrow> int list \<Rightarrow> ('m, 'w) ManagerImpl \<Rightarrow> ('m, 'w) ManagerImpl go" where
  "init_users K cfg known cmds order m =
     go_bind (BatchCreateUsers K cfg known cmds order (m_userController m)) (\<lambda>(um, n). Val (m\<lparr>m_userController := um\<rparr>))"

definition InitContainer :: "fs_env \<Rightarrow> ('m, 'w) ManagerImpl \<Rightarrow> disk \<Rightarrow> disk \<times> ('m, 'w) ManagerImpl \<times> error option" where
  "InitContainer en m d = (case InitSecurityCenter en d of
       (d', Some err) \<Rightarrow> (d', StopManager m, Some err)
     | (d', None) \<Rightarrow> (d', m, None))"

section \<open>The engine as it starts\<close>

definition engine_of :: "('m, 'w) ManagerImpl \<Rightarrow> engine option" where
  "engine_of m = map_option (\<lambda>s. \<lparr>e_sched = s, e_cm = m_contractManager m, e_chain = [], e_reqs = [], e_taken = []\<rparr>) (m_scheduler m)"

lemma start_servers_cases:
  assumes "start_servers K V W ce en cfg d = (d', Inr m)"
  shows "\<exists>d1 cm. NewContractManager ce d = (d1, Inr cm) \<and> m_contractManager m = cm"
    "m_userController m = NewUsersManager K cfg" "m_chainService m = NewChainRPCService"
    "m_orig m = NewProcessManager V (MaxOriginalProcessNum (Process_conf cfg)) True (NewUsersManager K cfg)"
    "m_cross m = NewProcessManager W (maxCrossProcessNum K cfg) False (NewUsersManager K cfg)"
    "rpc_serving (m_chainRPCServer m)" "rpc_serving (m_sandboxRPCServer m)"
  using assms by (auto simp: start_servers_def StartChainRPCServer_def StartSandboxRPCServer_def start_server_def Let_def
    split: prod.splits sum.splits option.splits if_splits)

lemma NewManager_cases:
  assumes "NewManager K V W ce en cfg d = (d', Inr m)"
  obtains m0 where "start_servers K V W ce en cfg d = (d', Inr m0)" "m = wire_scheduler m0"
  using assms by (auto simp: NewManager_def split: prod.splits sum.splits)

lemma NewManager_limits:
  assumes "NewManager K V W ce en cfg d = (d', Inr m)"
  shows "maxProcessNum (m_orig m) = MaxOriginalProcessNum (Process_conf cfg)" "maxProcessNum (m_cross m) = maxCrossProcessNum K cfg"
proof -
  obtain m0 where m0: "start_servers K V W ce en cfg d = (d', Inr m0)" "m = wire_scheduler m0" by (rule NewManager_cases[OF assms])
  then show "maxProcessNum (m_orig m) = MaxOriginalProcessNum (Process_conf cfg)" "maxProcessNum (m_cross m) = maxCrossProcessNum K cfg"
    using start_servers_cases(4,5)[OF m0(1)] by (simp_all add: wire_scheduler_def SetScheduler_def NewProcessManager_def)
qed

lemma filled_pool:
  assumes "mset order = mset (uids K cfg)" "\<forall>uid\<in>set order. known uid \<or> True \<in> set (cmds uid)" "m_userController m = NewUsersManager K cfg"
  shows "\<exists>um. init_users K cfg known cmds order m = Val (m\<lparr>m_userController := um\<rparr>) \<and> waitForNextElementChan (userQueue um) = [] \<and>
    length (queue (userQueue um)) = nat (GetMaxUserNum K cfg) \<and> capacity (userQueue um) = nat (GetMaxUserNum K cfg)"
proof -
  have "length order = nat (GetMaxUserNum K cfg)" using mset_eq_length[OF assms(1)] by simp
  then show ?thesis
    using createUsers_ok[OF assms(2), of "NewUsersManager K cfg"] assms(3)
    by (intro exI[of _ "(NewUsersManager K cfg)\<lparr>userQueue := (NewFixedFIFO (nat (GetMaxUserNum K cfg)))\<lparr>queue := map NewUser order\<rparr>\<rparr>"])
      (simp add: init_users_def BatchCreateUsers_def NewUsersManager_def NewFixedFIFO_def)
qed

lemma users_split: "GetMaxUserNum K cfg = MaxOriginalProcessNum (Process_conf cfg) + maxCrossProcessNum K cfg"
  by (simp add: GetMaxUserNum_def maxCrossProcessNum_def algebra_simps)

lemma new_manager_reach:
  assumes "linkedhashmap (v_idle V)" "\<forall>pid. pe_sigErr (v_penv V pid) = None" "0 \<le> mx" "mx \<le> int (length (queue (userQueue um)))"
    and "waitForNextElementChan (userQueue um) = []" "length (queue (userQueue um)) \<le> capacity (userQueue um)"
  shows "pm_reach V ((SetScheduler (NewProcessManager V mx orig um0))\<lparr>userManager := um\<rparr>)"
proof -
  have "pm_reach V (SetScheduler (NewProcessManager V mx orig um))"
    using assms by (intro pr_new) (simp_all add: users_left_def NewProcessManager_def cached_def idle_entries_def
      linkedhashmap.Entries_New)
  then show ?thesis by (simp add: SetScheduler_def NewProcessManager_def)
qed


text \<open>
  C40: A request that is early panics the engine.  \<open>NewManager\<close> starts the chain's server before it
  gives the service its scheduler: when the servers serve and the scheduler is not set, the first
  transaction request or bytecode response on a connection calls the nil scheduler.
\<close>

theorem early_request_panics_engine:
  assumes "start_servers K V W ce en cfg d = (d', Inr m)" "m_Type msg = TX_REQUEST \<or> m_Type msg = GET_BYTECODE_RESPONSE"
  shows "rpc_serving (m_chainRPCServer m) \<and>
    ch_recvMsgRoutine sl (m_chainService m) clk late (RecvMsg msg) (ch_DockerVMCommunicate, sched) = Panic"
  using start_servers_cases[OF assms(1)] assms(2)
  by (auto simp: ch_recvMsgRoutine_def ch_DockerVMCommunicate_def NewChainRPCService_def EnterNextStep_fields Let_def)

lemma new_server_starts:
  "NewChainRPCServer cfg en d = (d', Inr s) \<Longrightarrow> start_server s = (s\<lparr>rpc_serving := True\<rparr>, None)"
  "NewSandboxRPCServer cfg en dir d = (d', Inr s) \<Longrightarrow> start_server s = (s\<lparr>rpc_serving := True\<rparr>, None)"
  by (auto simp: NewChainRPCServer_def NewSandboxRPCServer_def start_server_def new_server_def Let_def
    split: if_splits option.splits prod.splits sum.splits)

text \<open>The servers start whenever their listeners and the contract manager can be made.\<close>

lemma start_servers_succeeds:
  assumes "NewContractManager ce d = (d1, Inr cm)" "NewChainRPCServer cfg en d1 = (d2, Inr cs)"
    and "NewSandboxRPCServer cfg en SandboxRPCDir d2 = (d3, Inr ss)"
  shows "\<exists>m. start_servers K V W ce en cfg d = (d3, Inr m)"
  using assms new_server_starts(1)[OF assms(2)] new_server_starts(2)[OF assms(3)]
  by (simp add: start_servers_def StartChainRPCServer_def StartSandboxRPCServer_def Let_def)

definition small_conf :: conf where
  "small_conf = setDefaultConfigs\<lparr>Process_conf := (Process_conf setDefaultConfigs)\<lparr>MaxOriginalProcessNum := 1\<rparr>\<rparr>"

definition quiet_net :: net_env where
  "quiet_net = \<lparr>ne_fs = quiet_fs, ne_unixErr = (\<lambda>_. None), ne_tcpErr = (\<lambda>_. None)\<rparr>"

definition sample_consts1 :: chain_consts where
  "sample_consts1 = \<lparr>CallContractDepth = 1, RuntimeType_GO = 6, GasLimit = 0\<rparr>"

lemma sample_servers: "\<exists>d' m. start_servers K V W sample_cm_env quiet_net small_conf [] = (d', Inr m)"
proof -
  let ?sock = "filepath_Join [SandboxRPCDir, SandboxRPCSockName]" and ?d1 = "fst (NewContractManager sample_cm_env [])"
  have "\<not> isl (snd (NewContractManager sample_cm_env []))" by code_simp
  then obtain cm where n1: "NewContractManager sample_cm_env [] = (?d1, Inr cm)"
    by (cases "NewContractManager sample_cm_env []"; cases "snd (NewContractManager sample_cm_env [])") auto
  have n2: "\<exists>cs. NewChainRPCServer small_conf quiet_net ?d1 = (?d1, Inr cs)"
    by (simp add: NewChainRPCServer_def small_conf_def setDefaultConfigs_def quiet_net_def)
  have sock: "?sock = ''/sandbox/sandbox.sock''" by code_simp
  have "snd (CreateDir quiet_fs SandboxRPCDir ?d1) = None \<and>
    list_all (\<lambda>q. child_name ''/sandbox/sandbox.sock'' q = None) (map fst (fst (CreateDir quiet_fs SandboxRPCDir ?d1)))" by code_simp
  then obtain d2 where d2: "CreateDir quiet_fs SandboxRPCDir ?d1 = (d2, None)" "\<forall>q\<in>set (map fst d2). child_name ?sock q = None"
    unfolding sock by (cases "CreateDir quiet_fs SandboxRPCDir ?d1") (auto simp: list_all_iff)
  obtain d3 where "createUnixListener quiet_net ?sock d2 = (d3, Inr (UnixListener ?sock))"
    using stale_socket_replaced[OF _ _ _ d2(2), of quiet_net] by (auto simp: quiet_net_def quiet_fs_def)
  then have "CreateUnixListener quiet_net ?sock d2 = (d3, Inr (UnixListener ?sock))" by (simp only: CreateUnixListener_iff)
  then have "\<exists>ss. NewSandboxRPCServer small_conf quiet_net SandboxRPCDir ?d1 = (d3, Inr ss)"
    using d2(1) by (simp add: NewSandboxRPCServer_def quiet_net_def)
  then show ?thesis using start_servers_succeeds n1 n2 by blast
qed


theorem early_request_panics_engine_witness:
  "\<exists>d' m. start_servers sample_consts1 sample_pm_env sample_pm_env sample_cm_env quiet_net small_conf [] = (d', Inr m) \<and>
     rpc_serving (m_chainRPCServer m) \<and>
     ch_recvMsgRoutine (Slow small_conf) (m_chainService m) (\<lambda>_. 0) False (RecvMsg (sample_tx ''t'')) (ch_DockerVMCommunicate, NewRequestScheduler) = Panic"
proof -
  obtain d' m where n: "start_servers sample_consts1 sample_pm_env sample_pm_env sample_cm_env quiet_net small_conf [] = (d', Inr m)"
    using sample_servers[of sample_consts1 sample_pm_env sample_pm_env] by auto
  have "m_Type (sample_tx ''t'') = TX_REQUEST" by code_simp
  with early_request_panics_engine[OF n, of "sample_tx ''t''"] n show ?thesis by auto
qed

end
