(* ===== verification/Spec2Isabelle.thy ===== *)
theory Spec2Isabelle
  imports Lru_Cache Runtime_Props Instance_Manager Engine_Manager
begin

text \<open>
  Verification of the Docker VM of ChainMaker: the contract engine under \<open>src/vm_mgr\<close>, a program that
  runs smart contracts as sandboxed Linux processes, and the runtime in the other directories of
  \<open>src\<close>, the part of a chain node that sends transactions to the engine and answers what the running
  contracts ask for.

  \<^bold>\<open>The program.\<close>  A transaction takes this way.  \<open>Invoke\<close> of the runtime (\<open>runtime.go\<close>) puts a request
  into the send channel of the client manager (\<open>rpc/contract_engine_client_manager.go\<close>).  A connection
  (\<open>rpc/contract_engine_client.go\<close>) streams it to the engine, where the chain service
  (\<open>module/rpc/contract_engine_chain_service.go\<close>) hands it to the request scheduler
  (\<open>core/request_scheduler.go\<close>).  The scheduler finds or makes the request group of the contract
  (\<open>core/request_group.go\<close>), which asks the contract manager (\<open>core/contract_manager.go\<close>) for the
  binary, buffers transactions until it is there, and asks one of the two process managers
  (\<open>core/process_manager.go\<close>) for processes.  A process (\<open>core/process.go\<close>) runs the sandbox as one of
  the Linux users of the pool (\<open>core/user_manager.go\<close>), takes transactions from the group and answers
  them.  While the contract runs, its sandbox talks to the runtime's service
  (\<open>rpc/runtime_service.go\<close>), whose messages reach the loop of \<open>Invoke\<close> and the handlers of
  \<open>runtime_handler.go\<close>; these charge gas (\<open>gas/\<close>) and record times (\<open>utils/time_statics.go\<close>).

  \<^bold>\<open>Conventions.\<close>  Structs are records, enumerations are datatypes, \<open>int\<close> is the unbounded \<^typ>\<open>int\<close>
  except where a width matters (gas is a 64-bit word, whose sums wrap around).  Byte slices and strings are
  \<^typ>\<open>string\<close>.  A Go map is an association list with distinct keys; where the code shares pointers (the
  records of the time statistics, the elements of the LRU list, the process objects) there is an explicit
  store.  A call that returns an error is a sum, with the error on the left.  A call that can block or
  panic returns the datatype \<open>go\<close> of \<open>Prelude\<close> with the constructors \<open>Val\<close>, \<open>Block\<close> and \<open>Panic\<close>.  A
  channel is a list with its capacity written out.  Goroutines are interleaved step by step, under every
  schedule, as inductive relations or as recursion over a schedule.  What lies outside the repository (the
  operating system, the simulation context of the chain, streams, the configuration library, the linked
  hash map, clocks) is a parameter or an input of the step.

  \<^bold>\<open>The engine.\<close>
  \<^item> \<open>Prelude\<close>, \<open>Messages\<close>, \<open>Paths\<close>, \<open>Files\<close>: shared types, the interface of the linked hash map (locale
    \<open>linkedhashmap\<close>), the message structs, \<open>filepath.Clean\<close> and \<open>Join\<close>, a disk with the file helpers of
    \<open>vm_mgr/utils/utils.go\<close>.
  \<^item> \<open>Lru_Cache\<close> (\<open>vm_mgr/utils/lru.go\<close>): the list and the index on a store of elements.  The locale \<open>lru\<close>
    is the contract of the cache; its interpretation on the code gives the refinement of a list kept most
    recently used first.
  \<^item> \<open>Fixed_Queue\<close> (\<open>fixed_queue.go\<close>): every enqueue and dequeue as steps on the two channels; conservation
    of the elements, progress of an enqueue, and the wake-up that is lost.
  \<^item> \<open>Tx_Steps\<close> (\<open>utils.go\<close>), \<open>Engine_Config\<close> (\<open>config/config.go\<close>), \<open>User_Manager\<close> (\<open>core/user.go\<close>,
    \<open>core/user_manager.go\<close>): step log, defaults and environment variables, the pool of users filled by
    goroutines in any order.
  \<^item> \<open>Process\<close> (\<open>core/process.go\<close>): the life cycle of a sandbox, its timer, channels and handlers.  Shown over
    all reachable processes: popping the timer never blocks, no handler dereferences nil, an exit answers the
    running transaction exactly once; and the state in which a manager's signal blocks.
  \<^item> \<open>Process_Manager\<close>, \<open>Pm_Invariant\<close>, \<open>Pm_Steps\<close>, \<open>Pm_Handlers\<close> (\<open>core/process_manager.go\<close>): the
    handlers with their pools of goroutines, the invariant of caches, process groups and users, its
    preservation by every step of every goroutine (locale \<open>pm_world\<close> over the two linked hash maps), and the
    loop over the event channel, each of whose events stays within the reachable managers.
  \<^item> \<open>Contract_Manager\<close>, \<open>Request_Group\<close>, \<open>Request_Scheduler\<close>, \<open>Engine\<close>: the three event loops and their
    composition.  The locale \<open>handler_rel\<close> carries a relation through all handlers of a group; it is
    interpreted on what a group asks for and on what it sends.  Shown: no transaction of the chain is lost,
    no goroutine of the composed engine panics on well-formed messages, process managers are asked only for
    contracts that have a group; per component the bounds of the cache of binaries and the errors the code
    makes.
  \<^item> \<open>Engine_Rpc\<close>, \<open>Engine_Manager\<close> (\<open>module/rpc\<close>, \<open>module/security\<close>, \<open>module/manager.go\<close>): both services
    and servers, the security settings and the start and stop.  A successful start is an initial state of
    the runs of \<open>Engine\<close>.

  \<^bold>\<open>The runtime.\<close>
  \<^item> \<open>Gas\<close> (\<open>gas/\<close>): every charge at every block version against a charge on natural numbers.
  \<^item> \<open>Tx_Duration\<close> (\<open>utils/time_statics.go\<close>): the tree of contract calls on a store with a pool of records;
    it refines the stack of open calls.
  \<^item> \<open>Runtime_Base\<close>, \<open>Runtime_Config\<close>, \<open>Runtime_Iter\<close>, \<open>Runtime_Handler\<close>, \<open>Runtime_Bytecode\<close>
    (\<open>runtime_handler.go\<close>, \<open>config/config.go\<close>, \<open>utils/utils.go\<close>): the handlers.  \<open>Runtime\<close> (\<open>runtime.go\<close>) is
    the whole invocation, and \<open>Runtime_Props\<close> shows that every request gets one response of its kind, that
    gas stays within the limit, and what the ranges of the prefix iterators contain.
  \<^item> \<open>Client_Manager\<close>, \<open>Rpc_Streams\<close>, \<open>Runtime_Server\<close>, \<open>Instance_Manager\<close> (\<open>rpc/\<close>,
    \<open>instance_manager.go\<close>): connections, streams, listener and the manager per chain.  The locale
    \<open>stream_routines\<close> is the contract of a sender and a receiver that share two stop channels; it is
    interpreted on the runtime's client, the runtime's service and the engine's chain service.

  \<^bold>\<open>Loops and bounds.\<close>  Loops over data are structural recursion.  The two loops that remove a stale
  socket and listen again, \<open>createUnixListener\<close> of the runtime and \<open>CreateUnixListener\<close> of the engine,
  terminate because they go round again only after the path was removed.  The search for the caller and the
  log of the time statistics follow pointers and are partial functions with values in \<open>option\<close>; the search
  is shown to return in every run, of the log nothing is claimed.  An event loop is recursion over the events
  it receives, so that a statement about all lists of events covers every prefix of an endless run.  A
  schedule of a pool of goroutines is a list of choices followed by five rounds over all of them; five are
  enough because no goroutine has more steps, and \<open>Pm_Handlers\<close> shows that every pool ends unless a
  goroutine blocks or panics.

  \<^bold>\<open>Findings.\<close>  Several properties state what the code does where it plainly means something else, such as a
  group that waits for ever after a failed retry, a manager that panics on an exit message after a failed
  signal, a start of the client that hangs after a stop, and a read above the gas limit that costs nothing.

  \<^bold>\<open>Not modelled.\<close>
  \<^item> \<open>vm_mgr/main.go\<close>: it reads the configuration, starts the profiler and the manager and sleeps.
  \<^item> \<open>vm_mgr/logger/logger.go\<close> and the wording of log lines, among them those of \<open>PrintTxSteps\<close> and of the
    step log of the runtime: nothing depends on what is logged.
  \<^item> \<open>utils/pbpool.go\<close> and \<open>vm_mgr/utils/pbpool.go\<close>: pools of empty messages; every message is taken fresh.
  \<^item> The generated code below \<open>pb/protogo\<close> other than the structs and enumerations: encoding and services
    are made by the protocol compiler.
  \<^item> Interfaces, mocks and the fixtures of the tests: method sets without code and test doubles.
  \<^item> Permission bits of files, and the options of the servers that are the same for every configuration.
  \<^item> The cost of time: timeouts are events that may happen at any step at which the code waits for them.
\<close>

end
